theory Spec2Isabelle
  imports Main "HOL-Library.Word"
begin

section \<open>The heap broker of the optimizing compiler: \<^verbatim>\<open>js-heap-broker.cc\<close>\<close>

text \<open>
  The development embeds the identity cache, the lifecycle modes, the record
  constructors, the read facade and the fast-literal analysis of
  \<^verbatim>\<open>src/deps/v8/src/compiler/js-heap-broker.cc\<close>.

  \<^item> A heap-object identity (\<^verbatim>\<open>Handle<Object>::address()\<close>) is a number.
  \<^item> An \<^verbatim>\<open>ObjectData*\<close> is an index into the broker's zone; \<^verbatim>\<open>nullptr\<close> is
    \<open>None\<close> of an option.
  \<^item> A failed \<^verbatim>\<open>CHECK\<close> is the outcome \<open>Fatal\<close>, naming the check.
  \<^item> The recursion of \<^verbatim>\<open>GetOrCreateData\<close> through the record constructors runs
    on fuel (the nesting depth of the calls); running out of it is the outcome
    \<open>OutOfFuel\<close>.
\<close>

subsection \<open>Outcomes of fallible operations\<close>

datatype Name =
    AllocationSite | Cell | Code | Context | FeedbackVector | FixedArray
  | FixedArrayBase | FixedDoubleArray | HeapNumber | HeapObject
  | InternalizedString | JSArray | JSFunction | JSGlobalProxy | JSObject
  | JSRegExp | Map | Module | MutableHeapNumber | Name | NativeContext
  | PropertyCell | ScopeInfo | ScriptContextTable | SharedFunctionInfo | String

datatype check =
    CHECK_SerializingAllowed
  | CHECK_NOT_NULL_data
  | CHECK_NOT_NULL_map
  | CHECK_NOT_NULL_shared
  | CHECK_NOT_NULL_sloppy_arguments_map
  | CHECK_NOT_NULL_canonical_scope
  | CHECK_refs_insert
  | CHECK_NE_mode_kDisabled
  | CHECK_Is Name
  | CHECK_IsNativeContext
  | CHECK_NOT_NULL_ObjectRef_data

datatype 'a outcome =
    OutOfFuel
  | Fatal check
  | Undefined
  | Ok 'a

text \<open>
  \<open>Undefined\<close> is a read the C++ leaves undefined: a \<^verbatim>\<open>static_cast\<close> to a
  class the record is not an instance of, or a member read before its
  initialiser ran.
\<close>

fun bind :: "'a outcome \<Rightarrow> ('a \<Rightarrow> 'b outcome) \<Rightarrow> 'b outcome" where
  "bind OutOfFuel f = OutOfFuel"
| "bind (Fatal c) f = Fatal c"
| "bind Undefined f = Undefined"
| "bind (Ok x) f = f x"

subsection \<open>The live heap and the configuration (external collaborators)\<close>

type_synonym Address = nat
type_synonym InstanceType = nat
type_synonym double = "64 word"

text \<open>
  What the runtime exposes per heap-object identity, and the flags. The bodies
  of these accessors are not part of the file; they are parameters.
  \<open>Object_Is h N a\<close> is \<^verbatim>\<open>object->Is##Name()\<close> asked of the live object,
  \<open>InstanceTypeChecker_Is h N t\<close> is \<^verbatim>\<open>InstanceTypeChecker::Is##Name(t)\<close>,
  \<open>canonical_scope h\<close> says that
  \<^verbatim>\<open>isolate()->handle_scope_data()->canonical_scope\<close> is not null.
\<close>

record Isolate =
  Object_IsSmi :: "Address \<Rightarrow> bool"
  Object_Is :: "Name \<Rightarrow> Address \<Rightarrow> bool"
  HeapObject_map :: "Address \<Rightarrow> Address"
  JSFunction_shared :: "Address \<Rightarrow> Address"
  Context_sloppy_arguments_map :: "Address \<Rightarrow> Address"
  Map_instance_type :: "Address \<Rightarrow> InstanceType"
  Map_is_undetectable :: "Address \<Rightarrow> bool"
  Map_is_callable :: "Address \<Rightarrow> bool"
  String_length :: "Address \<Rightarrow> int"
  HeapNumber_value :: "Address \<Rightarrow> double"
  ODDBALL_TYPE :: InstanceType
  undefined_map :: Address
  null_map :: Address
  boolean_map :: Address
  the_hole_map :: Address
  uninitialized_map :: Address
  InstanceTypeChecker_Is :: "Name \<Rightarrow> InstanceType \<Rightarrow> bool"
  canonical_scope :: bool
  FLAG_strict_heap_broker :: bool
  FLAG_concurrent_compiler_frontend :: bool

subsection \<open>Records (\<^verbatim>\<open>ObjectData\<close> and its subclasses)\<close>

datatype OddballType = kNone | kBoolean | kUndefined | kNull | kHole | kUninitialized | kOther

datatype Flag = kUndetectable | kCallable

record HeapObjectType =
  instance_type :: InstanceType
  flags :: "Flag set"
  oddball_type :: OddballType

type_synonym ObjectData_ptr = nat

text \<open>
  One record of the zone. \<open>type\<close> is \<open>None\<close> for a plain \<^verbatim>\<open>ObjectData\<close>
  (no \<^verbatim>\<open>HeapObjectData\<close> part); \<open>map_ptr\<close> (the member \<^verbatim>\<open>map\<close>), \<open>shared\<close> and
  \<open>sloppy_arguments_map\<close> are \<open>None\<close> while not initialised or null.
\<close>

record ObjectData =
  object :: Address
  is_smi :: bool
  type :: "HeapObjectType option"
  map_ptr :: "ObjectData_ptr option"
  shared :: "ObjectData_ptr option"
  sloppy_arguments_map :: "ObjectData_ptr option"

subsection \<open>The broker\<close>

datatype BrokerMode = kDisabled | kSerializing | kSerialized

record JSHeapBroker =
  mode :: BrokerMode
  refs :: "Address \<rightharpoonup> ObjectData_ptr"
  zone :: "ObjectData list"

definition JSHeapBroker_ctor :: "Isolate \<Rightarrow> JSHeapBroker" where
  "JSHeapBroker_ctor h =
     \<lparr>mode = (if FLAG_concurrent_compiler_frontend h then kSerializing else kDisabled),
      refs = Map.empty,
      zone = []\<rparr>"

definition SerializingAllowed :: "Isolate \<Rightarrow> JSHeapBroker \<Rightarrow> bool" where
  "SerializingAllowed h b \<longleftrightarrow>
     mode b = kSerializing \<or> (\<not> FLAG_strict_heap_broker h \<and> mode b = kSerialized)"

definition HeapObjectTypeFromMap :: "Isolate \<Rightarrow> Address \<Rightarrow> HeapObjectType" where
  "HeapObjectTypeFromMap h m =
     (let oddball =
            (if Map_instance_type h m = ODDBALL_TYPE h then
               (if m = undefined_map h then kUndefined
                else if m = null_map h then kNull
                else if m = boolean_map h then kBoolean
                else if m = the_hole_map h then kHole
                else if m = uninitialized_map h then kUninitialized
                else kOther)
             else kNone);
          fl = (if Map_is_undetectable h m then {kUndetectable} else {}) \<union>
               (if Map_is_callable h m then {kCallable} else {})
      in \<lparr>instance_type = Map_instance_type h m, flags = fl, oddball_type = oddball\<rparr>)"

definition GetData :: "JSHeapBroker \<Rightarrow> Address \<Rightarrow> ObjectData_ptr option" where
  "GetData b a = refs b a"

definition AddData :: "Isolate \<Rightarrow> JSHeapBroker \<Rightarrow> Address \<Rightarrow> ObjectData_ptr \<Rightarrow> JSHeapBroker outcome" where
  "AddData h b a data =
     (if \<not> canonical_scope h then Fatal CHECK_NOT_NULL_canonical_scope
      else if refs b a \<noteq> None then Fatal CHECK_refs_insert
      else Ok (b\<lparr>refs := (refs b)(a \<mapsto> data)\<rparr>))"

text \<open>
  \<^verbatim>\<open>new (broker->zone()) ObjectData(broker, object, is_smi)\<close>: the zone hands
  out the next free slot, the constructor fills the base fields and registers
  the record with the broker.
\<close>

definition ObjectData_ctor ::
  "Isolate \<Rightarrow> JSHeapBroker \<Rightarrow> Address \<Rightarrow> bool \<Rightarrow> (ObjectData_ptr \<times> JSHeapBroker) outcome" where
  "ObjectData_ctor h b obj smi =
     (let this = length (zone b);
          b1 = b\<lparr>zone := zone b @
                 [\<lparr>object = obj, is_smi = smi, type = None, map_ptr = None,
                   shared = None, sloppy_arguments_map = None\<rparr>]\<rparr>
      in bind (AddData h b1 obj this) (\<lambda>b2. Ok (this, b2)))"

definition data_at :: "JSHeapBroker \<Rightarrow> ObjectData_ptr \<Rightarrow> ObjectData" where
  "data_at b p = zone b ! p"

definition ObjectData_Is :: "Isolate \<Rightarrow> JSHeapBroker \<Rightarrow> Name \<Rightarrow> ObjectData_ptr \<Rightarrow> bool outcome" where
  "ObjectData_Is h b N p =
     (if mode b = kDisabled then Ok (Object_Is h N (object (data_at b p)))
      else if is_smi (data_at b p) then Ok False
      else (case type (data_at b p) of
              None \<Rightarrow> Undefined
            | Some t \<Rightarrow> Ok (InstanceTypeChecker_Is h N (instance_type t))))"

definition ObjectData_As :: "Isolate \<Rightarrow> JSHeapBroker \<Rightarrow> Name \<Rightarrow> ObjectData_ptr \<Rightarrow> ObjectData_ptr outcome" where
  "ObjectData_As h b N p =
     (if mode b = kDisabled then Fatal CHECK_NE_mode_kDisabled
      else bind (ObjectData_Is h b N p)
             (\<lambda>is. if \<not> is then Fatal (CHECK_Is N) else Ok p))"

subsection \<open>Constructors of the record classes\<close>

text \<open>
  The constructors call back into \<^verbatim>\<open>broker->GetOrCreateData\<close>; that call is
  the parameter \<open>goc\<close>, which \<open>GetOrCreateData\<close> below instantiates with itself
  on less fuel.
\<close>

type_synonym GetOrCreateData_fn =
  "JSHeapBroker \<Rightarrow> Address \<Rightarrow> (ObjectData_ptr \<times> JSHeapBroker) outcome"

definition init_type :: "JSHeapBroker \<Rightarrow> ObjectData_ptr \<Rightarrow> HeapObjectType \<Rightarrow> JSHeapBroker" where
  "init_type b this ty = b\<lparr>zone := (zone b)[this := (zone b ! this)\<lparr>type := Some ty\<rparr>]\<rparr>"

definition init_map :: "JSHeapBroker \<Rightarrow> ObjectData_ptr \<Rightarrow> ObjectData_ptr option \<Rightarrow> JSHeapBroker" where
  "init_map b this m = b\<lparr>zone := (zone b)[this := (zone b ! this)\<lparr>map_ptr := m\<rparr>]\<rparr>"

definition init_shared :: "JSHeapBroker \<Rightarrow> ObjectData_ptr \<Rightarrow> ObjectData_ptr option \<Rightarrow> JSHeapBroker" where
  "init_shared b this s = b\<lparr>zone := (zone b)[this := (zone b ! this)\<lparr>shared := s\<rparr>]\<rparr>"

definition init_sloppy_arguments_map ::
  "JSHeapBroker \<Rightarrow> ObjectData_ptr \<Rightarrow> ObjectData_ptr option \<Rightarrow> JSHeapBroker" where
  "init_sloppy_arguments_map b this m =
     b\<lparr>zone := (zone b)[this := (zone b ! this)\<lparr>sloppy_arguments_map := m\<rparr>]\<rparr>"

text \<open>The body of the \<^verbatim>\<open>HeapObjectData\<close> constructor, run after the member initialisers.\<close>

definition HeapObjectData_body ::
  "Isolate \<Rightarrow> JSHeapBroker \<Rightarrow> ObjectData_ptr \<Rightarrow> (ObjectData_ptr \<times> JSHeapBroker) outcome" where
  "HeapObjectData_body h b this =
     (case map_ptr (data_at b this) of
        None \<Rightarrow> Fatal CHECK_NOT_NULL_map
      | Some m \<Rightarrow>
          if \<not> SerializingAllowed h b then Fatal CHECK_SerializingAllowed
          else Ok (this, b))"

definition HeapObjectData_ctor ::
  "GetOrCreateData_fn \<Rightarrow> Isolate \<Rightarrow> JSHeapBroker \<Rightarrow> Address \<Rightarrow> HeapObjectType
     \<Rightarrow> (ObjectData_ptr \<times> JSHeapBroker) outcome" where
  "HeapObjectData_ctor goc h b obj ty =
     bind (ObjectData_ctor h b obj False) (\<lambda>(this, b1).
       let b2 = init_type b1 this ty in
       bind (goc b2 (HeapObject_map h obj)) (\<lambda>(d, b3).
         bind (ObjectData_As h b3 Map d) (\<lambda>m.
           HeapObjectData_body h (init_map b3 this (Some m)) this)))"

definition JSFunctionData_body ::
  "JSHeapBroker \<Rightarrow> ObjectData_ptr \<Rightarrow> (ObjectData_ptr \<times> JSHeapBroker) outcome" where
  "JSFunctionData_body b this =
     (case shared (data_at b this) of
        None \<Rightarrow> Fatal CHECK_NOT_NULL_shared
      | Some s \<Rightarrow> Ok (this, b))"

definition JSFunctionData_ctor ::
  "GetOrCreateData_fn \<Rightarrow> Isolate \<Rightarrow> JSHeapBroker \<Rightarrow> Address \<Rightarrow> HeapObjectType
     \<Rightarrow> (ObjectData_ptr \<times> JSHeapBroker) outcome" where
  "JSFunctionData_ctor goc h b obj ty =
     bind (HeapObjectData_ctor goc h b obj ty) (\<lambda>(this, b1).
       bind (goc b1 (JSFunction_shared h obj)) (\<lambda>(d, b2).
         bind (ObjectData_As h b2 SharedFunctionInfo d) (\<lambda>s.
           JSFunctionData_body (init_shared b2 this (Some s)) this)))"

text \<open>
  The body of the \<^verbatim>\<open>NativeContextData\<close> constructor; the member initialiser
  has set \<^verbatim>\<open>sloppy_arguments_map_\<close> to null before it runs.
\<close>

definition NativeContextData_body ::
  "GetOrCreateData_fn \<Rightarrow> Isolate \<Rightarrow> JSHeapBroker \<Rightarrow> ObjectData_ptr \<Rightarrow> Address
     \<Rightarrow> (ObjectData_ptr \<times> JSHeapBroker) outcome" where
  "NativeContextData_body goc h b this obj =
     (if \<not> Object_Is h NativeContext obj then Fatal CHECK_IsNativeContext
      else if \<not> SerializingAllowed h b then Fatal CHECK_SerializingAllowed
      else
        bind (goc b (Context_sloppy_arguments_map h obj)) (\<lambda>(d, b3).
          bind (ObjectData_As h b3 Map d) (\<lambda>m.
            let b4 = init_sloppy_arguments_map b3 this (Some m) in
            (case sloppy_arguments_map (data_at b4 this) of
               None \<Rightarrow> Fatal CHECK_NOT_NULL_sloppy_arguments_map
             | Some s \<Rightarrow> Ok (this, b4)))))"

definition NativeContextData_ctor ::
  "GetOrCreateData_fn \<Rightarrow> Isolate \<Rightarrow> JSHeapBroker \<Rightarrow> Address \<Rightarrow> HeapObjectType
     \<Rightarrow> (ObjectData_ptr \<times> JSHeapBroker) outcome" where
  "NativeContextData_ctor goc h b obj ty =
     bind (HeapObjectData_ctor goc h b obj ty) (\<lambda>(this, b1).
       NativeContextData_body goc h (init_sloppy_arguments_map b1 this None) this obj)"

definition HeapObjectData_Serialize ::
  "GetOrCreateData_fn \<Rightarrow> Isolate \<Rightarrow> JSHeapBroker \<Rightarrow> Address
     \<Rightarrow> (ObjectData_ptr \<times> JSHeapBroker) outcome" where
  "HeapObjectData_Serialize goc h b obj =
     (if \<not> SerializingAllowed h b then Fatal CHECK_SerializingAllowed
      else
        let m = HeapObject_map h obj;
            ty = HeapObjectTypeFromMap h m
        in if Object_Is h JSFunction obj then JSFunctionData_ctor goc h b obj ty
           else if Object_Is h NativeContext obj then NativeContextData_ctor goc h b obj ty
           else HeapObjectData_ctor goc h b obj ty)"

definition ObjectData_Serialize ::
  "GetOrCreateData_fn \<Rightarrow> Isolate \<Rightarrow> JSHeapBroker \<Rightarrow> Address
     \<Rightarrow> (ObjectData_ptr \<times> JSHeapBroker) outcome" where
  "ObjectData_Serialize goc h b obj =
     (if \<not> SerializingAllowed h b then Fatal CHECK_SerializingAllowed
      else if Object_IsSmi h obj then ObjectData_ctor h b obj True
      else HeapObjectData_Serialize goc h b obj)"

subsection \<open>\<^verbatim>\<open>JSHeapBroker::GetOrCreateData\<close>\<close>

primrec GetOrCreateData :: "nat \<Rightarrow> Isolate \<Rightarrow> GetOrCreateData_fn" where
  "GetOrCreateData 0 h = (\<lambda>b obj. OutOfFuel)"
| "GetOrCreateData (Suc n) h = (\<lambda>b obj.
     if \<not> SerializingAllowed h b then Fatal CHECK_SerializingAllowed
     else
       bind (case GetData b obj of
               None \<Rightarrow>
                 bind (ObjectData_Serialize (GetOrCreateData n h) h b obj)
                   (\<lambda>(d, b'). Ok (Some d, b'))
             | Some d \<Rightarrow> Ok (Some d, b))
         (\<lambda>(data, b'). case data of
                          None \<Rightarrow> Fatal CHECK_NOT_NULL_data
                        | Some d \<Rightarrow> Ok (d, b')))"

subsection \<open>The read facade (\<^verbatim>\<open>ObjectRef\<close>)\<close>

record ObjectRef =
  data_ptr :: ObjectData_ptr

definition ObjectRef_ctor ::
  "nat \<Rightarrow> Isolate \<Rightarrow> JSHeapBroker \<Rightarrow> Address \<Rightarrow> (ObjectRef \<times> JSHeapBroker) outcome" where
  "ObjectRef_ctor n h b obj =
     bind (case mode b of
             kSerialized \<Rightarrow>
               if FLAG_strict_heap_broker h then Ok (GetData b obj, b)
               else bind (GetOrCreateData n h b obj) (\<lambda>(d, b'). Ok (Some d, b'))
           | kSerializing \<Rightarrow>
               bind (GetOrCreateData n h b obj) (\<lambda>(d, b'). Ok (Some d, b'))
           | kDisabled \<Rightarrow>
               (case GetData b obj of
                  Some d \<Rightarrow> Ok (Some d, b)
                | None \<Rightarrow>
                    bind (ObjectData_ctor h b obj (Object_IsSmi h obj))
                      (\<lambda>(d, b'). Ok (Some d, b'))))
       (\<lambda>(data, b'). case data of
                        None \<Rightarrow> Fatal CHECK_NOT_NULL_ObjectRef_data
                      | Some d \<Rightarrow> Ok (\<lparr>data_ptr = d\<rparr>, b'))"

definition ObjectRef_equals :: "ObjectRef \<Rightarrow> ObjectRef \<Rightarrow> bool" where
  "ObjectRef_equals r other \<longleftrightarrow> data_ptr r = data_ptr other"

definition ObjectRef_object :: "JSHeapBroker \<Rightarrow> ObjectRef \<Rightarrow> Address" where
  "ObjectRef_object b r = object (data_at b (data_ptr r))"

definition HeapObjectRef_map ::
  "nat \<Rightarrow> Isolate \<Rightarrow> JSHeapBroker \<Rightarrow> ObjectRef \<Rightarrow> (ObjectRef \<times> JSHeapBroker) outcome" where
  "HeapObjectRef_map n h b r =
     (if mode b = kDisabled then
        ObjectRef_ctor n h b (HeapObject_map h (ObjectRef_object b r))
      else
        bind (ObjectData_As h b HeapObject (data_ptr r)) (\<lambda>p.
          case map_ptr (data_at b p) of
            None \<Rightarrow> Undefined
          | Some m \<Rightarrow> Ok (\<lparr>data_ptr = m\<rparr>, b)))"

definition HeapObjectRef_type :: "Isolate \<Rightarrow> JSHeapBroker \<Rightarrow> ObjectRef \<Rightarrow> HeapObjectType outcome" where
  "HeapObjectRef_type h b r =
     (if mode b = kDisabled then
        Ok (HeapObjectTypeFromMap h (HeapObject_map h (ObjectRef_object b r)))
      else
        bind (ObjectData_As h b HeapObject (data_ptr r)) (\<lambda>p.
          case type (data_at b p) of
            None \<Rightarrow> Undefined
          | Some t \<Rightarrow> Ok t))"

definition HeapNumberRef_value :: "Isolate \<Rightarrow> JSHeapBroker \<Rightarrow> ObjectRef \<Rightarrow> double" where
  "HeapNumberRef_value h b r = HeapNumber_value h (ObjectRef_object b r)"

definition StringRef_length :: "Isolate \<Rightarrow> JSHeapBroker \<Rightarrow> ObjectRef \<Rightarrow> int" where
  "StringRef_length h b r = String_length h (ObjectRef_object b r)"

subsection \<open>The fast-literal analysis\<close>

text \<open>
  The boilerplate graph as the analysis reads it from the live heap. Migration
  (\<^verbatim>\<open>JSObject::TryMigrateInstance\<close>) is the only write of the analysis: its verdict
  is a field of the object, the other fields describe the object after the
  attempt, and the objects it ran on are logged in \<open>migrations\<close>.
  \<open>own_descriptors\<close> are the descriptors \<open>0 ..< NumberOfOwnDescriptors()\<close> of
  the object's map, each with what the object answers for the field it names.
\<close>

datatype PropertyLocation = kField | kDescriptor

record Descriptor =
  location :: PropertyLocation
  IsUnboxedDoubleField :: bool
  RawFastPropertyAt :: Address

record FixedArrayBase_rec =
  map_is_fixed_cow_array_map :: bool
  contents :: "Address list"
  Size :: int

record JSObject_rec =
  TryMigrateInstance :: bool
  elements :: FixedArrayBase_rec
  HasSmiOrObjectElements :: bool
  HasDoubleElements :: bool
  HasFastProperties :: bool
  property_array_length :: int
  own_descriptors :: "Descriptor list"

record LiteralHeap =
  Object_IsJSObject :: "Address \<Rightarrow> bool"
  JSObject_at :: "Address \<Rightarrow> JSObject_rec"
  AllocationSite_boilerplate :: "Address \<Rightarrow> Address"
  kMaxRegularHeapObjectSize :: int
  kMaxInObjectProperties :: int

record LiteralWalk =
  max_properties :: int
  migrations :: "Address list"

text \<open>\<^verbatim>\<open>(*max_properties)--\<close>: the counter after the post-decrement.\<close>

definition decrement :: "LiteralWalk \<Rightarrow> LiteralWalk" where
  "decrement w = w\<lparr>max_properties := max_properties w - 1\<rparr>"

text \<open>
  \<open>max_depth\<close> is a natural number (\<^verbatim>\<open>DCHECK_GE(max_depth, 0)\<close>). The two loops
  are the functions \<open>elements_loop\<close> and \<open>properties_loop\<close> over the entries
  still to visit; their argument \<open>d\<close> is \<^verbatim>\<open>max_depth - 1\<close>.
\<close>

fun IsFastLiteralHelper :: "LiteralHeap \<Rightarrow> Address \<Rightarrow> nat \<Rightarrow> LiteralWalk \<Rightarrow> bool \<times> LiteralWalk"
  and elements_loop :: "LiteralHeap \<Rightarrow> Address list \<Rightarrow> nat \<Rightarrow> LiteralWalk \<Rightarrow> bool \<times> LiteralWalk"
  and properties_loop :: "LiteralHeap \<Rightarrow> Descriptor list \<Rightarrow> nat \<Rightarrow> LiteralWalk \<Rightarrow> bool \<times> LiteralWalk"
where
  "IsFastLiteralHelper H boilerplate max_depth w =
     (let w1 = w\<lparr>migrations := migrations w @ [boilerplate]\<rparr>;
          obj = JSObject_at H boilerplate
      in if \<not> TryMigrateInstance obj then (False, w1)
         else (case max_depth of
                 0 \<Rightarrow> (False, w1)
               | Suc d \<Rightarrow>
                   (case (if 0 < length (contents (elements obj)) \<and>
                             \<not> map_is_fixed_cow_array_map (elements obj)
                          then
                            if HasSmiOrObjectElements obj then
                              elements_loop H (contents (elements obj)) d w1
                            else if HasDoubleElements obj then
                              (if kMaxRegularHeapObjectSize H < Size (elements obj)
                               then (False, w1) else (True, w1))
                            else (False, w1)
                          else (True, w1)) of
                      (ok, w2) \<Rightarrow>
                        if \<not> ok then (False, w2)
                        else if \<not> (HasFastProperties obj \<and> property_array_length obj = 0)
                        then (False, w2)
                        else properties_loop H (own_descriptors obj) d w2)))"
| "elements_loop H [] d w = (True, w)"
| "elements_loop H (v # vs) d w =
     (if max_properties w = 0 then (False, decrement w)
      else
        let w1 = decrement w in
        if Object_IsJSObject H v then
          (case IsFastLiteralHelper H v d w1 of
             (ok, w2) \<Rightarrow> if \<not> ok then (False, w2) else elements_loop H vs d w2)
        else elements_loop H vs d w1)"
| "properties_loop H [] d w = (True, w)"
| "properties_loop H (p # ps) d w =
     (if location p \<noteq> kField then properties_loop H ps d w
      else if max_properties w = 0 then (False, decrement w)
      else
        let w1 = decrement w in
        if IsUnboxedDoubleField p then properties_loop H ps d w1
        else if Object_IsJSObject H (RawFastPropertyAt p) then
          (case IsFastLiteralHelper H (RawFastPropertyAt p) d w1 of
             (ok, w2) \<Rightarrow> if \<not> ok then (False, w2) else properties_loop H ps d w2)
        else properties_loop H ps d w1)"

definition kMaxFastLiteralDepth :: nat where
  "kMaxFastLiteralDepth = 3"

definition kMaxFastLiteralProperties :: "LiteralHeap \<Rightarrow> int" where
  "kMaxFastLiteralProperties H = kMaxInObjectProperties H"

definition AllocationSiteRef_IsFastLiteral :: "LiteralHeap \<Rightarrow> JSHeapBroker \<Rightarrow> ObjectRef \<Rightarrow> bool" where
  "AllocationSiteRef_IsFastLiteral H b r =
     fst (IsFastLiteralHelper H (AllocationSite_boilerplate H (ObjectRef_object b r))
            kMaxFastLiteralDepth
            \<lparr>max_properties = kMaxFastLiteralProperties H, migrations = []\<rparr>)"

subsection \<open>Invariants and pre/postconditions used in the proofs\<close>

definition grows :: "JSHeapBroker \<Rightarrow> JSHeapBroker \<Rightarrow> bool" where
  "grows b b' \<longleftrightarrow> mode b' = mode b \<and> refs b \<subseteq>\<^sub>m refs b' \<and> length (zone b) \<le> length (zone b') \<and>
     (\<forall>p < length (zone b). zone b' ! p = zone b ! p)"

definition goc_post :: "GetOrCreateData_fn \<Rightarrow> bool" where
  "goc_post goc \<longleftrightarrow> (\<forall>b a d b'. goc b a = Ok (d, b') \<longrightarrow> grows b b' \<and> refs b' a = Some d)"

definition cache_inv :: "JSHeapBroker \<Rightarrow> bool" where
  "cache_inv b \<longleftrightarrow>
     (\<forall>a p. refs b a = Some p \<longrightarrow> p < length (zone b) \<and> object (zone b ! p) = a) \<and>
     (\<forall>p < length (zone b). refs b (object (zone b ! p)) = Some p)"

definition snapshot_inv :: "Isolate \<Rightarrow> JSHeapBroker \<Rightarrow> bool" where
  "snapshot_inv h b \<longleftrightarrow>
     (\<forall>a p. refs b a = Some p \<longrightarrow>
        p < length (zone b) \<and> is_smi (zone b ! p) = Object_IsSmi h a \<and>
        (\<not> Object_IsSmi h a \<longrightarrow>
           type (zone b ! p) = Some (HeapObjectTypeFromMap h (HeapObject_map h a))))"

definition step_closed :: "Isolate \<Rightarrow> (JSHeapBroker \<Rightarrow> bool) \<Rightarrow> bool" where
  "step_closed h P \<longleftrightarrow>
     (\<forall>b a this b1. P b \<and> Object_IsSmi h a \<and> ObjectData_ctor h b a True = Ok (this, b1) \<longrightarrow> P b1) \<and>
     (\<forall>b a this b1. P b \<and> \<not> Object_IsSmi h a \<and> ObjectData_ctor h b a False = Ok (this, b1) \<longrightarrow>
        P (init_type b1 this (HeapObjectTypeFromMap h (HeapObject_map h a)))) \<and>
     (\<forall>b this m. P b \<longrightarrow> P (init_map b this m)) \<and>
     (\<forall>b this m. P b \<longrightarrow> P (init_shared b this m)) \<and>
     (\<forall>b this m. P b \<longrightarrow> P (init_sloppy_arguments_map b this m))"

definition goc_pres :: "(JSHeapBroker \<Rightarrow> bool) \<Rightarrow> GetOrCreateData_fn \<Rightarrow> bool" where
  "goc_pres P goc \<longleftrightarrow> (\<forall>b a d b'. P b \<and> goc b a = Ok (d, b') \<longrightarrow> P b')"

definition is_Map_object :: "Isolate \<Rightarrow> Address \<Rightarrow> bool" where
  "is_Map_object h m \<longleftrightarrow>
     \<not> Object_IsSmi h m \<and> \<not> Object_Is h JSFunction m \<and> \<not> Object_Is h NativeContext m \<and>
     InstanceTypeChecker_Is h Map (Map_instance_type h (HeapObject_map h m))"

definition wf_heap :: "Isolate \<Rightarrow> bool" where
  "wf_heap h \<longleftrightarrow>
     canonical_scope h \<and>
     (\<forall>a. \<not> Object_IsSmi h a \<longrightarrow>
        is_Map_object h (HeapObject_map h a) \<and>
        HeapObject_map h (HeapObject_map h (HeapObject_map h a)) = HeapObject_map h (HeapObject_map h a)) \<and>
     (\<forall>a. \<not> Object_IsSmi h a \<and> Object_Is h JSFunction a \<longrightarrow>
        \<not> Object_IsSmi h (JSFunction_shared h a) \<and>
        \<not> Object_Is h JSFunction (JSFunction_shared h a) \<and>
        \<not> Object_Is h NativeContext (JSFunction_shared h a) \<and>
        InstanceTypeChecker_Is h SharedFunctionInfo
          (Map_instance_type h (HeapObject_map h (JSFunction_shared h a)))) \<and>
     (\<forall>a. \<not> Object_IsSmi h a \<and> \<not> Object_Is h JSFunction a \<and> Object_Is h NativeContext a \<longrightarrow>
        is_Map_object h (Context_sloppy_arguments_map h a))"

definition succeeds :: "nat \<Rightarrow> Isolate \<Rightarrow> Address \<Rightarrow> bool" where
  "succeeds k h a \<longleftrightarrow>
     (\<forall>n\<ge>k. \<forall>b. SerializingAllowed h b \<and> snapshot_inv h b \<longrightarrow>
        (\<exists>d b'. GetOrCreateData n h b a = Ok (d, b')))"

text \<open>A small live heap: address 1 is the meta map, 2 the map of plain objects, 3 a plain
  object, 4 the map of functions, 5 a function, 6 its shared function info, 7 the map of shared
  function infos, 8 the map of strings, 9 a string of length 3, 10 the map of native contexts,
  11 a native context (its sloppy-arguments map is 2); 0 and everything above 11 are small
  integers.\<close>

definition example_IsSmi :: "Address \<Rightarrow> bool" where
  "example_IsSmi a \<longleftrightarrow> a = 0 \<or> 11 < a"

definition example_map :: "Address \<Rightarrow> Address" where
  "example_map a = (if a = 3 then 2 else if a = 5 then 4 else if a = 6 then 7
                    else if a = 9 then 8 else if a = 11 then 10 else 1)"

definition example_instance_type :: "Address \<Rightarrow> InstanceType" where
  "example_instance_type m = (if m = 1 then 10 else if m = 2 then 20 else if m = 4 then 30
                              else if m = 7 then 40 else if m = 8 then 50
                              else if m = 10 then 70 else 0)"

definition example_InstanceTypeChecker :: "Name \<Rightarrow> InstanceType \<Rightarrow> bool" where
  "example_InstanceTypeChecker N t =
     (if N = Map then t = 10
      else if N = JSObject then t = 20 \<or> t = 30
      else if N = JSFunction then t = 30
      else if N = SharedFunctionInfo then t = 40
      else if N = String then t = 50
      else if N = NativeContext then t = 70
      else if N = Context then t = 70
      else if N = HeapObject then t \<noteq> 0
      else False)"

definition example_isolate :: Isolate where
  "example_isolate =
     \<lparr>Object_IsSmi = example_IsSmi,
      Object_Is = (\<lambda>N a. \<not> example_IsSmi a \<and>
                     example_InstanceTypeChecker N (example_instance_type (example_map a))),
      HeapObject_map = example_map,
      JSFunction_shared = (\<lambda>a. 6),
      Context_sloppy_arguments_map = (\<lambda>a. 2),
      Map_instance_type = example_instance_type,
      Map_is_undetectable = (\<lambda>m. False),
      Map_is_callable = (\<lambda>m. m = 4),
      String_length = (\<lambda>a. if a = 9 then 3 else 0),
      HeapNumber_value = (\<lambda>a. 0),
      ODDBALL_TYPE = 60,
      undefined_map = 1,
      null_map = 1,
      boolean_map = 1,
      the_hole_map = 1,
      uninitialized_map = 1,
      InstanceTypeChecker_Is = example_InstanceTypeChecker,
      canonical_scope = True,
      FLAG_strict_heap_broker = True,
      FLAG_concurrent_compiler_frontend = True\<rparr>"

text \<open>The broker in Building mode holding one record, of the small integer at address 0.\<close>

definition example_broker :: JSHeapBroker where
  "example_broker =
     \<lparr>mode = kSerializing, refs = [0 \<mapsto> 0],
      zone = [\<lparr>object = 0, is_smi = True, type = None, map_ptr = None, shared = None,
               sloppy_arguments_map = None\<rparr>]\<rparr>"

definition JSFunctionRef_shared ::
  "nat \<Rightarrow> Isolate \<Rightarrow> JSHeapBroker \<Rightarrow> ObjectRef \<Rightarrow> (ObjectRef \<times> JSHeapBroker) outcome" where
  "JSFunctionRef_shared n h b r =
     (if mode b = kDisabled then
        ObjectRef_ctor n h b (JSFunction_shared h (ObjectRef_object b r))
      else
        bind (ObjectData_As h b JSFunction (data_ptr r)) (\<lambda>p.
          case shared (data_at b p) of
            None \<Rightarrow> Undefined
          | Some s \<Rightarrow> Ok (\<lparr>data_ptr = s\<rparr>, b)))"

definition NativeContextRef_sloppy_arguments_map ::
  "nat \<Rightarrow> Isolate \<Rightarrow> JSHeapBroker \<Rightarrow> ObjectRef \<Rightarrow> (ObjectRef \<times> JSHeapBroker) outcome" where
  "NativeContextRef_sloppy_arguments_map n h b r =
     (if mode b = kDisabled then
        ObjectRef_ctor n h b (Context_sloppy_arguments_map h (ObjectRef_object b r))
      else
        bind (ObjectData_As h b NativeContext (data_ptr r)) (\<lambda>p.
          case sloppy_arguments_map (data_at b p) of
            None \<Rightarrow> Undefined
          | Some m \<Rightarrow> Ok (\<lparr>data_ptr = m\<rparr>, b)))"

text \<open>The example heap after the string at address 9 has changed its length to 7.\<close>

definition example_isolate2 :: Isolate where
  "example_isolate2 = example_isolate\<lparr>String_length := (\<lambda>a. if a = 9 then 7 else 0)\<rparr>"

text \<open>The broker in Building mode after the string at address 9 was serialized: the records
  of the string, of its map and of the meta map.\<close>

definition example_string_broker :: JSHeapBroker where
  "example_string_broker =
     \<lparr>mode = kSerializing,
      refs = [9 \<mapsto> 0, 8 \<mapsto> 1, 1 \<mapsto> 2],
      zone =
        [\<lparr>object = 9, is_smi = False,
          type = Some \<lparr>instance_type = 50, flags = {}, oddball_type = kNone\<rparr>,
          map_ptr = Some 1, shared = None, sloppy_arguments_map = None\<rparr>,
         \<lparr>object = 8, is_smi = False,
          type = Some \<lparr>instance_type = 10, flags = {}, oddball_type = kNone\<rparr>,
          map_ptr = Some 2, shared = None, sloppy_arguments_map = None\<rparr>,
         \<lparr>object = 1, is_smi = False,
          type = Some \<lparr>instance_type = 10, flags = {}, oddball_type = kNone\<rparr>,
          map_ptr = Some 2, shared = None, sloppy_arguments_map = None\<rparr>]\<rparr>"

text \<open>\<^verbatim>\<open>ObjectRef::IsSmi\<close>, \<^verbatim>\<open>ObjectRef::Is##Name\<close> and \<^verbatim>\<open>ObjectRef::oddball_type\<close>. In
  \<^verbatim>\<open>oddball_type\<close> the narrowing \<^verbatim>\<open>AsHeapObject()\<close> is the one of \<^verbatim>\<open>ObjectRef\<close>, whose
  only check is a \<^verbatim>\<open>DCHECK\<close>; it keeps the record pointer.\<close>

definition ObjectRef_IsSmi :: "JSHeapBroker \<Rightarrow> ObjectRef \<Rightarrow> bool" where
  "ObjectRef_IsSmi b r = is_smi (data_at b (data_ptr r))"

definition ObjectRef_Is :: "Isolate \<Rightarrow> JSHeapBroker \<Rightarrow> Name \<Rightarrow> ObjectRef \<Rightarrow> bool outcome" where
  "ObjectRef_Is h b N r = ObjectData_Is h b N (data_ptr r)"

definition ObjectRef_oddball_type :: "Isolate \<Rightarrow> JSHeapBroker \<Rightarrow> ObjectRef \<Rightarrow> OddballType outcome" where
  "ObjectRef_oddball_type h b r =
     (if ObjectRef_IsSmi b r then Ok kNone
      else bind (HeapObjectRef_type h b r) (\<lambda>t. Ok (oddball_type t)))"

text \<open>The broker in Building mode after the function at address 5 was serialized: the records
  of the function, of its map, of the meta map, of its shared function info and of the map of
  that.\<close>

definition example_function_broker :: JSHeapBroker where
  "example_function_broker =
     \<lparr>mode = kSerializing,
      refs = [5 \<mapsto> 0, 4 \<mapsto> 1, 1 \<mapsto> 2, 6 \<mapsto> 3, 7 \<mapsto> 4],
      zone =
        [\<lparr>object = 5, is_smi = False,
          type = Some \<lparr>instance_type = 30, flags = {kCallable}, oddball_type = kNone\<rparr>,
          map_ptr = Some 1, shared = Some 3, sloppy_arguments_map = None\<rparr>,
         \<lparr>object = 4, is_smi = False,
          type = Some \<lparr>instance_type = 10, flags = {}, oddball_type = kNone\<rparr>,
          map_ptr = Some 2, shared = None, sloppy_arguments_map = None\<rparr>,
         \<lparr>object = 1, is_smi = False,
          type = Some \<lparr>instance_type = 10, flags = {}, oddball_type = kNone\<rparr>,
          map_ptr = Some 2, shared = None, sloppy_arguments_map = None\<rparr>,
         \<lparr>object = 6, is_smi = False,
          type = Some \<lparr>instance_type = 40, flags = {}, oddball_type = kNone\<rparr>,
          map_ptr = Some 4, shared = None, sloppy_arguments_map = None\<rparr>,
         \<lparr>object = 7, is_smi = False,
          type = Some \<lparr>instance_type = 10, flags = {}, oddball_type = kNone\<rparr>,
          map_ptr = Some 2, shared = None, sloppy_arguments_map = None\<rparr>]\<rparr>"

text \<open>The broker in Building mode after the native context at address 11 was serialized: the
  records of the context, of its map, of the meta map and of its sloppy-arguments map.\<close>

definition example_context_broker :: JSHeapBroker where
  "example_context_broker =
     \<lparr>mode = kSerializing,
      refs = [11 \<mapsto> 0, 10 \<mapsto> 1, 1 \<mapsto> 2, 2 \<mapsto> 3],
      zone =
        [\<lparr>object = 11, is_smi = False,
          type = Some \<lparr>instance_type = 70, flags = {}, oddball_type = kNone\<rparr>,
          map_ptr = Some 1, shared = None, sloppy_arguments_map = Some 3\<rparr>,
         \<lparr>object = 10, is_smi = False,
          type = Some \<lparr>instance_type = 10, flags = {}, oddball_type = kNone\<rparr>,
          map_ptr = Some 2, shared = None, sloppy_arguments_map = None\<rparr>,
         \<lparr>object = 1, is_smi = False,
          type = Some \<lparr>instance_type = 10, flags = {}, oddball_type = kNone\<rparr>,
          map_ptr = Some 2, shared = None, sloppy_arguments_map = None\<rparr>,
         \<lparr>object = 2, is_smi = False,
          type = Some \<lparr>instance_type = 10, flags = {}, oddball_type = kNone\<rparr>,
          map_ptr = Some 2, shared = None, sloppy_arguments_map = None\<rparr>]\<rparr>"

text \<open>The entries the analysis visits, in the words of the specification. The elements of an
  object are walked when there are some, their storage does not use the copy-on-write map and
  the object has pointer (Smi or object) elements; the counted fields are the descriptors
  located in a field; the walked fields are the values of the counted fields that are not
  unboxed doubles; the nested objects are the walked entries that are objects themselves.\<close>

definition walked_elements :: "JSObject_rec \<Rightarrow> Address list" where
  "walked_elements obj =
     (if 0 < length (contents (elements obj)) \<and> \<not> map_is_fixed_cow_array_map (elements obj) \<and>
         HasSmiOrObjectElements obj
      then contents (elements obj) else [])"

definition counted_fields :: "JSObject_rec \<Rightarrow> Descriptor list" where
  "counted_fields obj = filter (\<lambda>p. location p = kField) (own_descriptors obj)"

definition walked_fields :: "JSObject_rec \<Rightarrow> Address list" where
  "walked_fields obj =
     map RawFastPropertyAt (filter (\<lambda>p. \<not> IsUnboxedDoubleField p) (counted_fields obj))"

definition nested_objects :: "LiteralHeap \<Rightarrow> Address \<Rightarrow> Address list" where
  "nested_objects H a =
     filter (Object_IsJSObject H)
       (walked_elements (JSObject_at H a) @ walked_fields (JSObject_at H a))"

text \<open>A chain of objects, each nested in the one before it.\<close>

fun nested_chain :: "LiteralHeap \<Rightarrow> Address list \<Rightarrow> bool" where
  "nested_chain H [] = False"
| "nested_chain H [a] = True"
| "nested_chain H (a # c # cs) \<longleftrightarrow> c \<in> set (nested_objects H a) \<and> nested_chain H (c # cs)"

text \<open>The eligibility of a graph without the count budget, and the number of entries the
  analysis counts in it, both down to a given depth: what the budgeted walk of the code is
  compared with.\<close>

definition elements_ok :: "LiteralHeap \<Rightarrow> JSObject_rec \<Rightarrow> bool" where
  "elements_ok H obj \<longleftrightarrow>
     (0 < length (contents (elements obj)) \<and> \<not> map_is_fixed_cow_array_map (elements obj) \<longrightarrow>
        HasSmiOrObjectElements obj \<or>
        (HasDoubleElements obj \<and> Size (elements obj) \<le> kMaxRegularHeapObjectSize H))"

fun walk_ok :: "LiteralHeap \<Rightarrow> nat \<Rightarrow> Address \<Rightarrow> bool" where
  "walk_ok H 0 a = False"
| "walk_ok H (Suc d) a \<longleftrightarrow>
     TryMigrateInstance (JSObject_at H a) \<and> elements_ok H (JSObject_at H a) \<and>
     HasFastProperties (JSObject_at H a) \<and> property_array_length (JSObject_at H a) = 0 \<and>
     (\<forall>c \<in> set (nested_objects H a). walk_ok H d c)"

fun total_count :: "LiteralHeap \<Rightarrow> nat \<Rightarrow> Address \<Rightarrow> int" where
  "total_count H 0 a = 0"
| "total_count H (Suc d) a =
     int (length (walked_elements (JSObject_at H a))) +
     int (length (counted_fields (JSObject_at H a))) +
     sum_list (map (total_count H d) (nested_objects H a))"

text \<open>A result of the budgeted walk started with the counter of \<open>w\<close>: it succeeds exactly
  when the graph is eligible and its count fits the counter, and then leaves the counter
  lowered by the count.\<close>

definition budgeted :: "bool \<times> LiteralWalk \<Rightarrow> LiteralWalk \<Rightarrow> bool \<Rightarrow> int \<Rightarrow> bool" where
  "budgeted r w ok cost \<longleftrightarrow>
     (fst r \<longleftrightarrow> ok \<and> cost \<le> max_properties w) \<and>
     (fst r \<longrightarrow> max_properties (snd r) = max_properties w - cost)"

definition elements_cost :: "LiteralHeap \<Rightarrow> nat \<Rightarrow> Address list \<Rightarrow> int" where
  "elements_cost H d vs =
     int (length vs) + sum_list (map (total_count H d) (filter (Object_IsJSObject H) vs))"

definition fields_values :: "Descriptor list \<Rightarrow> Address list" where
  "fields_values ps =
     map RawFastPropertyAt
       (filter (\<lambda>p. \<not> IsUnboxedDoubleField p) (filter (\<lambda>p. location p = kField) ps))"

definition fields_cost :: "LiteralHeap \<Rightarrow> nat \<Rightarrow> Descriptor list \<Rightarrow> int" where
  "fields_cost H d ps =
     int (length (filter (\<lambda>p. location p = kField) ps)) +
     sum_list (map (total_count H d) (filter (Object_IsJSObject H) (fields_values ps)))"

text \<open>Boilerplates for the examples. Objects 20, 21, 22, 23 are nested in one another through
  one in-object field each (23 has none); 30 has four in-object fields holding small integers,
  31 has five; the migration of 33 fails; 40 has ten elements in copy-on-write storage and no fields, 41 the same elements
  in ordinary storage. The allocation sites 50 to 55 have the boilerplates 20, 21, 30, 31, 40,
  41. The count budget is 4.\<close>

definition example_field :: "Address \<Rightarrow> Descriptor" where
  "example_field v = \<lparr>location = kField, IsUnboxedDoubleField = False, RawFastPropertyAt = v\<rparr>"

definition example_object :: "bool \<Rightarrow> Address list \<Rightarrow> Descriptor list \<Rightarrow> JSObject_rec" where
  "example_object cow es ps =
     \<lparr>TryMigrateInstance = True,
      elements = \<lparr>map_is_fixed_cow_array_map = cow, contents = es, Size = 16 + 8 * int (length es)\<rparr>,
      HasSmiOrObjectElements = True, HasDoubleElements = False,
      HasFastProperties = True, property_array_length = 0,
      own_descriptors = ps\<rparr>"

definition example_literal_heap :: LiteralHeap where
  "example_literal_heap =
     \<lparr>Object_IsJSObject = (\<lambda>a. 20 \<le> a \<and> a \<le> 41),
      JSObject_at = (\<lambda>a.
        if a = 20 then example_object False [] [example_field 21]
        else if a = 21 then example_object False [] [example_field 22]
        else if a = 22 then example_object False [] [example_field 23]
        else if a = 30 then example_object False [] (replicate 4 (example_field 0))
        else if a = 31 then example_object False [] (replicate 5 (example_field 0))
        else if a = 33 then (example_object False [] [])\<lparr>TryMigrateInstance := False\<rparr>
        else if a = 40 then example_object True (replicate 10 0) []
        else if a = 41 then example_object False (replicate 10 0) []
        else example_object False [] []),
      AllocationSite_boilerplate = (\<lambda>s.
        if s = 50 then 20 else if s = 51 then 21 else if s = 52 then 30
        else if s = 53 then 31 else if s = 54 then 40 else 41),
      kMaxRegularHeapObjectSize = 1000,
      kMaxInObjectProperties = 4\<rparr>"

text \<open>A broker in live-access mode holding the records of the allocation sites 50 to 55.\<close>

definition example_site_broker :: JSHeapBroker where
  "example_site_broker =
     \<lparr>mode = kDisabled,
      refs = [50 \<mapsto> 0, 51 \<mapsto> 1, 52 \<mapsto> 2, 53 \<mapsto> 3, 54 \<mapsto> 4, 55 \<mapsto> 5],
      zone = map (\<lambda>a. \<lparr>object = a, is_smi = False, type = None, map_ptr = None, shared = None,
                         sloppy_arguments_map = None\<rparr>) [50, 51, 52, 53, 54, 55]\<rparr>"

section \<open>Properties\<close>

subsection \<open>Decomposition of successful runs\<close>

lemma bind_eq_Ok: "bind m f = Ok y \<longleftrightarrow> (\<exists>x. m = Ok x \<and> f x = Ok y)"
  by (cases m) auto

lemma grows_refl: "grows b b" by (simp add: grows_def)

lemma grows_trans: "grows a b \<Longrightarrow> grows b c \<Longrightarrow> grows a c"
  by (auto simp: grows_def intro: map_le_trans)

lemma ObjectData_ctor_Ok:
  "ObjectData_ctor h b a smi = Ok (this, b') \<longleftrightarrow>
     canonical_scope h \<and> refs b a = None \<and> this = length (zone b) \<and>
     b' = b\<lparr>zone := zone b @ [\<lparr>object = a, is_smi = smi, type = None, map_ptr = None,
                   shared = None, sloppy_arguments_map = None\<rparr>], refs := (refs b)(a \<mapsto> length (zone b))\<rparr>"
  by (auto simp: ObjectData_ctor_def AddData_def Let_def)

lemma ObjectData_As_Ok:
  "ObjectData_As h b N p = Ok q \<longleftrightarrow>
     q = p \<and> mode b \<noteq> kDisabled \<and> \<not> is_smi (data_at b p) \<and>
     (\<exists>t. type (data_at b p) = Some t \<and> InstanceTypeChecker_Is h N (instance_type t))"
  by (auto simp: ObjectData_As_def ObjectData_Is_def bind_eq_Ok split: option.splits if_splits)

lemma HeapObjectData_body_Ok:
  "HeapObjectData_body h b this = Ok r \<longleftrightarrow>
     r = (this, b) \<and> map_ptr (data_at b this) \<noteq> None \<and> SerializingAllowed h b"
  by (auto simp: HeapObjectData_body_def split: option.splits)

lemma JSFunctionData_body_Ok:
  "JSFunctionData_body b this = Ok r \<longleftrightarrow> r = (this, b) \<and> shared (data_at b this) \<noteq> None"
  by (auto simp: JSFunctionData_body_def split: option.splits)

lemma HeapObjectData_ctor_Ok:
  "HeapObjectData_ctor goc h b a ty = Ok (this, b') \<longleftrightarrow>
     (\<exists>b1 d b3. ObjectData_ctor h b a False = Ok (this, b1) \<and>
        goc (init_type b1 this ty) (HeapObject_map h a) = Ok (d, b3) \<and>
        ObjectData_As h b3 Map d = Ok d \<and>
        b' = init_map b3 this (Some d) \<and>
        map_ptr (data_at b' this) \<noteq> None \<and> SerializingAllowed h b')"
  unfolding HeapObjectData_ctor_def
  by (auto simp: bind_eq_Ok Let_def HeapObjectData_body_Ok ObjectData_As_Ok)

lemma JSFunctionData_ctor_Ok:
  "JSFunctionData_ctor goc h b a ty = Ok (this, b') \<longleftrightarrow>
     (\<exists>b1 d b2. HeapObjectData_ctor goc h b a ty = Ok (this, b1) \<and>
        goc b1 (JSFunction_shared h a) = Ok (d, b2) \<and>
        ObjectData_As h b2 SharedFunctionInfo d = Ok d \<and>
        b' = init_shared b2 this (Some d) \<and>
        shared (data_at b' this) \<noteq> None)"
  unfolding JSFunctionData_ctor_def
  by (auto simp: bind_eq_Ok Let_def JSFunctionData_body_Ok ObjectData_As_Ok)

lemma bind_prod_eq_Ok:
  "bind m (\<lambda>(x, y). f x y) = Ok r \<longleftrightarrow> (\<exists>x y. m = Ok (x, y) \<and> f x y = Ok r)"
  by (cases m) auto

lemma if_Fatal_eq_Ok: "(if c then Fatal x else m) = Ok y \<longleftrightarrow> \<not> c \<and> m = Ok y"
  by simp

lemma case_option_Fatal_eq_Ok:
  "(case v of None \<Rightarrow> Fatal c | Some s \<Rightarrow> Ok r) = Ok r' \<longleftrightarrow> v \<noteq> None \<and> r = r'"
  by (cases v) auto

lemma NativeContextData_body_Ok:
  "NativeContextData_body goc h b this a = Ok (p, b') \<longleftrightarrow>
     (\<exists>d b3. p = this \<and> Object_Is h NativeContext a \<and> SerializingAllowed h b \<and>
        goc b (Context_sloppy_arguments_map h a) = Ok (d, b3) \<and>
        ObjectData_As h b3 Map d = Ok d \<and>
        b' = init_sloppy_arguments_map b3 this (Some d) \<and>
        sloppy_arguments_map (data_at b' this) \<noteq> None)"
  unfolding NativeContextData_body_def
  by (auto simp: bind_eq_Ok Let_def ObjectData_As_Ok split: option.splits)

lemma NativeContextData_ctor_Ok:
  "NativeContextData_ctor goc h b a ty = Ok (this, b') \<longleftrightarrow>
     (\<exists>b1. HeapObjectData_ctor goc h b a ty = Ok (this, b1) \<and>
        NativeContextData_body goc h (init_sloppy_arguments_map b1 this None) this a = Ok (this, b'))"
  unfolding NativeContextData_ctor_def
  by (auto simp: bind_eq_Ok NativeContextData_body_Ok)

lemma GetOrCreateData_Suc_Ok:
  "GetOrCreateData (Suc n) h b a = Ok (d, b') \<longleftrightarrow>
     SerializingAllowed h b \<and>
     (case GetData b a of
        Some p \<Rightarrow> d = p \<and> b' = b
      | None \<Rightarrow> ObjectData_Serialize (GetOrCreateData n h) h b a = Ok (d, b'))"
  by (auto simp: bind_eq_Ok split: option.splits)

declare GetOrCreateData.simps(2) [simp del]

lemma init_frame [simp]:
  "mode (init_type b p t) = mode b" "refs (init_type b p t) = refs b"
  "length (zone (init_type b p t)) = length (zone b)"
  "mode (init_map b p m) = mode b" "refs (init_map b p m) = refs b"
  "length (zone (init_map b p m)) = length (zone b)"
  "mode (init_shared b p m) = mode b" "refs (init_shared b p m) = refs b"
  "length (zone (init_shared b p m)) = length (zone b)"
  "mode (init_sloppy_arguments_map b p m) = mode b" "refs (init_sloppy_arguments_map b p m) = refs b"
  "length (zone (init_sloppy_arguments_map b p m)) = length (zone b)"
  by (simp_all add: init_type_def init_map_def init_shared_def init_sloppy_arguments_map_def)

lemma init_nth_other [simp]:
  "q \<noteq> p \<Longrightarrow> zone (init_type b p t) ! q = zone b ! q"
  "q \<noteq> p \<Longrightarrow> zone (init_map b p m) ! q = zone b ! q"
  "q \<noteq> p \<Longrightarrow> zone (init_shared b p m) ! q = zone b ! q"
  "q \<noteq> p \<Longrightarrow> zone (init_sloppy_arguments_map b p m) ! q = zone b ! q"
  by (simp_all add: init_type_def init_map_def init_shared_def init_sloppy_arguments_map_def)

lemma SerializingAllowed_init [simp]:
  "SerializingAllowed h (init_type b p t) = SerializingAllowed h b"
  "SerializingAllowed h (init_map b p m) = SerializingAllowed h b"
  "SerializingAllowed h (init_shared b p m) = SerializingAllowed h b"
  "SerializingAllowed h (init_sloppy_arguments_map b p m) = SerializingAllowed h b"
  by (simp_all add: SerializingAllowed_def)

lemma grows_init:
  assumes "grows b b'" "length (zone b) \<le> p"
  shows "grows b (init_type b' p t)" "grows b (init_map b' p m)"
    "grows b (init_shared b' p m)" "grows b (init_sloppy_arguments_map b' p m)"
  using assms by (auto simp: grows_def)

lemma grows_refs: "grows b b' \<Longrightarrow> refs b a = Some p \<Longrightarrow> refs b' a = Some p"
  by (auto simp: grows_def map_le_def dom_def)

lemma grows_length: "grows b b' \<Longrightarrow> length (zone b) \<le> length (zone b')"
  by (simp add: grows_def)

lemma grows_mode: "grows b b' \<Longrightarrow> mode b' = mode b"
  by (simp add: grows_def)

lemma grows_SerializingAllowed: "grows b b' \<Longrightarrow> SerializingAllowed h b' = SerializingAllowed h b"
  by (simp add: grows_def SerializingAllowed_def)

lemma ObjectData_ctor_post:
  assumes "ObjectData_ctor h b a smi = Ok (this, b')"
  shows "grows b b'" "refs b' a = Some this" "this = length (zone b)"
    "length (zone b') = Suc (length (zone b))" "refs b a = None"
  using assms by (auto simp: ObjectData_ctor_Ok grows_def map_le_def nth_append)

lemma HeapObjectData_ctor_post:
  assumes "goc_post goc" "HeapObjectData_ctor goc h b a ty = Ok (this, b')"
  shows "grows b b'" "refs b' a = Some this" "this = length (zone b)" "this < length (zone b')"
    "refs b a = None"
proof -
  from assms(2) obtain b1 d b3 where
    c: "ObjectData_ctor h b a False = Ok (this, b1)" and
    g: "goc (init_type b1 this ty) (HeapObject_map h a) = Ok (d, b3)" and
    b': "b' = init_map b3 this (Some d)"
    by (auto simp: HeapObjectData_ctor_Ok)
  note p = ObjectData_ctor_post[OF c]
  from g assms(1) have g': "grows (init_type b1 this ty) b3"
    by (auto simp: goc_post_def)
  have 1: "grows b (init_type b1 this ty)"
    using p by (intro grows_init) auto
  have 2: "grows b b3" using 1 g' by (rule grows_trans)
  show "grows b b'" unfolding b' using 2 p(3) by (intro grows_init) auto
  have "refs b3 a = Some this" using grows_refs[OF g'] p(2) by simp
  then show "refs b' a = Some this" by (simp add: b')
  show "this = length (zone b)" by (rule p(3))
  show "this < length (zone b')" using grows_length[OF g'] p(3,4) by (simp add: b')
  show "refs b a = None" by (rule p(5))
qed

lemma JSFunctionData_ctor_post:
  assumes "goc_post goc" "JSFunctionData_ctor goc h b a ty = Ok (this, b')"
  shows "grows b b'" "refs b' a = Some this" "this = length (zone b)" "this < length (zone b')"
    "refs b a = None"
proof -
  from assms(2) obtain b1 d b2 where
    c: "HeapObjectData_ctor goc h b a ty = Ok (this, b1)" and
    g: "goc b1 (JSFunction_shared h a) = Ok (d, b2)" and
    b': "b' = init_shared b2 this (Some d)"
    by (auto simp: JSFunctionData_ctor_Ok)
  note p = HeapObjectData_ctor_post[OF assms(1) c]
  from g assms(1) have g': "grows b1 b2" by (auto simp: goc_post_def)
  have 2: "grows b b2" using p(1) g' by (rule grows_trans)
  show "grows b b'" unfolding b' using 2 p(3) by (intro grows_init) auto
  have "refs b2 a = Some this" using grows_refs[OF g'] p(2) by simp
  then show "refs b' a = Some this" by (simp add: b')
  show "this = length (zone b)" by (rule p(3))
  show "this < length (zone b')" using grows_length[OF g'] p(4) by (simp add: b')
  show "refs b a = None" by (rule p(5))
qed

lemma NativeContextData_ctor_post:
  assumes "goc_post goc" "NativeContextData_ctor goc h b a ty = Ok (this, b')"
  shows "grows b b'" "refs b' a = Some this" "this = length (zone b)" "this < length (zone b')"
    "refs b a = None"
proof -
  from assms(2) obtain b1 d b3 where
    c: "HeapObjectData_ctor goc h b a ty = Ok (this, b1)" and
    g: "goc (init_sloppy_arguments_map b1 this None) (Context_sloppy_arguments_map h a) = Ok (d, b3)" and
    b': "b' = init_sloppy_arguments_map b3 this (Some d)"
    by (auto simp: NativeContextData_ctor_Ok NativeContextData_body_Ok)
  note p = HeapObjectData_ctor_post[OF assms(1) c]
  from g assms(1) have g': "grows (init_sloppy_arguments_map b1 this None) b3"
    by (auto simp: goc_post_def)
  have 1: "grows b (init_sloppy_arguments_map b1 this None)"
    using p by (intro grows_init) auto
  have 2: "grows b b3" using 1 g' by (rule grows_trans)
  show "grows b b'" unfolding b' using 2 p(3) by (intro grows_init) auto
  have "refs b3 a = Some this" using grows_refs[OF g'] p(2) by simp
  then show "refs b' a = Some this" by (simp add: b')
  show "this = length (zone b)" by (rule p(3))
  show "this < length (zone b')" using grows_length[OF g'] p(4) by (simp add: b')
  show "refs b a = None" by (rule p(5))
qed

lemma ObjectData_Serialize_Ok:
  "ObjectData_Serialize goc h b a = Ok (this, b') \<longleftrightarrow>
     SerializingAllowed h b \<and>
     (if Object_IsSmi h a then ObjectData_ctor h b a True = Ok (this, b')
      else if Object_Is h JSFunction a then
        JSFunctionData_ctor goc h b a (HeapObjectTypeFromMap h (HeapObject_map h a)) = Ok (this, b')
      else if Object_Is h NativeContext a then
        NativeContextData_ctor goc h b a (HeapObjectTypeFromMap h (HeapObject_map h a)) = Ok (this, b')
      else HeapObjectData_ctor goc h b a (HeapObjectTypeFromMap h (HeapObject_map h a)) = Ok (this, b'))"
  by (simp add: ObjectData_Serialize_def HeapObjectData_Serialize_def Let_def)

lemma ObjectData_Serialize_post:
  assumes "goc_post goc" "ObjectData_Serialize goc h b a = Ok (this, b')"
  shows "grows b b'" "refs b' a = Some this" "this = length (zone b)" "this < length (zone b')"
    "refs b a = None"
proof -
  let ?ty = "HeapObjectTypeFromMap h (HeapObject_map h a)"
  consider
    (smi) "ObjectData_ctor h b a True = Ok (this, b')"
  | (fn) "JSFunctionData_ctor goc h b a ?ty = Ok (this, b')"
  | (ctx) "NativeContextData_ctor goc h b a ?ty = Ok (this, b')"
  | (obj) "HeapObjectData_ctor goc h b a ?ty = Ok (this, b')"
    using assms(2) unfolding ObjectData_Serialize_Ok by (simp split: if_splits)
  then have "grows b b' \<and> refs b' a = Some this \<and> this = length (zone b) \<and>
             this < length (zone b') \<and> refs b a = None"
  proof cases
    case smi
    from ObjectData_ctor_post[OF smi] show ?thesis by simp
  next
    case fn
    from JSFunctionData_ctor_post[OF assms(1) fn] show ?thesis by simp
  next
    case ctx
    from NativeContextData_ctor_post[OF assms(1) ctx] show ?thesis by simp
  next
    case obj
    from HeapObjectData_ctor_post[OF assms(1) obj] show ?thesis by simp
  qed
  then show "grows b b'" "refs b' a = Some this" "this = length (zone b)"
    "this < length (zone b')" "refs b a = None"
    by simp_all
qed

lemma GetOrCreateData_post: "goc_post (GetOrCreateData n h)"
proof (induction n)
  case 0
  show ?case by (simp add: goc_post_def)
next
  case (Suc n)
  show ?case
    unfolding goc_post_def
  proof (intro allI impI)
    fix b a d b'
    assume ok: "GetOrCreateData (Suc n) h b a = Ok (d, b')"
    show "grows b b' \<and> refs b' a = Some d"
    proof (cases "GetData b a")
      case None
      with ok have "ObjectData_Serialize (GetOrCreateData n h) h b a = Ok (d, b')"
        by (simp add: GetOrCreateData_Suc_Ok)
      from ObjectData_Serialize_post(1,2)[OF Suc this] show ?thesis by simp
    next
      case (Some p)
      with ok show ?thesis
        by (simp add: GetOrCreateData_Suc_Ok GetData_def grows_refl)
    qed
  qed
qed

subsection \<open>Invariants of the identity cache\<close>

lemma nth_list_update_if:
  "xs[p := v] ! q = (if q = p \<and> p < length xs then v else xs ! q)"
proof (cases "p < length xs")
  case True
  then show ?thesis by (simp add: nth_list_update)
next
  case False
  then have "xs[p := v] = xs" by (intro list_update_beyond) simp
  then show ?thesis using False by simp
qed

lemma init_object [simp]:
  "object (zone (init_type b p t) ! q) = object (zone b ! q)"
  "object (zone (init_map b p m) ! q) = object (zone b ! q)"
  "object (zone (init_shared b p m) ! q) = object (zone b ! q)"
  "object (zone (init_sloppy_arguments_map b p m) ! q) = object (zone b ! q)"
  unfolding init_type_def init_map_def init_shared_def init_sloppy_arguments_map_def
  by (simp_all add: nth_list_update_if)

lemma init_is_smi [simp]:
  "is_smi (zone (init_type b p t) ! q) = is_smi (zone b ! q)"
  "is_smi (zone (init_map b p m) ! q) = is_smi (zone b ! q)"
  "is_smi (zone (init_shared b p m) ! q) = is_smi (zone b ! q)"
  "is_smi (zone (init_sloppy_arguments_map b p m) ! q) = is_smi (zone b ! q)"
  unfolding init_type_def init_map_def init_shared_def init_sloppy_arguments_map_def
  by (simp_all add: nth_list_update_if)

lemma init_type_other [simp]:
  "type (zone (init_map b p m) ! q) = type (zone b ! q)"
  "type (zone (init_shared b p m) ! q) = type (zone b ! q)"
  "type (zone (init_sloppy_arguments_map b p m) ! q) = type (zone b ! q)"
  unfolding init_map_def init_shared_def init_sloppy_arguments_map_def
  by (simp_all add: nth_list_update_if)

lemma init_type_same:
  "p < length (zone b) \<Longrightarrow> type (zone (init_type b p t) ! p) = Some t"
  by (simp add: init_type_def)

lemma init_map_same:
  "p < length (zone b) \<Longrightarrow> map_ptr (zone (init_map b p m) ! p) = m"
  by (simp add: init_map_def)

lemma init_shared_same:
  "p < length (zone b) \<Longrightarrow> shared (zone (init_shared b p m) ! p) = m"
  by (simp add: init_shared_def)

lemma init_sloppy_same:
  "p < length (zone b) \<Longrightarrow>
   sloppy_arguments_map (zone (init_sloppy_arguments_map b p m) ! p) = m"
  by (simp add: init_sloppy_arguments_map_def)

lemma init_fields_other [simp]:
  "map_ptr (zone (init_type b p t) ! q) = map_ptr (zone b ! q)"
  "map_ptr (zone (init_shared b p m) ! q) = map_ptr (zone b ! q)"
  "map_ptr (zone (init_sloppy_arguments_map b p m) ! q) = map_ptr (zone b ! q)"
  "shared (zone (init_type b p t) ! q) = shared (zone b ! q)"
  "shared (zone (init_map b p m) ! q) = shared (zone b ! q)"
  "shared (zone (init_sloppy_arguments_map b p m) ! q) = shared (zone b ! q)"
  unfolding init_type_def init_map_def init_shared_def init_sloppy_arguments_map_def
  by (simp_all add: nth_list_update_if)

lemma cache_inv_ObjectData_ctor:
  assumes "cache_inv b" "ObjectData_ctor h b a smi = Ok (this, b1)"
  shows "cache_inv b1"
proof -
  let ?r = "\<lparr>object = a, is_smi = smi, type = None, map_ptr = None,
                   shared = None, sloppy_arguments_map = None\<rparr>"
  from assms(2) have c: "refs b a = None" and
    z1: "zone b1 = zone b @ [?r]" and r1: "refs b1 = (refs b)(a \<mapsto> length (zone b))"
    by (simp_all add: ObjectData_ctor_Ok)
  from assms(1) have 1: "\<And>x p. refs b x = Some p \<Longrightarrow> p < length (zone b) \<and> object (zone b ! p) = x"
    and 2: "\<And>p. p < length (zone b) \<Longrightarrow> refs b (object (zone b ! p)) = Some p"
    by (auto simp: cache_inv_def)
  have 3: "\<And>p. p < length (zone b) \<Longrightarrow> object (zone b ! p) \<noteq> a"
    using 2 c by fastforce
  show ?thesis
    unfolding cache_inv_def
  proof (rule conjI; intro allI impI)
    fix x p
    assume rp: "refs b1 x = Some p"
    show "p < length (zone b1) \<and> object (zone b1 ! p) = x"
    proof (cases "x = a")
      case True
      with rp r1 have "p = length (zone b)" by simp
      then show ?thesis using True z1 by simp
    next
      case False
      with rp r1 have "refs b x = Some p" by simp
      from 1[OF this] show ?thesis using z1 by (simp add: nth_append)
    qed
  next
    fix p
    assume "p < length (zone b1)"
    then consider "p < length (zone b)" | "p = length (zone b)" using z1 by fastforce
    then show "refs b1 (object (zone b1 ! p)) = Some p"
    proof cases
      case 1
      then show ?thesis using 2[OF 1] 3[OF 1] z1 r1 by (simp add: nth_append)
    next
      case 2
      then show ?thesis using z1 r1 by simp
    qed
  qed
qed

lemma step_closed_cache_inv: "step_closed h cache_inv"
  unfolding step_closed_def
proof (intro conjI allI impI)
  fix b a this b1
  assume "cache_inv b \<and> Object_IsSmi h a \<and> ObjectData_ctor h b a True = Ok (this, b1)"
  then show "cache_inv b1" using cache_inv_ObjectData_ctor by blast
next
  fix b a this b1
  assume "cache_inv b \<and> \<not> Object_IsSmi h a \<and> ObjectData_ctor h b a False = Ok (this, b1)"
  then have "cache_inv b1" using cache_inv_ObjectData_ctor by blast
  then show "cache_inv (init_type b1 this (HeapObjectTypeFromMap h (HeapObject_map h a)))"
    by (simp add: cache_inv_def)
qed (simp_all add: cache_inv_def)

lemma snapshot_inv_init:
  assumes "snapshot_inv h b"
  shows "snapshot_inv h (init_map b this m)" "snapshot_inv h (init_shared b this m)"
    "snapshot_inv h (init_sloppy_arguments_map b this m)"
  using assms by (simp_all add: snapshot_inv_def)

lemma snapshot_inv_alloc:
  assumes inv: "snapshot_inv h b"
    and c: "ObjectData_ctor h b a smi = Ok (this, b1)"
    and r2: "refs b2 = refs b1"
    and l2: "length (zone b2) = length (zone b1)"
    and old: "\<And>p. p < length (zone b) \<Longrightarrow> zone b2 ! p = zone b1 ! p"
    and sm: "is_smi (zone b2 ! this) = Object_IsSmi h a"
    and ty: "\<not> Object_IsSmi h a \<Longrightarrow>
             type (zone b2 ! this) = Some (HeapObjectTypeFromMap h (HeapObject_map h a))"
  shows "snapshot_inv h b2"
  unfolding snapshot_inv_def
proof (intro allI impI)
  fix x p
  assume "refs b2 x = Some p"
  then have rp: "refs b1 x = Some p" by (simp add: r2)
  note tp = ObjectData_ctor_post(3)[OF c] and len = ObjectData_ctor_post(4)[OF c]
    and g = ObjectData_ctor_post(1)[OF c]
  from c have r: "refs b1 = (refs b)(a \<mapsto> this)"
    by (simp add: ObjectData_ctor_Ok)
  show "p < length (zone b2) \<and> is_smi (zone b2 ! p) = Object_IsSmi h x \<and>
        (\<not> Object_IsSmi h x \<longrightarrow>
           type (zone b2 ! p) = Some (HeapObjectTypeFromMap h (HeapObject_map h x)))"
  proof (cases "x = a")
    case True
    with rp r have "p = this" by simp
    then show ?thesis using True sm ty len tp l2 by simp
  next
    case False
    with rp r have rb: "refs b x = Some p" by simp
    with inv have pb: "p < length (zone b)" and
      sm': "is_smi (zone b ! p) = Object_IsSmi h x" and
      ty': "\<not> Object_IsSmi h x \<longrightarrow>
            type (zone b ! p) = Some (HeapObjectTypeFromMap h (HeapObject_map h x))"
      by (auto simp: snapshot_inv_def)
    from g pb have eq: "zone b1 ! p = zone b ! p" by (simp add: grows_def)
    show ?thesis using pb len l2 sm' ty' eq old[OF pb] by simp
  qed
qed

lemma step_closed_snapshot_inv: "step_closed h (snapshot_inv h)"
  unfolding step_closed_def
proof (intro conjI allI impI)
  fix b a this b1
  assume a: "snapshot_inv h b \<and> Object_IsSmi h a \<and> ObjectData_ctor h b a True = Ok (this, b1)"
  then have "is_smi (zone b1 ! this) = True" by (auto simp: ObjectData_ctor_Ok)
  with a show "snapshot_inv h b1"
    by (intro snapshot_inv_alloc[of h b a True this b1 b1]) simp_all
next
  fix b a this b1
  assume a: "snapshot_inv h b \<and> \<not> Object_IsSmi h a \<and> ObjectData_ctor h b a False = Ok (this, b1)"
  let ?ty = "HeapObjectTypeFromMap h (HeapObject_map h a)"
  from a have c: "ObjectData_ctor h b a False = Ok (this, b1)" by simp
  note tp = ObjectData_ctor_post(3)[OF c] and len = ObjectData_ctor_post(4)[OF c]
  have s: "is_smi (zone b1 ! this) = False" using a by (auto simp: ObjectData_ctor_Ok)
  show "snapshot_inv h (init_type b1 this ?ty)"
  proof (rule snapshot_inv_alloc[of h b a False this b1])
    show "snapshot_inv h b" using a by simp
    show "ObjectData_ctor h b a False = Ok (this, b1)" using a by simp
    show "\<And>p. p < length (zone b) \<Longrightarrow> zone (init_type b1 this ?ty) ! p = zone b1 ! p"
      using tp by simp
    show "is_smi (zone (init_type b1 this ?ty) ! this) = Object_IsSmi h a" using a s by simp
    show "type (zone (init_type b1 this ?ty) ! this) = Some ?ty"
      using tp len by (simp add: init_type_same)
  qed simp_all
qed (simp_all add: snapshot_inv_init)

subsection \<open>Preservation of invariants and success of serialization\<close>

lemma step_closedD:
  assumes "step_closed h P" "P b"
  shows "Object_IsSmi h a \<Longrightarrow> ObjectData_ctor h b a True = Ok (this, b1) \<Longrightarrow> P b1"
    "\<not> Object_IsSmi h a \<Longrightarrow> ObjectData_ctor h b a False = Ok (this, b1) \<Longrightarrow>
       P (init_type b1 this (HeapObjectTypeFromMap h (HeapObject_map h a)))"
    "P (init_map b p m)" "P (init_shared b p m)" "P (init_sloppy_arguments_map b p m)"
  using assms unfolding step_closed_def by blast+

lemma goc_presD: "goc_pres P goc \<Longrightarrow> P b \<Longrightarrow> goc b a = Ok (d, b') \<Longrightarrow> P b'"
  unfolding goc_pres_def by blast

lemma goc_postD:
  assumes "goc_post goc" "goc b a = Ok (d, b')"
  shows "grows b b'" "refs b' a = Some d"
  using assms unfolding goc_post_def by blast+

lemma HeapObjectData_ctor_pres:
  assumes sc: "step_closed h P" and gp: "goc_pres P goc" and P: "P b"
    and ns: "\<not> Object_IsSmi h a"
    and ok: "HeapObjectData_ctor goc h b a (HeapObjectTypeFromMap h (HeapObject_map h a)) = Ok (this, b')"
  shows "P b'"
proof -
  let ?ty = "HeapObjectTypeFromMap h (HeapObject_map h a)"
  from ok obtain b1 d b3 where
    c: "ObjectData_ctor h b a False = Ok (this, b1)" and
    g: "goc (init_type b1 this ?ty) (HeapObject_map h a) = Ok (d, b3)" and
    b': "b' = init_map b3 this (Some d)"
    by (auto simp: HeapObjectData_ctor_Ok)
  have "P (init_type b1 this ?ty)" by (rule step_closedD(2)[OF sc P ns c])
  then have "P b3" using g by (rule goc_presD[OF gp])
  then show ?thesis unfolding b' by (rule step_closedD(3)[OF sc])
qed

lemma JSFunctionData_ctor_pres:
  assumes sc: "step_closed h P" and gp: "goc_pres P goc" and P: "P b"
    and ns: "\<not> Object_IsSmi h a"
    and ok: "JSFunctionData_ctor goc h b a (HeapObjectTypeFromMap h (HeapObject_map h a)) = Ok (this, b')"
  shows "P b'"
proof -
  let ?ty = "HeapObjectTypeFromMap h (HeapObject_map h a)"
  from ok obtain b1 d b2 where
    c: "HeapObjectData_ctor goc h b a ?ty = Ok (this, b1)" and
    g: "goc b1 (JSFunction_shared h a) = Ok (d, b2)" and
    b': "b' = init_shared b2 this (Some d)"
    by (auto simp: JSFunctionData_ctor_Ok)
  have "P b1" by (rule HeapObjectData_ctor_pres[OF sc gp P ns c])
  then have "P b2" using g by (rule goc_presD[OF gp])
  then show ?thesis unfolding b' by (rule step_closedD(4)[OF sc])
qed

lemma NativeContextData_ctor_pres:
  assumes sc: "step_closed h P" and gp: "goc_pres P goc" and P: "P b"
    and ns: "\<not> Object_IsSmi h a"
    and ok: "NativeContextData_ctor goc h b a (HeapObjectTypeFromMap h (HeapObject_map h a)) = Ok (this, b')"
  shows "P b'"
proof -
  let ?ty = "HeapObjectTypeFromMap h (HeapObject_map h a)"
  from ok obtain b1 d b3 where
    c: "HeapObjectData_ctor goc h b a ?ty = Ok (this, b1)" and
    g: "goc (init_sloppy_arguments_map b1 this None) (Context_sloppy_arguments_map h a) = Ok (d, b3)" and
    b': "b' = init_sloppy_arguments_map b3 this (Some d)"
    by (auto simp: NativeContextData_ctor_Ok NativeContextData_body_Ok)
  have "P b1" by (rule HeapObjectData_ctor_pres[OF sc gp P ns c])
  then have "P (init_sloppy_arguments_map b1 this None)" by (rule step_closedD(5)[OF sc])
  then have "P b3" using g by (rule goc_presD[OF gp])
  then show ?thesis unfolding b' by (rule step_closedD(5)[OF sc])
qed

lemma ObjectData_Serialize_cases:
  assumes "ObjectData_Serialize goc h b a = Ok (this, b')"
  obtains
    (smi) "Object_IsSmi h a" "ObjectData_ctor h b a True = Ok (this, b')"
  | (fn) "\<not> Object_IsSmi h a" "Object_Is h JSFunction a"
      "JSFunctionData_ctor goc h b a (HeapObjectTypeFromMap h (HeapObject_map h a)) = Ok (this, b')"
  | (ctx) "\<not> Object_IsSmi h a" "\<not> Object_Is h JSFunction a" "Object_Is h NativeContext a"
      "NativeContextData_ctor goc h b a (HeapObjectTypeFromMap h (HeapObject_map h a)) = Ok (this, b')"
  | (obj) "\<not> Object_IsSmi h a" "\<not> Object_Is h JSFunction a" "\<not> Object_Is h NativeContext a"
      "HeapObjectData_ctor goc h b a (HeapObjectTypeFromMap h (HeapObject_map h a)) = Ok (this, b')"
  using assms unfolding ObjectData_Serialize_Ok by (auto split: if_splits)

lemma ObjectData_Serialize_pres:
  assumes sc: "step_closed h P" and gp: "goc_pres P goc" and P: "P b"
    and ok: "ObjectData_Serialize goc h b a = Ok (this, b')"
  shows "P b'"
  using ok
proof (cases rule: ObjectData_Serialize_cases)
  case smi
  then show ?thesis by (rule step_closedD(1)[OF sc P])
next
  case fn
  then show ?thesis using JSFunctionData_ctor_pres[OF sc gp P] by blast
next
  case ctx
  then show ?thesis using NativeContextData_ctor_pres[OF sc gp P] by blast
next
  case obj
  then show ?thesis using HeapObjectData_ctor_pres[OF sc gp P] by blast
qed

lemma GetOrCreateData_pres:
  assumes sc: "step_closed h P"
  shows "goc_pres P (GetOrCreateData n h)"
proof (induction n)
  case 0
  show ?case by (simp add: goc_pres_def)
next
  case (Suc n)
  show ?case
    unfolding goc_pres_def
  proof (intro allI impI, elim conjE)
    fix b a d b'
    assume P: "P b" and ok: "GetOrCreateData (Suc n) h b a = Ok (d, b')"
    show "P b'"
    proof (cases "GetData b a")
      case None
      with ok have "ObjectData_Serialize (GetOrCreateData n h) h b a = Ok (d, b')"
        by (simp add: GetOrCreateData_Suc_Ok)
      from ObjectData_Serialize_pres[OF sc Suc P this] show ?thesis .
    next
      case (Some p)
      with ok P show ?thesis by (simp add: GetOrCreateData_Suc_Ok)
    qed
  qed
qed

lemma GetOrCreateData_cached:
  assumes "SerializingAllowed h b" "refs b a = Some d"
  shows "GetOrCreateData (Suc n) h b a = Ok (d, b)"
  using assms by (simp add: GetOrCreateData_Suc_Ok GetData_def)

lemma GetOrCreateData_not_allowed:
  "\<not> SerializingAllowed h b \<Longrightarrow> GetOrCreateData (Suc n) h b a = Fatal CHECK_SerializingAllowed"
  by (simp add: GetOrCreateData.simps)

lemma SerializingAllowed_mode: "SerializingAllowed h b \<Longrightarrow> mode b \<noteq> kDisabled"
  by (auto simp: SerializingAllowed_def)

lemma instance_type_HeapObjectTypeFromMap [simp]:
  "instance_type (HeapObjectTypeFromMap h m) = Map_instance_type h m"
  by (simp add: HeapObjectTypeFromMap_def Let_def)

lemma ObjectData_As_cached:
  assumes inv: "snapshot_inv h b" and sa: "SerializingAllowed h b"
    and r: "refs b x = Some d" and ns: "\<not> Object_IsSmi h x"
    and tc: "InstanceTypeChecker_Is h N (Map_instance_type h (HeapObject_map h x))"
  shows "ObjectData_As h b N d = Ok d"
proof -
  from inv r ns have "is_smi (zone b ! d) = False"
    "type (zone b ! d) = Some (HeapObjectTypeFromMap h (HeapObject_map h x))"
    by (auto simp: snapshot_inv_def)
  then show ?thesis
    using tc SerializingAllowed_mode[OF sa] by (simp add: ObjectData_As_Ok data_at_def)
qed

lemma HeapObjectData_ctor_succeeds:
  assumes cs: "canonical_scope h" and sa: "SerializingAllowed h b" and inv: "snapshot_inv h b"
    and nc: "refs b a = None" and ns: "\<not> Object_IsSmi h a"
    and im: "is_Map_object h (HeapObject_map h a)"
    and gs: "\<And>b2. SerializingAllowed h b2 \<Longrightarrow> snapshot_inv h b2 \<Longrightarrow> refs b2 a \<noteq> None \<Longrightarrow>
               \<exists>d b3. GetOrCreateData n h b2 (HeapObject_map h a) = Ok (d, b3)"
  shows "\<exists>this b'. HeapObjectData_ctor (GetOrCreateData n h) h b a
           (HeapObjectTypeFromMap h (HeapObject_map h a)) = Ok (this, b')"
proof -
  let ?ty = "HeapObjectTypeFromMap h (HeapObject_map h a)"
  let ?p = "length (zone b)"
  obtain b1 where c: "ObjectData_ctor h b a False = Ok (?p, b1)"
    using cs nc by (simp add: ObjectData_ctor_Ok)
  note p = ObjectData_ctor_post[OF c]
  let ?b2 = "init_type b1 ?p ?ty"
  have inv2: "snapshot_inv h ?b2"
    by (rule step_closedD(2)[OF step_closed_snapshot_inv inv ns c])
  have sa2: "SerializingAllowed h ?b2"
    using sa grows_SerializingAllowed[OF p(1)] by simp
  have "refs ?b2 a \<noteq> None" using p(2) by simp
  from gs[OF sa2 inv2 this] obtain d b3 where
    g: "GetOrCreateData n h ?b2 (HeapObject_map h a) = Ok (d, b3)" by blast
  note gp = goc_postD[OF GetOrCreateData_post g]
  have inv3: "snapshot_inv h b3"
    by (rule goc_presD[OF GetOrCreateData_pres[OF step_closed_snapshot_inv] inv2 g])
  have sa3: "SerializingAllowed h b3"
    using sa2 grows_SerializingAllowed[OF gp(1)] by simp
  have as: "ObjectData_As h b3 Map d = Ok d"
    using im by (intro ObjectData_As_cached[OF inv3 sa3 gp(2)]) (simp_all add: is_Map_object_def)
  have lt: "?p < length (zone b3)"
    using grows_length[OF gp(1)] p(4) by simp
  let ?b' = "init_map b3 ?p (Some d)"
  have "map_ptr (data_at ?b' ?p) \<noteq> None"
    using lt by (simp add: data_at_def init_map_same)
  moreover have "SerializingAllowed h ?b'" using sa3 by simp
  ultimately have "HeapObjectData_ctor (GetOrCreateData n h) h b a ?ty = Ok (?p, ?b')"
    unfolding HeapObjectData_ctor_Ok using c g as by blast
  then show ?thesis by blast
qed

lemma JSFunctionData_ctor_succeeds:
  assumes cs: "canonical_scope h" and sa: "SerializingAllowed h b" and inv: "snapshot_inv h b"
    and nc: "refs b a = None" and ns: "\<not> Object_IsSmi h a"
    and im: "is_Map_object h (HeapObject_map h a)"
    and gs: "\<And>b2. SerializingAllowed h b2 \<Longrightarrow> snapshot_inv h b2 \<Longrightarrow> refs b2 a \<noteq> None \<Longrightarrow>
               \<exists>d b3. GetOrCreateData n h b2 (HeapObject_map h a) = Ok (d, b3)"
    and sns: "\<not> Object_IsSmi h (JSFunction_shared h a)"
    and stc: "InstanceTypeChecker_Is h SharedFunctionInfo
                (Map_instance_type h (HeapObject_map h (JSFunction_shared h a)))"
    and gs2: "\<And>b2. SerializingAllowed h b2 \<Longrightarrow> snapshot_inv h b2 \<Longrightarrow>
               \<exists>d b3. GetOrCreateData n h b2 (JSFunction_shared h a) = Ok (d, b3)"
  shows "\<exists>this b'. JSFunctionData_ctor (GetOrCreateData n h) h b a
           (HeapObjectTypeFromMap h (HeapObject_map h a)) = Ok (this, b')"
proof -
  let ?ty = "HeapObjectTypeFromMap h (HeapObject_map h a)"
  let ?goc = "GetOrCreateData n h"
  from HeapObjectData_ctor_succeeds[OF cs sa inv nc ns im gs] obtain this b1 where
    c: "HeapObjectData_ctor ?goc h b a ?ty = Ok (this, b1)" by blast
  note p = HeapObjectData_ctor_post[OF GetOrCreateData_post c]
  have inv1: "snapshot_inv h b1"
    by (rule HeapObjectData_ctor_pres[OF step_closed_snapshot_inv
          GetOrCreateData_pres[OF step_closed_snapshot_inv] inv ns c])
  have sa1: "SerializingAllowed h b1" using sa grows_SerializingAllowed[OF p(1)] by simp
  from gs2[OF sa1 inv1] obtain d b2 where
    g: "?goc b1 (JSFunction_shared h a) = Ok (d, b2)" by blast
  note gp = goc_postD[OF GetOrCreateData_post g]
  have inv2: "snapshot_inv h b2"
    by (rule goc_presD[OF GetOrCreateData_pres[OF step_closed_snapshot_inv] inv1 g])
  have sa2: "SerializingAllowed h b2" using sa1 grows_SerializingAllowed[OF gp(1)] by simp
  have as: "ObjectData_As h b2 SharedFunctionInfo d = Ok d"
    by (rule ObjectData_As_cached[OF inv2 sa2 gp(2) sns stc])
  have lt: "this < length (zone b2)" using grows_length[OF gp(1)] p(4) by simp
  let ?b' = "init_shared b2 this (Some d)"
  have "shared (data_at ?b' this) \<noteq> None"
    using lt by (simp add: data_at_def init_shared_same)
  then have "JSFunctionData_ctor ?goc h b a ?ty = Ok (this, ?b')"
    unfolding JSFunctionData_ctor_Ok using c g as by blast
  then show ?thesis by blast
qed

lemma NativeContextData_ctor_succeeds:
  assumes cs: "canonical_scope h" and sa: "SerializingAllowed h b" and inv: "snapshot_inv h b"
    and nc: "refs b a = None" and ns: "\<not> Object_IsSmi h a"
    and im: "is_Map_object h (HeapObject_map h a)"
    and gs: "\<And>b2. SerializingAllowed h b2 \<Longrightarrow> snapshot_inv h b2 \<Longrightarrow> refs b2 a \<noteq> None \<Longrightarrow>
               \<exists>d b3. GetOrCreateData n h b2 (HeapObject_map h a) = Ok (d, b3)"
    and ctx: "Object_Is h NativeContext a"
    and sm: "is_Map_object h (Context_sloppy_arguments_map h a)"
    and gs2: "\<And>b2. SerializingAllowed h b2 \<Longrightarrow> snapshot_inv h b2 \<Longrightarrow>
               \<exists>d b3. GetOrCreateData n h b2 (Context_sloppy_arguments_map h a) = Ok (d, b3)"
  shows "\<exists>this b'. NativeContextData_ctor (GetOrCreateData n h) h b a
           (HeapObjectTypeFromMap h (HeapObject_map h a)) = Ok (this, b')"
proof -
  let ?ty = "HeapObjectTypeFromMap h (HeapObject_map h a)"
  let ?goc = "GetOrCreateData n h"
  from HeapObjectData_ctor_succeeds[OF cs sa inv nc ns im gs] obtain this b1 where
    c: "HeapObjectData_ctor ?goc h b a ?ty = Ok (this, b1)" by blast
  note p = HeapObjectData_ctor_post[OF GetOrCreateData_post c]
  have inv1: "snapshot_inv h b1"
    by (rule HeapObjectData_ctor_pres[OF step_closed_snapshot_inv
          GetOrCreateData_pres[OF step_closed_snapshot_inv] inv ns c])
  have sa1: "SerializingAllowed h b1" using sa grows_SerializingAllowed[OF p(1)] by simp
  let ?b2 = "init_sloppy_arguments_map b1 this None"
  have inv2: "snapshot_inv h ?b2" using inv1 by (rule snapshot_inv_init)
  have sa2: "SerializingAllowed h ?b2" using sa1 by simp
  from gs2[OF sa2 inv2] obtain d b3 where
    g: "?goc ?b2 (Context_sloppy_arguments_map h a) = Ok (d, b3)" by blast
  note gp = goc_postD[OF GetOrCreateData_post g]
  have inv3: "snapshot_inv h b3"
    by (rule goc_presD[OF GetOrCreateData_pres[OF step_closed_snapshot_inv] inv2 g])
  have sa3: "SerializingAllowed h b3" using sa2 grows_SerializingAllowed[OF gp(1)] by simp
  have as: "ObjectData_As h b3 Map d = Ok d"
    using sm by (intro ObjectData_As_cached[OF inv3 sa3 gp(2)]) (simp_all add: is_Map_object_def)
  have lt: "this < length (zone b3)" using grows_length[OF gp(1)] p(4) by simp
  let ?b' = "init_sloppy_arguments_map b3 this (Some d)"
  have "sloppy_arguments_map (data_at ?b' this) \<noteq> None"
    using lt by (simp add: data_at_def init_sloppy_same)
  then have "NativeContextData_body ?goc h ?b2 this a = Ok (this, ?b')"
    unfolding NativeContextData_body_Ok using ctx sa2 g as by blast
  then have "NativeContextData_ctor ?goc h b a ?ty = Ok (this, ?b')"
    unfolding NativeContextData_ctor_Ok using c by blast
  then show ?thesis by blast
qed

lemma succeeds_mono: "succeeds k h a \<Longrightarrow> k \<le> k' \<Longrightarrow> succeeds k' h a"
  by (auto simp: succeeds_def)

lemma succeedsD:
  "succeeds k h a \<Longrightarrow> k \<le> n \<Longrightarrow> SerializingAllowed h b \<Longrightarrow> snapshot_inv h b \<Longrightarrow>
   \<exists>d b'. GetOrCreateData n h b a = Ok (d, b')"
  by (auto simp: succeeds_def)

lemma GetOrCreateData_Suc_succeeds:
  assumes sa: "SerializingAllowed h b"
    and s: "refs b a = None \<Longrightarrow> \<exists>d b'. ObjectData_Serialize (GetOrCreateData n h) h b a = Ok (d, b')"
  shows "\<exists>d b'. GetOrCreateData (Suc n) h b a = Ok (d, b')"
proof (cases "refs b a")
  case None
  from s[OF None] None sa show ?thesis
    by (simp add: GetOrCreateData_Suc_Ok GetData_def)
next
  case (Some p)
  with sa show ?thesis by (simp add: GetOrCreateData_Suc_Ok GetData_def)
qed

lemma succeeds_smi:
  assumes "canonical_scope h" "Object_IsSmi h a"
  shows "succeeds 1 h a"
  unfolding succeeds_def
proof (intro allI impI, elim conjE)
  fix n :: nat and b
  assume n: "1 \<le> n" and sa: "SerializingAllowed h b"
  then obtain n' where n': "n = Suc n'" by (cases n) auto
  show "\<exists>d b'. GetOrCreateData n h b a = Ok (d, b')"
    unfolding n'
  proof (rule GetOrCreateData_Suc_succeeds[OF sa])
    assume "refs b a = None"
    then show "\<exists>d b'. ObjectData_Serialize (GetOrCreateData n' h) h b a = Ok (d, b')"
      using assms sa by (simp add: ObjectData_Serialize_Ok ObjectData_ctor_Ok)
  qed
qed

lemma map_succeeds_gs:
  assumes "HeapObject_map h a = a \<or> succeeds k h (HeapObject_map h a)" "1 \<le> k" "k \<le> n"
    and "SerializingAllowed h b2" "snapshot_inv h b2" "refs b2 a \<noteq> None"
  shows "\<exists>d b3. GetOrCreateData n h b2 (HeapObject_map h a) = Ok (d, b3)"
proof -
  from assms(2,3) obtain n' where n': "n = Suc n'" by (cases n) auto
  from assms(1) show ?thesis
  proof
    assume eq: "HeapObject_map h a = a"
    from assms(6) obtain d where "refs b2 a = Some d" by blast
    from GetOrCreateData_cached[OF assms(4) this] show ?thesis unfolding n' eq by blast
  next
    assume "succeeds k h (HeapObject_map h a)"
    from succeedsD[OF this assms(3,4,5)] show ?thesis .
  qed
qed

lemma succeeds_plain:
  assumes cs: "canonical_scope h" and ns: "\<not> Object_IsSmi h a"
    and nf: "\<not> Object_Is h JSFunction a" and nx: "\<not> Object_Is h NativeContext a"
    and im: "is_Map_object h (HeapObject_map h a)"
    and ms: "HeapObject_map h a = a \<or> succeeds k h (HeapObject_map h a)" and k: "1 \<le> k"
  shows "succeeds (Suc k) h a"
  unfolding succeeds_def
proof (intro allI impI, elim conjE)
  fix n :: nat and b
  assume n: "Suc k \<le> n" and sa: "SerializingAllowed h b" and inv: "snapshot_inv h b"
  then obtain n' where n': "n = Suc n'" and kn: "k \<le> n'" by (cases n) auto
  show "\<exists>d b'. GetOrCreateData n h b a = Ok (d, b')"
    unfolding n'
  proof (rule GetOrCreateData_Suc_succeeds[OF sa])
    assume nc: "refs b a = None"
    have "\<exists>this b'. HeapObjectData_ctor (GetOrCreateData n' h) h b a
           (HeapObjectTypeFromMap h (HeapObject_map h a)) = Ok (this, b')"
      by (rule HeapObjectData_ctor_succeeds[OF cs sa inv nc ns im map_succeeds_gs[OF ms k kn]])
    then show "\<exists>d b'. ObjectData_Serialize (GetOrCreateData n' h) h b a = Ok (d, b')"
      using ns nf nx sa by (simp add: ObjectData_Serialize_Ok)
  qed
qed

lemma succeeds_plain_wf:
  assumes wf: "wf_heap h" and ns: "\<not> Object_IsSmi h a"
    and nf: "\<not> Object_Is h JSFunction a" and nx: "\<not> Object_Is h NativeContext a"
  shows "succeeds 4 h a"
proof -
  let ?m = "HeapObject_map h a"
  let ?mm = "HeapObject_map h ?m"
  from wf have cs: "canonical_scope h" by (simp add: wf_heap_def)
  from wf ns have im: "is_Map_object h ?m" and fx: "HeapObject_map h ?mm = ?mm"
    by (auto simp: wf_heap_def)
  from im have nsm: "\<not> Object_IsSmi h ?m" by (simp add: is_Map_object_def)
  with wf have imm: "is_Map_object h ?mm" by (auto simp: wf_heap_def)
  from imm fx have immm: "is_Map_object h (HeapObject_map h ?mm)" by simp
  have 2: "succeeds (Suc (Suc 0)) h ?mm"
    using succeeds_plain[of h ?mm "Suc 0"] cs imm immm fx by (simp add: is_Map_object_def)
  have 3: "succeeds (Suc (Suc (Suc 0))) h ?m"
    using succeeds_plain[of h ?m "Suc (Suc 0)"] cs im imm 2 by (simp add: is_Map_object_def)
  have "succeeds (Suc (Suc (Suc (Suc 0)))) h a"
    using succeeds_plain[of h a "Suc (Suc (Suc 0))"] cs ns nf nx im 3 by simp
  then show ?thesis by (simp add: eval_nat_numeral)
qed

lemma succeeds_wf:
  assumes wf: "wf_heap h"
  shows "succeeds 5 h a"
proof -
  from wf have cs: "canonical_scope h" by (simp add: wf_heap_def)
  let ?m = "HeapObject_map h a"
  have plain: "\<And>x n b2. is_Map_object h x \<or> (\<not> Object_IsSmi h x \<and> \<not> Object_Is h JSFunction x \<and>
        \<not> Object_Is h NativeContext x) \<Longrightarrow> 4 \<le> n \<Longrightarrow>
        SerializingAllowed h b2 \<Longrightarrow> snapshot_inv h b2 \<Longrightarrow>
        \<exists>d b3. GetOrCreateData n h b2 x = Ok (d, b3)"
    using succeedsD[OF succeeds_plain_wf[OF wf]] by (auto simp: is_Map_object_def)
  show ?thesis
  proof (cases "Object_IsSmi h a")
    case True
    from succeeds_smi[OF cs True] show ?thesis by (rule succeeds_mono) simp
  next
    case ns: False
    with wf have im: "is_Map_object h ?m" by (auto simp: wf_heap_def)
    show ?thesis
    proof (cases "Object_Is h JSFunction a")
      case fn: True
      with wf ns have sns: "\<not> Object_IsSmi h (JSFunction_shared h a)"
        and snf: "\<not> Object_Is h JSFunction (JSFunction_shared h a)"
        and snx: "\<not> Object_Is h NativeContext (JSFunction_shared h a)"
        and stc: "InstanceTypeChecker_Is h SharedFunctionInfo
                (Map_instance_type h (HeapObject_map h (JSFunction_shared h a)))"
        by (auto simp: wf_heap_def)
      show ?thesis
        unfolding succeeds_def
      proof (intro allI impI, elim conjE)
        fix n :: nat and b
        assume n: "5 \<le> n" and sa: "SerializingAllowed h b" and inv: "snapshot_inv h b"
        then obtain n' where n': "n = Suc n'" and kn: "4 \<le> n'" by (cases n) auto
        show "\<exists>d b'. GetOrCreateData n h b a = Ok (d, b')"
          unfolding n'
        proof (rule GetOrCreateData_Suc_succeeds[OF sa])
          assume nc: "refs b a = None"
          have "\<exists>this b'. JSFunctionData_ctor (GetOrCreateData n' h) h b a
             (HeapObjectTypeFromMap h ?m) = Ok (this, b')"
          proof (rule JSFunctionData_ctor_succeeds[OF cs sa inv nc ns im _ sns stc])
            show "\<And>b2. SerializingAllowed h b2 \<Longrightarrow> snapshot_inv h b2 \<Longrightarrow> refs b2 a \<noteq> None \<Longrightarrow>
               \<exists>d b3. GetOrCreateData n' h b2 ?m = Ok (d, b3)"
              using plain[of ?m n'] im kn by blast
            show "\<And>b2. SerializingAllowed h b2 \<Longrightarrow> snapshot_inv h b2 \<Longrightarrow>
               \<exists>d b3. GetOrCreateData n' h b2 (JSFunction_shared h a) = Ok (d, b3)"
              using plain[of "JSFunction_shared h a" n'] sns snf snx kn by blast
          qed
          then show "\<exists>d b'. ObjectData_Serialize (GetOrCreateData n' h) h b a = Ok (d, b')"
            using ns fn sa by (simp add: ObjectData_Serialize_Ok)
        qed
      qed
    next
      case nf: False
      show ?thesis
      proof (cases "Object_Is h NativeContext a")
        case ctx: True
        with wf ns nf have sm: "is_Map_object h (Context_sloppy_arguments_map h a)"
          by (auto simp: wf_heap_def)
        show ?thesis
          unfolding succeeds_def
        proof (intro allI impI, elim conjE)
          fix n :: nat and b
          assume n: "5 \<le> n" and sa: "SerializingAllowed h b" and inv: "snapshot_inv h b"
          then obtain n' where n': "n = Suc n'" and kn: "4 \<le> n'" by (cases n) auto
          show "\<exists>d b'. GetOrCreateData n h b a = Ok (d, b')"
            unfolding n'
          proof (rule GetOrCreateData_Suc_succeeds[OF sa])
            assume nc: "refs b a = None"
            have "\<exists>this b'. NativeContextData_ctor (GetOrCreateData n' h) h b a
               (HeapObjectTypeFromMap h ?m) = Ok (this, b')"
            proof (rule NativeContextData_ctor_succeeds[OF cs sa inv nc ns im _ ctx sm])
              show "\<And>b2. SerializingAllowed h b2 \<Longrightarrow> snapshot_inv h b2 \<Longrightarrow> refs b2 a \<noteq> None \<Longrightarrow>
                 \<exists>d b3. GetOrCreateData n' h b2 ?m = Ok (d, b3)"
                using plain[of ?m n'] im kn by blast
              show "\<And>b2. SerializingAllowed h b2 \<Longrightarrow> snapshot_inv h b2 \<Longrightarrow>
                 \<exists>d b3. GetOrCreateData n' h b2 (Context_sloppy_arguments_map h a) = Ok (d, b3)"
                using plain[of "Context_sloppy_arguments_map h a" n'] sm kn by blast
            qed
            then show "\<exists>d b'. ObjectData_Serialize (GetOrCreateData n' h) h b a = Ok (d, b')"
              using ns nf ctx sa by (simp add: ObjectData_Serialize_Ok)
          qed
        qed
      next
        case nx: False
        from succeeds_plain_wf[OF wf ns nf nx] show ?thesis by (rule succeeds_mono) simp
      qed
    qed
  qed
qed

subsection \<open>The claims about the identity cache\<close>

lemma wf_heap_example: "wf_heap example_isolate"
  unfolding wf_heap_def is_Map_object_def
  by (simp add: example_isolate_def example_IsSmi_def example_map_def example_instance_type_def
        example_InstanceTypeChecker_def)

lemma snapshot_inv_ctor: "snapshot_inv h (JSHeapBroker_ctor h)"
  by (simp add: snapshot_inv_def JSHeapBroker_ctor_def)

lemma cache_inv_ctor: "cache_inv (JSHeapBroker_ctor h)"
  by (simp add: cache_inv_def JSHeapBroker_ctor_def)

lemmas example_defs = example_isolate_def example_IsSmi_def example_map_def
  example_instance_type_def example_InstanceTypeChecker_def

lemmas broker_defs = JSHeapBroker_ctor_def SerializingAllowed_def GetData_def AddData_def
  ObjectData_ctor_def ObjectData_Serialize_def HeapObjectData_Serialize_def HeapObjectData_ctor_def
  JSFunctionData_ctor_def NativeContextData_ctor_def NativeContextData_body_def
  HeapObjectData_body_def JSFunctionData_body_def ObjectData_As_def ObjectData_Is_def data_at_def
  init_type_def init_map_def init_shared_def init_sloppy_arguments_map_def HeapObjectTypeFromMap_def
  GetOrCreateData.simps(2)

lemma GetOrCreateData_Ok_fuel:
  assumes "GetOrCreateData n h b a = Ok (d, b')"
  obtains n' where "n = Suc n'" "SerializingAllowed h b"
  using assms by (cases n) (auto simp: GetOrCreateData_Suc_Ok)

lemma GetOrCreateData_fresh:
  assumes "GetOrCreateData n h b a = Ok (d, b')" "GetData b a = None"
  shows "d = length (zone b)" "d < length (zone b')"
proof -
  from assms(1) obtain n' where n': "n = Suc n'" by (rule GetOrCreateData_Ok_fuel)
  from assms have "ObjectData_Serialize (GetOrCreateData n' h) h b a = Ok (d, b')"
    by (simp add: n' GetOrCreateData_Suc_Ok)
  from ObjectData_Serialize_post(3,4)[OF GetOrCreateData_post this]
  show "d = length (zone b)" "d < length (zone b')" by simp_all
qed

text \<open>
  C1 (identity uniqueness, idempotence of creation). When a call of
  \<open>GetOrCreateData\<close> for an identity returns a record, the identity is cached under
  that record; if it was not cached before, the record is the one freshly
  allocated in the zone; and every later call for the same identity, on the
  broker as left by the first call or grown by any further insertions, returns
  the same record and leaves the broker unchanged.
\<close>

theorem GetOrCreateData_identity_unique:
  assumes "GetOrCreateData n h b a = Ok (d, b')"
  shows "GetData b' a = Some d \<and>
         (GetData b a = None \<longrightarrow> d = length (zone b) \<and> d < length (zone b')) \<and>
         (\<forall>m. GetOrCreateData (Suc m) h b' a = Ok (d, b')) \<and>
         (\<forall>m b2. grows b' b2 \<longrightarrow> GetOrCreateData (Suc m) h b2 a = Ok (d, b2))"
proof -
  from assms obtain n' where sa: "SerializingAllowed h b" by (rule GetOrCreateData_Ok_fuel)
  note p = goc_postD[OF GetOrCreateData_post assms]
  have sa': "SerializingAllowed h b'" using sa grows_SerializingAllowed[OF p(1)] by simp
  have later: "GetOrCreateData (Suc m) h b2 a = Ok (d, b2)" if g: "grows b' b2" for m b2
  proof -
    have "SerializingAllowed h b2" using sa' grows_SerializingAllowed[OF g] by simp
    moreover have "refs b2 a = Some d" using grows_refs[OF g p(2)] .
    ultimately show ?thesis by (rule GetOrCreateData_cached)
  qed
  have "GetData b' a = Some d" using p(2) by (simp add: GetData_def)
  moreover have "GetData b a = None \<longrightarrow> d = length (zone b) \<and> d < length (zone b')"
    using GetOrCreateData_fresh[OF assms] by simp
  moreover have "\<forall>m. GetOrCreateData (Suc m) h b' a = Ok (d, b')"
    using later[OF grows_refl] by simp
  moreover have "\<forall>m b2. grows b' b2 \<longrightarrow> GetOrCreateData (Suc m) h b2 a = Ok (d, b2)"
    using later by simp
  ultimately show ?thesis by blast
qed

theorem GetOrCreateData_identity_unique_witness:
  "\<exists>b'. GetOrCreateData 4 example_isolate (JSHeapBroker_ctor example_isolate) 3 = Ok (0, b') \<and>
        GetData b' 3 = Some 0 \<and>
        GetOrCreateData 1 example_isolate b' 3 = Ok (0, b')"
proof -
  let ?r = "GetOrCreateData 4 example_isolate (JSHeapBroker_ctor example_isolate) 3"
  have "case ?r of Ok (d, b') \<Rightarrow> d = 0 | _ \<Rightarrow> False"
    by (simp add: eval_nat_numeral example_defs broker_defs Let_def)
  then obtain b' where 1: "?r = Ok (0, b')"
    by (cases ?r) auto
  from GetOrCreateData_identity_unique[OF 1] 1 show ?thesis by auto
qed

text \<open>
  C2 (mode gating of record creation). In Sealed mode with the strict flag set,
  \<open>GetOrCreateData\<close> fails at its first check, whatever the identity. In Building
  mode, on a well-formed live heap and a broker whose cached records agree with
  it, the call returns a record with any fuel from 5 on, and a lookup of the
  identity afterwards returns that record.
\<close>

theorem GetOrCreateData_mode_gating:
  "(mode b = kSerialized \<and> FLAG_strict_heap_broker h \<longrightarrow>
      GetOrCreateData (Suc n) h b a = Fatal CHECK_SerializingAllowed) \<and>
   (mode b = kSerializing \<and> wf_heap h \<and> snapshot_inv h b \<and> 5 \<le> m \<longrightarrow>
      (\<exists>d b'. GetOrCreateData m h b a = Ok (d, b') \<and> GetData b' a = Some d \<and>
               (GetData b a = None \<longrightarrow> d = length (zone b)) \<and> snapshot_inv h b'))"
proof (intro conjI impI)
  assume "mode b = kSerialized \<and> FLAG_strict_heap_broker h"
  then have "\<not> SerializingAllowed h b" by (simp add: SerializingAllowed_def)
  then show "GetOrCreateData (Suc n) h b a = Fatal CHECK_SerializingAllowed"
    by (rule GetOrCreateData_not_allowed)
next
  assume a: "mode b = kSerializing \<and> wf_heap h \<and> snapshot_inv h b \<and> 5 \<le> m"
  then have sa: "SerializingAllowed h b" by (simp add: SerializingAllowed_def)
  from a have wf: "wf_heap h" and inv: "snapshot_inv h b" and m: "5 \<le> m" by simp_all
  from succeedsD[OF succeeds_wf[OF wf] m sa inv] obtain d b' where
    ok: "GetOrCreateData m h b a = Ok (d, b')" by blast
  have f1: "GetData b' a = Some d"
    using goc_postD(2)[OF GetOrCreateData_post ok] by (simp add: GetData_def)
  have f2: "GetData b a = None \<longrightarrow> d = length (zone b)"
    using GetOrCreateData_fresh(1)[OF ok] by simp
  have f3: "snapshot_inv h b'"
    by (rule goc_presD[OF GetOrCreateData_pres[OF step_closed_snapshot_inv] inv ok])
  show "\<exists>d b'. GetOrCreateData m h b a = Ok (d, b') \<and> GetData b' a = Some d \<and>
               (GetData b a = None \<longrightarrow> d = length (zone b)) \<and> snapshot_inv h b'"
    using ok f1 f2 f3 by (intro exI[of _ d] exI[of _ b']) simp
qed

theorem GetOrCreateData_mode_gating_witness:
  "mode ((JSHeapBroker_ctor example_isolate)\<lparr>mode := kSerialized\<rparr>) = kSerialized \<and>
   FLAG_strict_heap_broker example_isolate \<and>
   GetData ((JSHeapBroker_ctor example_isolate)\<lparr>mode := kSerialized\<rparr>) 5 = None \<and>
   GetOrCreateData 5 example_isolate ((JSHeapBroker_ctor example_isolate)\<lparr>mode := kSerialized\<rparr>) 5
     = Fatal CHECK_SerializingAllowed \<and>
   mode (JSHeapBroker_ctor example_isolate) = kSerializing \<and>
   wf_heap example_isolate \<and> snapshot_inv example_isolate (JSHeapBroker_ctor example_isolate) \<and>
   (\<exists>b'. GetOrCreateData 5 example_isolate (JSHeapBroker_ctor example_isolate) 5 = Ok (0, b') \<and>
         GetData b' 5 = Some 0)"
proof -
  let ?h = example_isolate
  let ?b = "JSHeapBroker_ctor example_isolate"
  have 1: "mode (?b\<lparr>mode := kSerialized\<rparr>) = kSerialized \<and> FLAG_strict_heap_broker ?h"
    by (simp add: example_isolate_def)
  have "mode ?b = kSerializing"
    by (simp add: JSHeapBroker_ctor_def example_isolate_def)
  then have 2: "mode ?b = kSerializing \<and> wf_heap ?h \<and> snapshot_inv ?h ?b \<and> (5::nat) \<le> 5"
    using wf_heap_example snapshot_inv_ctor by simp
  have 3: "GetData ?b 5 = None" "GetData (?b\<lparr>mode := kSerialized\<rparr>) 5 = None"
    by (simp_all add: GetData_def JSHeapBroker_ctor_def)
  have 4: "length (zone ?b) = 0" by (simp add: JSHeapBroker_ctor_def)
  from GetOrCreateData_mode_gating[where b="?b\<lparr>mode := kSerialized\<rparr>" and h="?h" and n=4 and a=5 and m=5]
    1 have 5: "GetOrCreateData 5 ?h (?b\<lparr>mode := kSerialized\<rparr>) 5 = Fatal CHECK_SerializingAllowed"
    by (simp add: eval_nat_numeral)
  from GetOrCreateData_mode_gating[where b="?b" and h="?h" and n=4 and a=5 and m=5] 2 3(1) 4
  have 6: "\<exists>b'. GetOrCreateData 5 ?h ?b 5 = Ok (0, b') \<and> GetData b' 5 = Some 0"
    by auto
  from 1 2 3 5 6 show ?thesis by simp
qed

lemma ObjectRef_eq_iff: "(\<lparr>data_ptr = d\<rparr> = r) \<longleftrightarrow> data_ptr r = d"
  by (cases r) auto

lemma ObjectRef_ctor_cases:
  assumes "ObjectRef_ctor n h b a = Ok (r, b')"
  obtains
    (lookup) "GetData b a = Some (data_ptr r)" "b' = b"
  | (goc) "GetOrCreateData n h b a = Ok (data_ptr r, b')"
  | (plain) "mode b = kDisabled" "ObjectData_ctor h b a (Object_IsSmi h a) = Ok (data_ptr r, b')"
  using assms unfolding ObjectRef_ctor_def
  by (auto simp: bind_eq_Ok ObjectRef_eq_iff split: BrokerMode.splits if_splits option.splits)

lemma ObjectRef_ctor_post:
  assumes "ObjectRef_ctor n h b a = Ok (r, b')"
  shows "grows b b'" "refs b' a = Some (data_ptr r)"
proof -
  from assms have "grows b b' \<and> refs b' a = Some (data_ptr r)"
  proof (cases rule: ObjectRef_ctor_cases)
    case lookup
    then show ?thesis by (simp add: GetData_def grows_refl)
  next
    case goc
    from goc_postD[OF GetOrCreateData_post goc] show ?thesis by simp
  next
    case plain
    from ObjectData_ctor_post(1,2)[OF plain(2)] show ?thesis by simp
  qed
  then show "grows b b'" "refs b' a = Some (data_ptr r)" by simp_all
qed

lemma ObjectRef_ctor_cache_inv:
  assumes "cache_inv b" "ObjectRef_ctor n h b a = Ok (r, b')"
  shows "cache_inv b'"
  using assms(2)
proof (cases rule: ObjectRef_ctor_cases)
  case lookup
  then show ?thesis using assms(1) by simp
next
  case goc
  show ?thesis by (rule goc_presD[OF GetOrCreateData_pres[OF step_closed_cache_inv] assms(1) goc])
next
  case plain
  show ?thesis by (rule cache_inv_ObjectData_ctor[OF assms(1) plain(2)])
qed

lemma cache_inv_inj:
  assumes "cache_inv b" "refs b x = Some p" "refs b y = Some p"
  shows "x = y"
  using assms unfolding cache_inv_def by metis

text \<open>
  C3 (Ref equality law). For two Refs constructed one after the other under the
  same broker, in any mode, \<open>equals\<close> holds exactly when their backing records are
  the same zone slot, and that is exactly when they were constructed from the
  same heap-object identity: no field of a record or of the live object enters
  the comparison, so Refs of two distinct objects are never equal.
\<close>

theorem ObjectRef_equals_law:
  assumes "cache_inv b"
    and "ObjectRef_ctor n1 h b a1 = Ok (r1, b1)"
    and "ObjectRef_ctor n2 h b1 a2 = Ok (r2, b2)"
  shows "(ObjectRef_equals r1 r2 \<longleftrightarrow> data_ptr r1 = data_ptr r2) \<and>
         (ObjectRef_equals r1 r2 \<longleftrightarrow> a1 = a2)"
proof -
  note p1 = ObjectRef_ctor_post[OF assms(2)] and p2 = ObjectRef_ctor_post[OF assms(3)]
  have inv2: "cache_inv b2"
    by (rule ObjectRef_ctor_cache_inv[OF ObjectRef_ctor_cache_inv[OF assms(1,2)] assms(3)])
  have r1: "refs b2 a1 = Some (data_ptr r1)" by (rule grows_refs[OF p2(1) p1(2)])
  have "data_ptr r1 = data_ptr r2 \<longleftrightarrow> a1 = a2"
    using cache_inv_inj[OF inv2, of a1 "data_ptr r1" a2] r1 p2(2) by auto
  then show ?thesis by (simp add: ObjectRef_equals_def)
qed

theorem ObjectRef_equals_law_witness:
  "cache_inv (JSHeapBroker_ctor example_isolate) \<and>
   (\<exists>r1 b1 r2 b2 r3 b3.
      ObjectRef_ctor 5 example_isolate (JSHeapBroker_ctor example_isolate) 3 = Ok (r1, b1) \<and>
      ObjectRef_ctor 5 example_isolate b1 0 = Ok (r2, b2) \<and>
      ObjectRef_ctor 5 example_isolate b1 3 = Ok (r3, b3) \<and>
      \<not> ObjectRef_equals r1 r2 \<and> ObjectRef_equals r1 r3)"
proof -
  let ?h = example_isolate
  let ?b = "JSHeapBroker_ctor example_isolate"
  have "case ObjectRef_ctor 5 ?h ?b 3 of
          Ok (r1, b1) \<Rightarrow>
            (case ObjectRef_ctor 5 ?h b1 0 of Ok x \<Rightarrow> True | _ \<Rightarrow> False) \<and>
            (case ObjectRef_ctor 5 ?h b1 3 of Ok x \<Rightarrow> True | _ \<Rightarrow> False)
        | _ \<Rightarrow> False"
    by (simp add: eval_nat_numeral example_defs broker_defs ObjectRef_ctor_def Let_def)
  then obtain r1 b1 where
    1: "ObjectRef_ctor 5 ?h ?b 3 = Ok (r1, b1)" and
    e2: "case ObjectRef_ctor 5 ?h b1 0 of Ok x \<Rightarrow> True | _ \<Rightarrow> False" and
    e3: "case ObjectRef_ctor 5 ?h b1 3 of Ok x \<Rightarrow> True | _ \<Rightarrow> False"
    by (cases "ObjectRef_ctor 5 ?h ?b 3") auto
  from e2 obtain r2 b2 where 2: "ObjectRef_ctor 5 ?h b1 0 = Ok (r2, b2)"
    by (cases "ObjectRef_ctor 5 ?h b1 0") auto
  from e3 obtain r3 b3 where 3: "ObjectRef_ctor 5 ?h b1 3 = Ok (r3, b3)"
    by (cases "ObjectRef_ctor 5 ?h b1 3") auto
  from ObjectRef_equals_law[OF cache_inv_ctor 1 2] have "\<not> ObjectRef_equals r1 r2" by auto
  moreover from ObjectRef_equals_law[OF cache_inv_ctor 1 3] have "ObjectRef_equals r1 r3" by auto
  ultimately show ?thesis using cache_inv_ctor 1 2 3 by blast
qed

lemma grows_nth: "grows b b' \<Longrightarrow> p < length (zone b) \<Longrightarrow> zone b' ! p = zone b ! p"
  by (simp add: grows_def)

lemma HeapObjectData_ctor_map:
  assumes "HeapObjectData_ctor (GetOrCreateData n h) h b a ty = Ok (this, b')"
  shows "\<exists>m. map_ptr (data_at b' this) = Some m \<and> GetData b' (HeapObject_map h a) = Some m"
proof -
  from assms obtain b1 d b3 where
    c: "ObjectData_ctor h b a False = Ok (this, b1)" and
    g: "GetOrCreateData n h (init_type b1 this ty) (HeapObject_map h a) = Ok (d, b3)" and
    b': "b' = init_map b3 this (Some d)"
    by (auto simp: HeapObjectData_ctor_Ok)
  note p = ObjectData_ctor_post[OF c] and gp = goc_postD[OF GetOrCreateData_post g]
  have "this < length (zone b3)" using grows_length[OF gp(1)] p(3,4) by simp
  then have "map_ptr (data_at b' this) = Some d"
    by (simp add: b' data_at_def init_map_same)
  moreover have "GetData b' (HeapObject_map h a) = Some d"
    using gp(2) by (simp add: b' GetData_def)
  ultimately show ?thesis by blast
qed

lemma JSFunctionData_ctor_edges:
  assumes "JSFunctionData_ctor (GetOrCreateData n h) h b a ty = Ok (this, b')"
  shows "\<exists>m s. map_ptr (data_at b' this) = Some m \<and> GetData b' (HeapObject_map h a) = Some m \<and>
               shared (data_at b' this) = Some s \<and> GetData b' (JSFunction_shared h a) = Some s"
proof -
  from assms obtain b1 d b2 where
    c: "HeapObjectData_ctor (GetOrCreateData n h) h b a ty = Ok (this, b1)" and
    g: "GetOrCreateData n h b1 (JSFunction_shared h a) = Ok (d, b2)" and
    b': "b' = init_shared b2 this (Some d)"
    by (auto simp: JSFunctionData_ctor_Ok)
  from HeapObjectData_ctor_map[OF c] obtain m where
    m: "map_ptr (data_at b1 this) = Some m" "GetData b1 (HeapObject_map h a) = Some m" by blast
  note p = HeapObjectData_ctor_post[OF GetOrCreateData_post c]
    and gp = goc_postD[OF GetOrCreateData_post g]
  have lt: "this < length (zone b2)" using grows_length[OF gp(1)] p(4) by simp
  have "map_ptr (data_at b' this) = Some m"
    using m(1) grows_nth[OF gp(1) p(4)] by (simp add: b' data_at_def)
  moreover have "GetData b' (HeapObject_map h a) = Some m"
    using grows_refs[OF gp(1)] m(2) by (simp add: b' GetData_def)
  moreover have "shared (data_at b' this) = Some d"
    using lt by (simp add: b' data_at_def init_shared_same)
  moreover have "GetData b' (JSFunction_shared h a) = Some d"
    using gp(2) by (simp add: b' GetData_def)
  ultimately show ?thesis by blast
qed

text \<open>
  C5 (eager-edge completeness). A completed \<^verbatim>\<open>HeapObjectData\<close> constructor leaves
  a non-null \<open>map\<close> member, the cached record of the object's map; a completed
  \<^verbatim>\<open>JSFunctionData\<close> constructor leaves in addition a non-null \<open>shared\<close> member,
  the cached record of the function's shared info; both are obtained by the
  recursive \<open>GetOrCreateData\<close>; and the constructor bodies fail fatally on a null
  member.
\<close>

theorem eager_edges_complete:
  "(HeapObjectData_ctor (GetOrCreateData n h) h b a ty = Ok (this, b') \<longrightarrow>
      (\<exists>m. map_ptr (data_at b' this) = Some m \<and> GetData b' (HeapObject_map h a) = Some m)) \<and>
   (JSFunctionData_ctor (GetOrCreateData n h) h b a ty = Ok (this, b') \<longrightarrow>
      (\<exists>m s. map_ptr (data_at b' this) = Some m \<and> GetData b' (HeapObject_map h a) = Some m \<and>
             shared (data_at b' this) = Some s \<and> GetData b' (JSFunction_shared h a) = Some s)) \<and>
   (map_ptr (data_at b this) = None \<longrightarrow> HeapObjectData_body h b this = Fatal CHECK_NOT_NULL_map) \<and>
   (shared (data_at b this) = None \<longrightarrow> JSFunctionData_body b this = Fatal CHECK_NOT_NULL_shared)"
  using HeapObjectData_ctor_map[of n h b a ty this b'] JSFunctionData_ctor_edges[of n h b a ty this b']
  by (simp add: HeapObjectData_body_def JSFunctionData_body_def)

theorem eager_edges_complete_witness:
  "(\<exists>b'. HeapObjectData_ctor (GetOrCreateData 3 example_isolate) example_isolate
            (JSHeapBroker_ctor example_isolate) 3
            (HeapObjectTypeFromMap example_isolate 2) = Ok (0, b') \<and>
         map_ptr (data_at b' 0) = Some 1 \<and> GetData b' 2 = Some 1) \<and>
   (\<exists>b'. JSFunctionData_ctor (GetOrCreateData 4 example_isolate) example_isolate
            (JSHeapBroker_ctor example_isolate) 5
            (HeapObjectTypeFromMap example_isolate 4) = Ok (0, b') \<and>
         map_ptr (data_at b' 0) = Some 1 \<and> GetData b' 4 = Some 1 \<and>
         shared (data_at b' 0) = Some 3 \<and> GetData b' 6 = Some 3) \<and>
   map_ptr (data_at example_broker 0) = None \<and>
   HeapObjectData_body example_isolate example_broker 0 = Fatal CHECK_NOT_NULL_map \<and>
   shared (data_at example_broker 0) = None \<and>
   JSFunctionData_body example_broker 0 = Fatal CHECK_NOT_NULL_shared"
proof -
  let ?h = example_isolate
  let ?b = "JSHeapBroker_ctor example_isolate"
  let ?r1 = "HeapObjectData_ctor (GetOrCreateData 3 ?h) ?h ?b 3 (HeapObjectTypeFromMap ?h 2)"
  let ?r2 = "JSFunctionData_ctor (GetOrCreateData 4 ?h) ?h ?b 5 (HeapObjectTypeFromMap ?h 4)"
  have "case ?r1 of Ok (d, b') \<Rightarrow> d = 0 \<and> map_ptr (data_at b' 0) = Some 1 | _ \<Rightarrow> False"
    by (simp add: eval_nat_numeral example_defs broker_defs Let_def)
  then obtain b1 where 1: "?r1 = Ok (0, b1)" "map_ptr (data_at b1 0) = Some 1"
    by (cases ?r1) auto
  have "case ?r2 of Ok (d, b') \<Rightarrow> d = 0 \<and> map_ptr (data_at b' 0) = Some 1 \<and>
           shared (data_at b' 0) = Some 3 | _ \<Rightarrow> False"
    by (simp add: eval_nat_numeral example_defs broker_defs Let_def)
  then obtain b2 where 2: "?r2 = Ok (0, b2)" "map_ptr (data_at b2 0) = Some 1"
      "shared (data_at b2 0) = Some 3"
    by (cases ?r2) auto
  have m3: "HeapObject_map ?h 3 = 2" "HeapObject_map ?h 5 = 4" "JSFunction_shared ?h 5 = 6"
    by (simp_all add: example_defs)
  have 3: "map_ptr (data_at example_broker 0) = None" "shared (data_at example_broker 0) = None"
    by (simp_all add: example_broker_def data_at_def)
  have 4: "GetData b1 2 = Some 1"
    using eager_edges_complete[of 3 ?h ?b 3 "HeapObjectTypeFromMap ?h 2" 0 b1] 1 m3 by auto
  have 5: "GetData b2 4 = Some 1 \<and> GetData b2 6 = Some 3"
    using eager_edges_complete[of 4 ?h ?b 5 "HeapObjectTypeFromMap ?h 4" 0 b2] 2 m3 by auto
  have 6: "HeapObjectData_body ?h example_broker 0 = Fatal CHECK_NOT_NULL_map"
    "JSFunctionData_body example_broker 0 = Fatal CHECK_NOT_NULL_shared"
    using eager_edges_complete[of 0 ?h example_broker 0 undefined 0 undefined] 3 by simp_all
  from 1 2 3 4 5 6 show ?thesis by simp
qed

lemma cache_inv_unique:
  assumes "cache_inv b" "p < length (zone b)" "q < length (zone b)"
    "object (zone b ! p) = object (zone b ! q)"
  shows "p = q"
proof -
  from assms(1,2) have 1: "refs b (object (zone b ! p)) = Some p"
    unfolding cache_inv_def by blast
  from assms(1,3) have 2: "refs b (object (zone b ! q)) = Some q"
    unfolding cache_inv_def by blast
  from 1 have "refs b (object (zone b ! q)) = Some p" by (simp only: assms(4))
  with 2 have "Some q = Some p" by (rule trans[OF sym])
  then show ?thesis by (simp only: option.inject)
qed

lemma AddData_duplicate:
  "GetData b a \<noteq> None \<Longrightarrow> AddData h b a p =
     (if canonical_scope h then Fatal CHECK_refs_insert else Fatal CHECK_NOT_NULL_canonical_scope)"
  by (simp add: AddData_def GetData_def)

lemma ObjectData_ctor_object:
  assumes "ObjectData_ctor h b a smi = Ok (this, b')"
  shows "object (data_at b' this) = a" "is_smi (data_at b' this) = smi"
  using assms by (simp_all add: ObjectData_ctor_Ok data_at_def)

lemma cache_inv_example_broker: "cache_inv example_broker"
  by (simp add: cache_inv_def example_broker_def)

text \<open>
  C10 (narrowing is unavailable in live-access mode). In mode \<open>kDisabled\<close> the
  narrowing \<open>As\<close> fails fatally for every record and category, although \<open>Is\<close>
  answers there by asking the live object; and \<open>As\<close> returns (the same pointer)
  exactly when the mode is not \<open>kDisabled\<close>, the record is not the record of a
  small integer, and the instance type of its cached type descriptor belongs
  to the category.
\<close>

theorem ObjectData_As_needs_snapshot:
  "(mode b = kDisabled \<longrightarrow>
      ObjectData_As h b N p = Fatal CHECK_NE_mode_kDisabled \<and>
      ObjectData_Is h b N p = Ok (Object_Is h N (object (data_at b p)))) \<and>
   (ObjectData_As h b N p = Ok q \<longleftrightarrow>
      q = p \<and> mode b \<noteq> kDisabled \<and> \<not> is_smi (data_at b p) \<and>
      (\<exists>t. type (data_at b p) = Some t \<and> InstanceTypeChecker_Is h N (instance_type t)))"
  by (simp add: ObjectData_As_Ok) (simp add: ObjectData_As_def ObjectData_Is_def)

theorem ObjectData_As_needs_snapshot_witness:
  "(\<exists>r b. ObjectRef_ctor 1 example_isolate ((JSHeapBroker_ctor example_isolate)\<lparr>mode := kDisabled\<rparr>) 2
            = Ok (r, b) \<and> mode b = kDisabled \<and>
          ObjectData_Is example_isolate b Map (data_ptr r) = Ok True \<and>
          ObjectData_As example_isolate b Map (data_ptr r) = Fatal CHECK_NE_mode_kDisabled) \<and>
   (\<exists>b. GetOrCreateData 3 example_isolate (JSHeapBroker_ctor example_isolate) 2 = Ok (0, b) \<and>
         ObjectData_As example_isolate b Map 0 = Ok 0 \<and>
         (\<forall>q. ObjectData_As example_isolate b JSFunction 0 \<noteq> Ok q))"
proof -
  let ?h = example_isolate
  let ?b = "(JSHeapBroker_ctor example_isolate)\<lparr>mode := kDisabled\<rparr>"
  let ?r1 = "ObjectRef_ctor 1 ?h ?b 2"
  have "case ?r1 of Ok (r, b) \<Rightarrow> mode b = kDisabled \<and> object (data_at b (data_ptr r)) = 2
        | _ \<Rightarrow> False"
    by (simp add: example_defs broker_defs ObjectRef_ctor_def Let_def)
  then obtain r b1 where 1: "?r1 = Ok (r, b1)" "mode b1 = kDisabled"
      "object (data_at b1 (data_ptr r)) = 2"
    by (cases ?r1) auto
  have is2: "Object_Is ?h Map 2" by (simp add: example_defs)
  have 2: "ObjectData_Is ?h b1 Map (data_ptr r) = Ok True \<and>
           ObjectData_As ?h b1 Map (data_ptr r) = Fatal CHECK_NE_mode_kDisabled"
    using ObjectData_As_needs_snapshot[of b1 ?h Map "data_ptr r"] 1 is2 by simp
  let ?r2 = "GetOrCreateData 3 ?h (JSHeapBroker_ctor ?h) 2"
  have "case ?r2 of Ok (d, b) \<Rightarrow> d = 0 \<and> mode b \<noteq> kDisabled \<and> \<not> is_smi (data_at b 0) \<and>
           type (data_at b 0) = Some (HeapObjectTypeFromMap ?h 1) | _ \<Rightarrow> False"
    by (simp add: eval_nat_numeral example_defs broker_defs Let_def)
  then obtain b2 where 3: "?r2 = Ok (0, b2)" "mode b2 \<noteq> kDisabled" "\<not> is_smi (data_at b2 0)"
      "type (data_at b2 0) = Some (HeapObjectTypeFromMap ?h 1)"
    by (cases ?r2) auto
  have tc: "InstanceTypeChecker_Is ?h Map (Map_instance_type ?h 1)"
    "\<not> InstanceTypeChecker_Is ?h JSFunction (Map_instance_type ?h 1)"
    by (simp_all add: example_defs)
  have 4: "ObjectData_As ?h b2 Map 0 = Ok 0"
    using ObjectData_As_needs_snapshot[of b2 ?h Map 0 0] 3 tc by simp
  have 5: "\<forall>q. ObjectData_As ?h b2 JSFunction 0 \<noteq> Ok q"
    using ObjectData_As_needs_snapshot[of b2 ?h JSFunction 0] 3 tc by simp
  from 1 2 3 4 5 show ?thesis by blast
qed

subsection \<open>The claim about the read facade\<close>

lemma example_string_broker_reached:
  "GetOrCreateData 4 example_isolate (JSHeapBroker_ctor example_isolate) 9 =
     Ok (0, example_string_broker)"
  by (simp add: eval_nat_numeral example_defs broker_defs example_string_broker_def Let_def)

lemma mode_example_ctor: "mode (JSHeapBroker_ctor example_isolate) = kSerializing"
  by (simp add: JSHeapBroker_ctor_def example_isolate_def)

lemma example_string_ref:
  "ObjectRef_ctor 4 example_isolate (JSHeapBroker_ctor example_isolate) 9 =
     Ok (\<lparr>data_ptr = 0\<rparr>, example_string_broker)"
  by (simp add: ObjectRef_ctor_def mode_example_ctor example_string_broker_reached)

lemma ObjectData_As_heap_independent:
  assumes "mode b \<noteq> kDisabled" "InstanceTypeChecker_Is h' = InstanceTypeChecker_Is h"
  shows "ObjectData_As h' b N p = ObjectData_As h b N p"
  using assms by (simp add: ObjectData_As_def ObjectData_Is_def split: option.splits)

text \<open>
  C4 as stated fails for \<^verbatim>\<open>StringRef::length\<close>: with the broker in Building mode
  and the record of the string cached, the accessor returns the current length
  of the live string, 3 on one heap and 7 on the other, for the same broker and
  the same Ref.
\<close>

theorem accessor_resolution_counterexample:
  "GetOrCreateData 4 example_isolate (JSHeapBroker_ctor example_isolate) 9 =
     Ok (0, example_string_broker) \<and>
   mode example_string_broker = kSerializing \<and>
   StringRef_length example_isolate example_string_broker \<lparr>data_ptr = 0\<rparr> = 3 \<and>
   StringRef_length example_isolate2 example_string_broker \<lparr>data_ptr = 0\<rparr> = 7"
  using example_string_broker_reached
  by (simp add: StringRef_length_def ObjectRef_object_def data_at_def example_string_broker_def
        example_isolate2_def example_isolate_def)

subsection \<open>The claim about insertion into the identity cache\<close>

lemma HeapObjectData_ctor_record:
  assumes gp: "goc_post goc" and ok: "HeapObjectData_ctor goc h b a ty = Ok (this, b')"
  shows "object (data_at b' this) = a" "is_smi (data_at b' this) = False"
proof -
  from ok obtain b1 d b3 where
    c: "ObjectData_ctor h b a False = Ok (this, b1)" and
    g: "goc (init_type b1 this ty) (HeapObject_map h a) = Ok (d, b3)" and
    b': "b' = init_map b3 this (Some d)"
    by (auto simp: HeapObjectData_ctor_Ok)
  note p = ObjectData_ctor_post[OF c] and o = ObjectData_ctor_object[OF c]
  note gg = goc_postD(1)[OF gp g]
  have lt: "this < length (zone (init_type b1 this ty))" using p(3,4) by simp
  have eq: "zone b3 ! this = zone (init_type b1 this ty) ! this" by (rule grows_nth[OF gg lt])
  show "object (data_at b' this) = a" using o(1) eq by (simp add: b' data_at_def)
  show "is_smi (data_at b' this) = False" using o(2) eq by (simp add: b' data_at_def)
qed

lemma JSFunctionData_ctor_record:
  assumes gp: "goc_post goc" and ok: "JSFunctionData_ctor goc h b a ty = Ok (this, b')"
  shows "object (data_at b' this) = a" "is_smi (data_at b' this) = False"
proof -
  from ok obtain b1 d b2 where
    c: "HeapObjectData_ctor goc h b a ty = Ok (this, b1)" and
    g: "goc b1 (JSFunction_shared h a) = Ok (d, b2)" and
    b': "b' = init_shared b2 this (Some d)"
    by (auto simp: JSFunctionData_ctor_Ok)
  note p = HeapObjectData_ctor_post[OF gp c] and o = HeapObjectData_ctor_record[OF gp c]
  have eq: "zone b2 ! this = zone b1 ! this" by (rule grows_nth[OF goc_postD(1)[OF gp g] p(4)])
  show "object (data_at b' this) = a" using o(1) eq by (simp add: b' data_at_def)
  show "is_smi (data_at b' this) = False" using o(2) eq by (simp add: b' data_at_def)
qed

lemma NativeContextData_ctor_record:
  assumes gp: "goc_post goc" and ok: "NativeContextData_ctor goc h b a ty = Ok (this, b')"
  shows "object (data_at b' this) = a" "is_smi (data_at b' this) = False"
proof -
  from ok obtain b1 d b3 where
    c: "HeapObjectData_ctor goc h b a ty = Ok (this, b1)" and
    g: "goc (init_sloppy_arguments_map b1 this None) (Context_sloppy_arguments_map h a) = Ok (d, b3)" and
    b': "b' = init_sloppy_arguments_map b3 this (Some d)"
    by (auto simp: NativeContextData_ctor_Ok NativeContextData_body_Ok)
  note p = HeapObjectData_ctor_post[OF gp c] and o = HeapObjectData_ctor_record[OF gp c]
  have lt: "this < length (zone (init_sloppy_arguments_map b1 this None))" using p(4) by simp
  have eq: "zone b3 ! this = zone (init_sloppy_arguments_map b1 this None) ! this"
    by (rule grows_nth[OF goc_postD(1)[OF gp g] lt])
  show "object (data_at b' this) = a" using o(1) eq by (simp add: b' data_at_def)
  show "is_smi (data_at b' this) = False" using o(2) eq by (simp add: b' data_at_def)
qed

lemma ObjectData_Serialize_record:
  assumes gp: "goc_post goc" and ok: "ObjectData_Serialize goc h b a = Ok (this, b')"
  shows "object (data_at b' this) = a" "is_smi (data_at b' this) = Object_IsSmi h a"
proof -
  from ok have "object (data_at b' this) = a \<and> is_smi (data_at b' this) = Object_IsSmi h a"
  proof (cases rule: ObjectData_Serialize_cases)
    case smi
    from ObjectData_ctor_object[OF smi(2)] smi(1) show ?thesis by simp
  next
    case fn
    from JSFunctionData_ctor_record[OF gp fn(3)] fn(1) show ?thesis by simp
  next
    case ctx
    from NativeContextData_ctor_record[OF gp ctx(4)] ctx(1) show ?thesis by simp
  next
    case obj
    from HeapObjectData_ctor_record[OF gp obj(4)] obj(1) show ?thesis by simp
  qed
  then show "object (data_at b' this) = a" "is_smi (data_at b' this) = Object_IsSmi h a"
    by simp_all
qed

lemma GetOrCreateData_fresh_record:
  assumes "GetOrCreateData n h b a = Ok (d, b')" "GetData b a = None"
  shows "object (data_at b' d) = a" "is_smi (data_at b' d) = Object_IsSmi h a"
proof -
  from assms(1) obtain n' where n': "n = Suc n'" by (rule GetOrCreateData_Ok_fuel)
  from assms have "ObjectData_Serialize (GetOrCreateData n' h) h b a = Ok (d, b')"
    by (simp add: n' GetOrCreateData_Suc_Ok)
  from ObjectData_Serialize_record[OF GetOrCreateData_post this]
  show "object (data_at b' d) = a" "is_smi (data_at b' d) = Object_IsSmi h a" by simp_all
qed

text \<open>
  C9 (duplicate insertion is fatal, creation implies caching). \<open>AddData\<close> on an
  identity already present fails fatally (with the insertion check, once the
  canonical-scope check before it has passed). Every completed constructor,
  of the base class \<^verbatim>\<open>ObjectData\<close> and of \<^verbatim>\<open>HeapObjectData\<close>, \<^verbatim>\<open>JSFunctionData\<close> and
  \<^verbatim>\<open>NativeContextData\<close>, was run on an identity not yet cached, has allocated the
  next slot of the zone for a record of that identity and has cached the
  identity under it; so has \<^verbatim>\<open>ObjectData::Serialize\<close>, and so has every call of
  \<open>GetOrCreateData\<close> on an identity not yet cached. Hence the cache invariant
  (every cached identity points to the record of that identity, every record of
  the zone is cached under its own identity) holds for the new broker, is kept
  by the base constructor, by \<open>GetOrCreateData\<close> and by the Ref constructor, and
  under it no two records of the zone have the same identity.
\<close>

theorem AddData_duplicate_fatal:
  "(GetData b a \<noteq> None \<longrightarrow> (\<exists>c. AddData h b a p = Fatal c)) \<and>
   (GetData b a \<noteq> None \<and> canonical_scope h \<longrightarrow> AddData h b a p = Fatal CHECK_refs_insert) \<and>
   (ObjectData_ctor h b a smi = Ok (this, b') \<longrightarrow>
      GetData b a = None \<and> this = length (zone b) \<and> length (zone b') = Suc (length (zone b)) \<and>
      GetData b' a = Some this \<and> object (data_at b' this) = a) \<and>
   (HeapObjectData_ctor (GetOrCreateData n h) h b a ty = Ok (this, b') \<longrightarrow>
      GetData b a = None \<and> this = length (zone b) \<and> this < length (zone b') \<and>
      GetData b' a = Some this \<and> object (data_at b' this) = a) \<and>
   (JSFunctionData_ctor (GetOrCreateData n h) h b a ty = Ok (this, b') \<longrightarrow>
      GetData b a = None \<and> this = length (zone b) \<and> this < length (zone b') \<and>
      GetData b' a = Some this \<and> object (data_at b' this) = a) \<and>
   (NativeContextData_ctor (GetOrCreateData n h) h b a ty = Ok (this, b') \<longrightarrow>
      GetData b a = None \<and> this = length (zone b) \<and> this < length (zone b') \<and>
      GetData b' a = Some this \<and> object (data_at b' this) = a) \<and>
   (ObjectData_Serialize (GetOrCreateData n h) h b a = Ok (this, b') \<longrightarrow>
      GetData b a = None \<and> this = length (zone b) \<and> this < length (zone b') \<and>
      GetData b' a = Some this \<and> object (data_at b' this) = a) \<and>
   (GetOrCreateData n h b a = Ok (d, b') \<longrightarrow>
      GetData b' a = Some d \<and>
      (GetData b a = None \<longrightarrow>
         d = length (zone b) \<and> d < length (zone b') \<and> object (data_at b' d) = a)) \<and>
   cache_inv (JSHeapBroker_ctor h) \<and>
   (cache_inv b \<and> ObjectData_ctor h b a smi = Ok (this, b') \<longrightarrow> cache_inv b') \<and>
   (cache_inv b \<and> GetOrCreateData n h b a = Ok (d, b') \<longrightarrow>
      cache_inv b' \<and> d < length (zone b') \<and> object (data_at b' d) = a) \<and>
   (cache_inv b \<and> ObjectRef_ctor n h b a = Ok (r, b') \<longrightarrow>
      cache_inv b' \<and> GetData b' a = Some (data_ptr r) \<and> data_ptr r < length (zone b') \<and>
      object (data_at b' (data_ptr r)) = a) \<and>
   (cache_inv b \<and> p < length (zone b) \<and> q < length (zone b) \<and>
      object (zone b ! p) = object (zone b ! q) \<longrightarrow> p = q)"
proof -
  note gp = GetOrCreateData_post[of n h]
  have 1: "GetData b a \<noteq> None \<longrightarrow> (\<exists>c. AddData h b a p = Fatal c)"
    by (simp add: AddData_duplicate)
  have 2: "GetData b a \<noteq> None \<and> canonical_scope h \<longrightarrow> AddData h b a p = Fatal CHECK_refs_insert"
    by (simp add: AddData_duplicate)
  have 3: "ObjectData_ctor h b a smi = Ok (this, b') \<longrightarrow>
      GetData b a = None \<and> this = length (zone b) \<and> length (zone b') = Suc (length (zone b)) \<and>
      GetData b' a = Some this \<and> object (data_at b' this) = a"
  proof
    assume c: "ObjectData_ctor h b a smi = Ok (this, b')"
    from ObjectData_ctor_post[OF c] ObjectData_ctor_object(1)[OF c]
    show "GetData b a = None \<and> this = length (zone b) \<and> length (zone b') = Suc (length (zone b)) \<and>
      GetData b' a = Some this \<and> object (data_at b' this) = a"
      by (simp add: GetData_def)
  qed
  have h1: "HeapObjectData_ctor (GetOrCreateData n h) h b a ty = Ok (this, b') \<longrightarrow>
      GetData b a = None \<and> this = length (zone b) \<and> this < length (zone b') \<and>
      GetData b' a = Some this \<and> object (data_at b' this) = a"
  proof
    assume c: "HeapObjectData_ctor (GetOrCreateData n h) h b a ty = Ok (this, b')"
    from HeapObjectData_ctor_post[OF gp c] HeapObjectData_ctor_record(1)[OF gp c]
    show "GetData b a = None \<and> this = length (zone b) \<and> this < length (zone b') \<and>
      GetData b' a = Some this \<and> object (data_at b' this) = a"
      by (simp add: GetData_def)
  qed
  have h2: "JSFunctionData_ctor (GetOrCreateData n h) h b a ty = Ok (this, b') \<longrightarrow>
      GetData b a = None \<and> this = length (zone b) \<and> this < length (zone b') \<and>
      GetData b' a = Some this \<and> object (data_at b' this) = a"
  proof
    assume c: "JSFunctionData_ctor (GetOrCreateData n h) h b a ty = Ok (this, b')"
    from JSFunctionData_ctor_post[OF gp c] JSFunctionData_ctor_record(1)[OF gp c]
    show "GetData b a = None \<and> this = length (zone b) \<and> this < length (zone b') \<and>
      GetData b' a = Some this \<and> object (data_at b' this) = a"
      by (simp add: GetData_def)
  qed
  have h3: "NativeContextData_ctor (GetOrCreateData n h) h b a ty = Ok (this, b') \<longrightarrow>
      GetData b a = None \<and> this = length (zone b) \<and> this < length (zone b') \<and>
      GetData b' a = Some this \<and> object (data_at b' this) = a"
  proof
    assume c: "NativeContextData_ctor (GetOrCreateData n h) h b a ty = Ok (this, b')"
    from NativeContextData_ctor_post[OF gp c] NativeContextData_ctor_record(1)[OF gp c]
    show "GetData b a = None \<and> this = length (zone b) \<and> this < length (zone b') \<and>
      GetData b' a = Some this \<and> object (data_at b' this) = a"
      by (simp add: GetData_def)
  qed
  have h4: "ObjectData_Serialize (GetOrCreateData n h) h b a = Ok (this, b') \<longrightarrow>
      GetData b a = None \<and> this = length (zone b) \<and> this < length (zone b') \<and>
      GetData b' a = Some this \<and> object (data_at b' this) = a"
  proof
    assume c: "ObjectData_Serialize (GetOrCreateData n h) h b a = Ok (this, b')"
    from ObjectData_Serialize_post[OF gp c] ObjectData_Serialize_record(1)[OF gp c]
    show "GetData b a = None \<and> this = length (zone b) \<and> this < length (zone b') \<and>
      GetData b' a = Some this \<and> object (data_at b' this) = a"
      by (simp add: GetData_def)
  qed
  have h5: "GetOrCreateData n h b a = Ok (d, b') \<longrightarrow>
      GetData b' a = Some d \<and>
      (GetData b a = None \<longrightarrow>
         d = length (zone b) \<and> d < length (zone b') \<and> object (data_at b' d) = a)"
  proof
    assume c: "GetOrCreateData n h b a = Ok (d, b')"
    have "GetData b' a = Some d" using goc_postD(2)[OF GetOrCreateData_post c] by (simp add: GetData_def)
    moreover have "GetData b a = None \<longrightarrow>
         d = length (zone b) \<and> d < length (zone b') \<and> object (data_at b' d) = a"
      using GetOrCreateData_fresh[OF c] GetOrCreateData_fresh_record(1)[OF c] by simp
    ultimately show "GetData b' a = Some d \<and>
      (GetData b a = None \<longrightarrow>
         d = length (zone b) \<and> d < length (zone b') \<and> object (data_at b' d) = a)" by (rule conjI)
  qed
  have 4: "cache_inv (JSHeapBroker_ctor h)" by (rule cache_inv_ctor)
  have 5: "cache_inv b \<and> ObjectData_ctor h b a smi = Ok (this, b') \<longrightarrow> cache_inv b'"
    using cache_inv_ObjectData_ctor by blast
  have 6: "cache_inv b \<and> GetOrCreateData n h b a = Ok (d, b') \<longrightarrow>
      cache_inv b' \<and> d < length (zone b') \<and> object (data_at b' d) = a"
  proof
    assume a: "cache_inv b \<and> GetOrCreateData n h b a = Ok (d, b')"
    then have inv: "cache_inv b'"
      using goc_presD[OF GetOrCreateData_pres[OF step_closed_cache_inv]] by blast
    from a have r: "refs b' a = Some d" using goc_postD(2)[OF GetOrCreateData_post] by blast
    from inv r have "d < length (zone b') \<and> object (zone b' ! d) = a"
      unfolding cache_inv_def by blast
    with inv show "cache_inv b' \<and> d < length (zone b') \<and> object (data_at b' d) = a"
      by (simp add: data_at_def)
  qed
  have 7: "cache_inv b \<and> ObjectRef_ctor n h b a = Ok (r, b') \<longrightarrow>
      cache_inv b' \<and> GetData b' a = Some (data_ptr r) \<and> data_ptr r < length (zone b') \<and>
      object (data_at b' (data_ptr r)) = a"
  proof
    assume a: "cache_inv b \<and> ObjectRef_ctor n h b a = Ok (r, b')"
    then have inv: "cache_inv b'" using ObjectRef_ctor_cache_inv by blast
    from a have r: "refs b' a = Some (data_ptr r)" using ObjectRef_ctor_post(2) by blast
    from inv r have "data_ptr r < length (zone b') \<and> object (zone b' ! data_ptr r) = a"
      unfolding cache_inv_def by blast
    with inv r show "cache_inv b' \<and> GetData b' a = Some (data_ptr r) \<and>
      data_ptr r < length (zone b') \<and> object (data_at b' (data_ptr r)) = a"
      by (simp add: data_at_def GetData_def)
  qed
  have 8: "cache_inv b \<and> p < length (zone b) \<and> q < length (zone b) \<and>
      object (zone b ! p) = object (zone b ! q) \<longrightarrow> p = q"
    using cache_inv_unique by blast
  from 1 2 3 h1 h2 h3 h4 h5 4 5 6 7 8 show ?thesis by (intro conjI)
qed

theorem AddData_duplicate_fatal_witness:
  "GetData example_broker 0 \<noteq> None \<and> canonical_scope example_isolate \<and>
   AddData example_isolate example_broker 0 1 = Fatal CHECK_refs_insert \<and>
   ObjectData_ctor example_isolate example_broker 0 True = Fatal CHECK_refs_insert \<and>
   cache_inv example_broker \<and>
   (\<exists>b'. ObjectData_ctor example_isolate example_broker 12 True = Ok (1, b') \<and>
         GetData b' 12 = Some 1 \<and> object (data_at b' 1) = 12 \<and> cache_inv b') \<and>
   (\<exists>b'. HeapObjectData_ctor (GetOrCreateData 3 example_isolate) example_isolate example_broker 3
           (HeapObjectTypeFromMap example_isolate 2) = Ok (1, b') \<and>
         GetData b' 3 = Some 1 \<and> object (data_at b' 1) = 3) \<and>
   (\<exists>b'. JSFunctionData_ctor (GetOrCreateData 4 example_isolate) example_isolate example_broker 5
           (HeapObjectTypeFromMap example_isolate 4) = Ok (1, b') \<and>
         GetData b' 5 = Some 1 \<and> object (data_at b' 1) = 5) \<and>
   (\<exists>b'. ObjectData_Serialize (GetOrCreateData 3 example_isolate) example_isolate example_broker 3
           = Ok (1, b') \<and>
         GetData b' 3 = Some 1 \<and> object (data_at b' 1) = 3) \<and>
   GetData example_broker 3 = None \<and>
   (\<exists>b'. GetOrCreateData 4 example_isolate example_broker 3 = Ok (1, b') \<and>
         GetData b' 3 = Some 1 \<and> 1 < length (zone b') \<and> object (data_at b' 1) = 3 \<and>
         cache_inv b') \<and>
   (\<exists>r b'. ObjectRef_ctor 4 example_isolate example_broker 3 = Ok (r, b') \<and>
         GetData b' 3 = Some (data_ptr r) \<and> object (data_at b' (data_ptr r)) = 3 \<and>
         cache_inv b')"
proof -
  let ?h = example_isolate
  let ?b = example_broker
  note ci = cache_inv_example_broker
  have 1: "GetData ?b 0 \<noteq> None \<and> canonical_scope ?h"
    by (simp add: GetData_def example_broker_def example_isolate_def)
  have 2: "AddData ?h ?b 0 1 = Fatal CHECK_refs_insert"
    using AddData_duplicate_fatal[where b="?b" and a=0 and h="?h" and p=1] 1 by blast
  have d2: "ObjectData_ctor ?h ?b 0 True = Fatal CHECK_refs_insert"
    by (simp add: ObjectData_ctor_def Let_def AddData_def example_broker_def example_isolate_def)
  have n3: "GetData ?b 3 = None" by (simp add: GetData_def example_broker_def)
  let ?r3 = "ObjectData_ctor ?h ?b 12 True"
  have "case ?r3 of Ok (d, b') \<Rightarrow> d = 1 | _ \<Rightarrow> False"
    by (simp add: example_defs broker_defs example_broker_def Let_def)
  then obtain b3 where 3: "?r3 = Ok (1, b3)" by (cases ?r3) auto
  have f3: "GetData b3 12 = Some 1 \<and> object (data_at b3 1) = 12 \<and> cache_inv b3"
    using AddData_duplicate_fatal[where b="?b" and a=12 and h="?h" and smi=True and this=1 and b'=b3]
      3 ci by blast
  let ?r4 = "HeapObjectData_ctor (GetOrCreateData 3 ?h) ?h ?b 3 (HeapObjectTypeFromMap ?h 2)"
  have "case ?r4 of Ok (d, b') \<Rightarrow> d = 1 | _ \<Rightarrow> False"
    by (simp add: eval_nat_numeral example_defs broker_defs example_broker_def Let_def)
  then obtain b4 where 4: "?r4 = Ok (1, b4)" by (cases ?r4) auto
  have f4: "GetData b4 3 = Some 1 \<and> object (data_at b4 1) = 3"
    using AddData_duplicate_fatal[where b="?b" and a=3 and h="?h" and n=3 and this=1 and b'=b4
        and ty="HeapObjectTypeFromMap ?h 2"] 4 by blast
  let ?r5 = "JSFunctionData_ctor (GetOrCreateData 4 ?h) ?h ?b 5 (HeapObjectTypeFromMap ?h 4)"
  have "case ?r5 of Ok (d, b') \<Rightarrow> d = 1 | _ \<Rightarrow> False"
    by (simp add: eval_nat_numeral example_defs broker_defs example_broker_def Let_def)
  then obtain b5 where 5: "?r5 = Ok (1, b5)" by (cases ?r5) auto
  have f5: "GetData b5 5 = Some 1 \<and> object (data_at b5 1) = 5"
    using AddData_duplicate_fatal[where b="?b" and a=5 and h="?h" and n=4 and this=1 and b'=b5
        and ty="HeapObjectTypeFromMap ?h 4"] 5 by blast
  let ?r6 = "ObjectData_Serialize (GetOrCreateData 3 ?h) ?h ?b 3"
  have "case ?r6 of Ok (d, b') \<Rightarrow> d = 1 | _ \<Rightarrow> False"
    by (simp add: eval_nat_numeral example_defs broker_defs example_broker_def Let_def)
  then obtain b6 where 6: "?r6 = Ok (1, b6)" by (cases ?r6) auto
  have f6: "GetData b6 3 = Some 1 \<and> object (data_at b6 1) = 3"
    using AddData_duplicate_fatal[where b="?b" and a=3 and h="?h" and n=3 and this=1 and b'=b6]
      6 by blast
  let ?r7 = "GetOrCreateData 4 ?h ?b 3"
  have "case ?r7 of Ok (d, b') \<Rightarrow> d = 1 | _ \<Rightarrow> False"
    by (simp add: eval_nat_numeral example_defs broker_defs example_broker_def Let_def)
  then obtain b7 where 7: "?r7 = Ok (1, b7)" by (cases ?r7) auto
  have f7: "GetData b7 3 = Some 1 \<and> 1 < length (zone b7) \<and> object (data_at b7 1) = 3 \<and> cache_inv b7"
    using AddData_duplicate_fatal[where b="?b" and a=3 and h="?h" and n=4 and d=1 and b'=b7]
      7 ci by blast
  let ?r8 = "ObjectRef_ctor 4 ?h ?b 3"
  have "case ?r8 of Ok (r, b') \<Rightarrow> True | _ \<Rightarrow> False"
    by (simp add: eval_nat_numeral example_defs broker_defs example_broker_def ObjectRef_ctor_def Let_def)
  then obtain r8 b8 where 8: "?r8 = Ok (r8, b8)" by (cases ?r8) auto
  have f8: "GetData b8 3 = Some (data_ptr r8) \<and> object (data_at b8 (data_ptr r8)) = 3 \<and> cache_inv b8"
    using AddData_duplicate_fatal[where b="?b" and a=3 and h="?h" and n=4 and r=r8 and b'=b8]
      8 ci by blast
  from 1 2 d2 ci 3 f3 4 f4 5 f5 6 f6 n3 7 f7 8 f8 show ?thesis by blast
qed

lemma example_function_broker_reached:
  "GetOrCreateData 5 example_isolate (JSHeapBroker_ctor example_isolate) 5 =
     Ok (0, example_function_broker)"
  by (simp add: eval_nat_numeral example_defs broker_defs example_function_broker_def Let_def)

lemma example_context_broker_reached:
  "GetOrCreateData 5 example_isolate (JSHeapBroker_ctor example_isolate) 11 =
     Ok (0, example_context_broker)"
  by (simp add: eval_nat_numeral example_defs broker_defs example_context_broker_def Let_def)

lemma ObjectData_Is_snapshot:
  assumes "mode b \<noteq> kDisabled"
  shows "is_smi (data_at b p) \<Longrightarrow> ObjectData_Is h b N p = Ok False"
    "\<not> is_smi (data_at b p) \<Longrightarrow> type (data_at b p) = Some t \<Longrightarrow>
       ObjectData_Is h b N p = Ok (InstanceTypeChecker_Is h N (instance_type t))"
  using assms by (simp_all add: ObjectData_Is_def)

lemma ObjectData_As_snapshot:
  assumes "mode b \<noteq> kDisabled" "\<not> is_smi (data_at b p)" "type (data_at b p) = Some t"
    "InstanceTypeChecker_Is h N (instance_type t)"
  shows "ObjectData_As h b N p = Ok p"
  using assms by (simp add: ObjectData_As_Ok)

text \<open>
  C4, as the code has it (accessor resolution by mode). Write \<open>d\<close> for the
  record behind the Ref. 

  \<^item> \<^verbatim>\<open>HeapObjectRef::map\<close>, \<^verbatim>\<open>HeapObjectRef::type\<close>, \<^verbatim>\<open>JSFunctionRef::shared\<close>,
    \<^verbatim>\<open>NativeContextRef::sloppy_arguments_map\<close>, \<^verbatim>\<open>ObjectRef::Is##Name\<close> and
    \<^verbatim>\<open>ObjectRef::oddball_type\<close> resolve by mode. In mode \<open>kDisabled\<close> they read the
    live object. In the other modes they return the field of the cached record:
    the Ref of \<open>map_ptr d\<close>, \<open>shared d\<close> or \<open>sloppy_arguments_map d\<close>, the type
    descriptor \<open>type d\<close>, its oddball tag, the category test on its instance
    type; and their result is the same for every live heap.
  \<^item> \<^verbatim>\<open>ObjectRef::IsSmi\<close> returns the flag of the record in every mode.
  \<^item> \<^verbatim>\<open>HeapNumberRef::value\<close> and \<^verbatim>\<open>StringRef::length\<close> return the field of the
    live object in every mode.
\<close>

theorem accessor_resolution_by_mode:
  "(mode b = kDisabled \<longrightarrow>
      HeapObjectRef_map n h b r =
        ObjectRef_ctor n h b (HeapObject_map h (object (data_at b (data_ptr r)))) \<and>
      HeapObjectRef_type h b r =
        Ok (HeapObjectTypeFromMap h (HeapObject_map h (object (data_at b (data_ptr r))))) \<and>
      JSFunctionRef_shared n h b r =
        ObjectRef_ctor n h b (JSFunction_shared h (object (data_at b (data_ptr r)))) \<and>
      NativeContextRef_sloppy_arguments_map n h b r =
        ObjectRef_ctor n h b (Context_sloppy_arguments_map h (object (data_at b (data_ptr r)))) \<and>
      ObjectRef_Is h b N r = Ok (Object_Is h N (object (data_at b (data_ptr r)))) \<and>
      (\<not> is_smi (data_at b (data_ptr r)) \<longrightarrow>
         ObjectRef_oddball_type h b r =
           Ok (oddball_type
                 (HeapObjectTypeFromMap h (HeapObject_map h (object (data_at b (data_ptr r)))))))) \<and>
   (mode b \<noteq> kDisabled \<and> \<not> is_smi (data_at b (data_ptr r)) \<and>
    type (data_at b (data_ptr r)) = Some t \<longrightarrow>
      ObjectRef_Is h b N r = Ok (InstanceTypeChecker_Is h N (instance_type t)) \<and>
      (InstanceTypeChecker_Is h HeapObject (instance_type t) \<longrightarrow>
         HeapObjectRef_type h b r = Ok t \<and>
         ObjectRef_oddball_type h b r = Ok (oddball_type t) \<and>
         (\<forall>m. map_ptr (data_at b (data_ptr r)) = Some m \<longrightarrow>
              HeapObjectRef_map n h b r = Ok (\<lparr>data_ptr = m\<rparr>, b))) \<and>
      (InstanceTypeChecker_Is h JSFunction (instance_type t) \<longrightarrow>
         (\<forall>s. shared (data_at b (data_ptr r)) = Some s \<longrightarrow>
              JSFunctionRef_shared n h b r = Ok (\<lparr>data_ptr = s\<rparr>, b))) \<and>
      (InstanceTypeChecker_Is h NativeContext (instance_type t) \<longrightarrow>
         (\<forall>m. sloppy_arguments_map (data_at b (data_ptr r)) = Some m \<longrightarrow>
              NativeContextRef_sloppy_arguments_map n h b r = Ok (\<lparr>data_ptr = m\<rparr>, b)))) \<and>
   (mode b \<noteq> kDisabled \<and> is_smi (data_at b (data_ptr r)) \<longrightarrow>
      ObjectRef_Is h b N r = Ok False \<and> ObjectRef_oddball_type h b r = Ok kNone) \<and>
   (mode b \<noteq> kDisabled \<and> InstanceTypeChecker_Is h' = InstanceTypeChecker_Is h \<longrightarrow>
      HeapObjectRef_map n' h' b r = HeapObjectRef_map n h b r \<and>
      HeapObjectRef_type h' b r = HeapObjectRef_type h b r \<and>
      JSFunctionRef_shared n' h' b r = JSFunctionRef_shared n h b r \<and>
      NativeContextRef_sloppy_arguments_map n' h' b r =
        NativeContextRef_sloppy_arguments_map n h b r \<and>
      ObjectRef_Is h' b N r = ObjectRef_Is h b N r \<and>
      ObjectRef_oddball_type h' b r = ObjectRef_oddball_type h b r) \<and>
   ObjectRef_IsSmi b r = is_smi (data_at b (data_ptr r)) \<and>
   StringRef_length h b r = String_length h (object (data_at b (data_ptr r))) \<and>
   HeapNumberRef_value h b r = HeapNumber_value h (object (data_at b (data_ptr r)))"
proof -
  let ?d = "data_at b (data_ptr r)"
  have live: "mode b = kDisabled \<longrightarrow>
      HeapObjectRef_map n h b r = ObjectRef_ctor n h b (HeapObject_map h (object ?d)) \<and>
      HeapObjectRef_type h b r = Ok (HeapObjectTypeFromMap h (HeapObject_map h (object ?d))) \<and>
      JSFunctionRef_shared n h b r = ObjectRef_ctor n h b (JSFunction_shared h (object ?d)) \<and>
      NativeContextRef_sloppy_arguments_map n h b r =
        ObjectRef_ctor n h b (Context_sloppy_arguments_map h (object ?d)) \<and>
      ObjectRef_Is h b N r = Ok (Object_Is h N (object ?d)) \<and>
      (\<not> is_smi ?d \<longrightarrow>
         ObjectRef_oddball_type h b r =
           Ok (oddball_type (HeapObjectTypeFromMap h (HeapObject_map h (object ?d)))))"
    by (simp add: HeapObjectRef_map_def HeapObjectRef_type_def JSFunctionRef_shared_def
          NativeContextRef_sloppy_arguments_map_def ObjectRef_object_def ObjectRef_Is_def
          ObjectData_Is_def ObjectRef_oddball_type_def ObjectRef_IsSmi_def)
  have snap: "mode b \<noteq> kDisabled \<and> \<not> is_smi ?d \<and> type ?d = Some t \<longrightarrow>
      ObjectRef_Is h b N r = Ok (InstanceTypeChecker_Is h N (instance_type t)) \<and>
      (InstanceTypeChecker_Is h HeapObject (instance_type t) \<longrightarrow>
         HeapObjectRef_type h b r = Ok t \<and>
         ObjectRef_oddball_type h b r = Ok (oddball_type t) \<and>
         (\<forall>m. map_ptr ?d = Some m \<longrightarrow> HeapObjectRef_map n h b r = Ok (\<lparr>data_ptr = m\<rparr>, b))) \<and>
      (InstanceTypeChecker_Is h JSFunction (instance_type t) \<longrightarrow>
         (\<forall>s. shared ?d = Some s \<longrightarrow> JSFunctionRef_shared n h b r = Ok (\<lparr>data_ptr = s\<rparr>, b))) \<and>
      (InstanceTypeChecker_Is h NativeContext (instance_type t) \<longrightarrow>
         (\<forall>m. sloppy_arguments_map ?d = Some m \<longrightarrow>
              NativeContextRef_sloppy_arguments_map n h b r = Ok (\<lparr>data_ptr = m\<rparr>, b)))"
  proof (intro impI, elim conjE)
    assume m: "mode b \<noteq> kDisabled" and s: "\<not> is_smi ?d" and t: "type ?d = Some t"
    note as = ObjectData_As_snapshot[OF m s t]
    have 1: "ObjectRef_Is h b N r = Ok (InstanceTypeChecker_Is h N (instance_type t))"
      using ObjectData_Is_snapshot(2)[OF m s t] by (simp add: ObjectRef_Is_def)
    have 2: "InstanceTypeChecker_Is h HeapObject (instance_type t) \<longrightarrow>
         HeapObjectRef_type h b r = Ok t \<and>
         ObjectRef_oddball_type h b r = Ok (oddball_type t) \<and>
         (\<forall>m. map_ptr ?d = Some m \<longrightarrow> HeapObjectRef_map n h b r = Ok (\<lparr>data_ptr = m\<rparr>, b))"
      using m s t as[of h HeapObject]
      by (simp add: HeapObjectRef_type_def HeapObjectRef_map_def ObjectRef_oddball_type_def
            ObjectRef_IsSmi_def)
    have 3: "InstanceTypeChecker_Is h JSFunction (instance_type t) \<longrightarrow>
         (\<forall>s. shared ?d = Some s \<longrightarrow> JSFunctionRef_shared n h b r = Ok (\<lparr>data_ptr = s\<rparr>, b))"
      using m as[of h JSFunction] by (simp add: JSFunctionRef_shared_def)
    have 4: "InstanceTypeChecker_Is h NativeContext (instance_type t) \<longrightarrow>
         (\<forall>m. sloppy_arguments_map ?d = Some m \<longrightarrow>
              NativeContextRef_sloppy_arguments_map n h b r = Ok (\<lparr>data_ptr = m\<rparr>, b))"
      using m as[of h NativeContext] by (simp add: NativeContextRef_sloppy_arguments_map_def)
    from 1 2 3 4 show "ObjectRef_Is h b N r = Ok (InstanceTypeChecker_Is h N (instance_type t)) \<and>
      (InstanceTypeChecker_Is h HeapObject (instance_type t) \<longrightarrow>
         HeapObjectRef_type h b r = Ok t \<and>
         ObjectRef_oddball_type h b r = Ok (oddball_type t) \<and>
         (\<forall>m. map_ptr ?d = Some m \<longrightarrow> HeapObjectRef_map n h b r = Ok (\<lparr>data_ptr = m\<rparr>, b))) \<and>
      (InstanceTypeChecker_Is h JSFunction (instance_type t) \<longrightarrow>
         (\<forall>s. shared ?d = Some s \<longrightarrow> JSFunctionRef_shared n h b r = Ok (\<lparr>data_ptr = s\<rparr>, b))) \<and>
      (InstanceTypeChecker_Is h NativeContext (instance_type t) \<longrightarrow>
         (\<forall>m. sloppy_arguments_map ?d = Some m \<longrightarrow>
              NativeContextRef_sloppy_arguments_map n h b r = Ok (\<lparr>data_ptr = m\<rparr>, b)))"
      by (intro conjI)
  qed
  have smi: "mode b \<noteq> kDisabled \<and> is_smi ?d \<longrightarrow>
      ObjectRef_Is h b N r = Ok False \<and> ObjectRef_oddball_type h b r = Ok kNone"
    by (simp add: ObjectRef_Is_def ObjectData_Is_def ObjectRef_oddball_type_def ObjectRef_IsSmi_def)
  have ind: "mode b \<noteq> kDisabled \<and> InstanceTypeChecker_Is h' = InstanceTypeChecker_Is h \<longrightarrow>
      HeapObjectRef_map n' h' b r = HeapObjectRef_map n h b r \<and>
      HeapObjectRef_type h' b r = HeapObjectRef_type h b r \<and>
      JSFunctionRef_shared n' h' b r = JSFunctionRef_shared n h b r \<and>
      NativeContextRef_sloppy_arguments_map n' h' b r =
        NativeContextRef_sloppy_arguments_map n h b r \<and>
      ObjectRef_Is h' b N r = ObjectRef_Is h b N r \<and>
      ObjectRef_oddball_type h' b r = ObjectRef_oddball_type h b r"
  proof (intro impI, elim conjE)
    assume m: "mode b \<noteq> kDisabled" and e: "InstanceTypeChecker_Is h' = InstanceTypeChecker_Is h"
    note as = ObjectData_As_heap_independent[OF m e]
    have isq: "ObjectData_Is h' b N (data_ptr r) = ObjectData_Is h b N (data_ptr r)"
      using m e by (simp add: ObjectData_Is_def split: option.splits)
    have ty: "HeapObjectRef_type h' b r = HeapObjectRef_type h b r"
      using m as by (simp add: HeapObjectRef_type_def)
    show "HeapObjectRef_map n' h' b r = HeapObjectRef_map n h b r \<and>
      HeapObjectRef_type h' b r = HeapObjectRef_type h b r \<and>
      JSFunctionRef_shared n' h' b r = JSFunctionRef_shared n h b r \<and>
      NativeContextRef_sloppy_arguments_map n' h' b r =
        NativeContextRef_sloppy_arguments_map n h b r \<and>
      ObjectRef_Is h' b N r = ObjectRef_Is h b N r \<and>
      ObjectRef_oddball_type h' b r = ObjectRef_oddball_type h b r"
      using m as isq ty
      by (simp add: HeapObjectRef_map_def JSFunctionRef_shared_def
            NativeContextRef_sloppy_arguments_map_def ObjectRef_Is_def ObjectRef_oddball_type_def)
  qed
  have c: "ObjectRef_IsSmi b r = is_smi ?d" by (simp add: ObjectRef_IsSmi_def)
  have d1: "StringRef_length h b r = String_length h (object ?d)"
    by (simp add: StringRef_length_def ObjectRef_object_def)
  have d2: "HeapNumberRef_value h b r = HeapNumber_value h (object ?d)"
    by (simp add: HeapNumberRef_value_def ObjectRef_object_def)
  from live snap smi ind c d1 d2 show ?thesis by (intro conjI)
qed

theorem accessor_resolution_by_mode_witness:
  "mode (example_string_broker\<lparr>mode := kDisabled\<rparr>) = kDisabled \<and>
   HeapObjectRef_map 4 example_isolate (example_string_broker\<lparr>mode := kDisabled\<rparr>) \<lparr>data_ptr = 0\<rparr> =
     Ok (\<lparr>data_ptr = 1\<rparr>, example_string_broker\<lparr>mode := kDisabled\<rparr>) \<and>
   ObjectRef_Is example_isolate (example_string_broker\<lparr>mode := kDisabled\<rparr>) String \<lparr>data_ptr = 0\<rparr> =
     Ok True \<and>
   mode example_string_broker \<noteq> kDisabled \<and>
   \<not> is_smi (data_at example_string_broker 0) \<and>
   type (data_at example_string_broker 0) =
     Some \<lparr>instance_type = 50, flags = {}, oddball_type = kNone\<rparr> \<and>
   map_ptr (data_at example_string_broker 0) = Some 1 \<and>
   HeapObjectRef_map 0 example_isolate2 example_string_broker \<lparr>data_ptr = 0\<rparr> =
     Ok (\<lparr>data_ptr = 1\<rparr>, example_string_broker) \<and>
   HeapObjectRef_type example_isolate example_string_broker \<lparr>data_ptr = 0\<rparr> =
     Ok \<lparr>instance_type = 50, flags = {}, oddball_type = kNone\<rparr> \<and>
   ObjectRef_oddball_type example_isolate example_string_broker \<lparr>data_ptr = 0\<rparr> = Ok kNone \<and>
   ObjectRef_Is example_isolate example_string_broker String \<lparr>data_ptr = 0\<rparr> = Ok True \<and>
   ObjectRef_Is example_isolate example_string_broker Map \<lparr>data_ptr = 0\<rparr> = Ok False \<and>
   shared (data_at example_function_broker 0) = Some 3 \<and>
   JSFunctionRef_shared 0 example_isolate example_function_broker \<lparr>data_ptr = 0\<rparr> =
     Ok (\<lparr>data_ptr = 3\<rparr>, example_function_broker) \<and>
   sloppy_arguments_map (data_at example_context_broker 0) = Some 3 \<and>
   NativeContextRef_sloppy_arguments_map 0 example_isolate example_context_broker \<lparr>data_ptr = 0\<rparr> =
     Ok (\<lparr>data_ptr = 3\<rparr>, example_context_broker) \<and>
   is_smi (data_at example_broker 0) \<and>
   ObjectRef_Is example_isolate example_broker HeapObject \<lparr>data_ptr = 0\<rparr> = Ok False \<and>
   ObjectRef_IsSmi example_broker \<lparr>data_ptr = 0\<rparr> \<and>
   StringRef_length example_isolate example_string_broker \<lparr>data_ptr = 0\<rparr> = 3"
proof -
  let ?h = example_isolate
  let ?sb = example_string_broker
  let ?lb = "example_string_broker\<lparr>mode := kDisabled\<rparr>"
  let ?r = "\<lparr>data_ptr = 0\<rparr>"
  let ?t = "\<lparr>instance_type = 50, flags = {}, oddball_type = kNone\<rparr>"
  have l1: "mode ?lb = kDisabled" by simp
  have l2: "ObjectRef_ctor 4 ?h ?lb 8 = Ok (\<lparr>data_ptr = 1\<rparr>, ?lb)"
    by (simp add: ObjectRef_ctor_def GetData_def example_string_broker_def)
  have l3: "HeapObject_map ?h (object (data_at ?lb (data_ptr ?r))) = 8"
    "Object_Is ?h String (object (data_at ?lb (data_ptr ?r)))"
    by (simp_all add: data_at_def example_string_broker_def example_defs)
  from accessor_resolution_by_mode[where b="?lb" and h="?h" and r="?r" and n=4 and N=String] l1 l2 l3
  have live: "HeapObjectRef_map 4 ?h ?lb ?r = Ok (\<lparr>data_ptr = 1\<rparr>, ?lb) \<and>
              ObjectRef_Is ?h ?lb String ?r = Ok True"
    by simp
  have s1: "mode ?sb \<noteq> kDisabled" "\<not> is_smi (data_at ?sb (data_ptr ?r))"
    "type (data_at ?sb (data_ptr ?r)) = Some ?t" "map_ptr (data_at ?sb (data_ptr ?r)) = Some 1"
    by (simp_all add: example_string_broker_def data_at_def)
  have s2: "InstanceTypeChecker_Is ?h HeapObject (instance_type ?t)"
    "InstanceTypeChecker_Is ?h String (instance_type ?t)"
    "\<not> InstanceTypeChecker_Is ?h Map (instance_type ?t)"
    "InstanceTypeChecker_Is example_isolate2 HeapObject (instance_type ?t)"
    by (simp_all add: example_defs example_isolate2_def)
  from accessor_resolution_by_mode[where b="?sb" and h="?h" and r="?r" and t="?t" and N=String
      and n=0] s1 s2
  have snap1: "HeapObjectRef_type ?h ?sb ?r = Ok ?t \<and> ObjectRef_oddball_type ?h ?sb ?r = Ok kNone \<and>
               ObjectRef_Is ?h ?sb String ?r = Ok True"
    by simp
  from accessor_resolution_by_mode[where b="?sb" and h="example_isolate2" and r="?r" and t="?t"
      and N=Map and n=0] s1 s2
  have snap2: "HeapObjectRef_map 0 example_isolate2 ?sb ?r = Ok (\<lparr>data_ptr = 1\<rparr>, ?sb)"
    by simp
  from accessor_resolution_by_mode[where b="?sb" and h="?h" and r="?r" and t="?t" and N=Map
      and n=0] s1 s2
  have snap3: "ObjectRef_Is ?h ?sb Map ?r = Ok False"
    by simp
  let ?fb = example_function_broker
  let ?ft = "\<lparr>instance_type = 30, flags = {kCallable}, oddball_type = kNone\<rparr>"
  have f1: "mode ?fb \<noteq> kDisabled" "\<not> is_smi (data_at ?fb (data_ptr ?r))"
    "type (data_at ?fb (data_ptr ?r)) = Some ?ft" "shared (data_at ?fb (data_ptr ?r)) = Some 3"
    by (simp_all add: example_function_broker_def data_at_def)
  have f2: "InstanceTypeChecker_Is ?h JSFunction (instance_type ?ft)" by (simp add: example_defs)
  from accessor_resolution_by_mode[where b="?fb" and h="?h" and r="?r" and t="?ft" and n=0] f1 f2
  have fn: "JSFunctionRef_shared 0 ?h ?fb ?r = Ok (\<lparr>data_ptr = 3\<rparr>, ?fb)"
    by simp
  let ?cb = example_context_broker
  let ?ct = "\<lparr>instance_type = 70, flags = {}, oddball_type = kNone\<rparr>"
  have c1: "mode ?cb \<noteq> kDisabled" "\<not> is_smi (data_at ?cb (data_ptr ?r))"
    "type (data_at ?cb (data_ptr ?r)) = Some ?ct"
    "sloppy_arguments_map (data_at ?cb (data_ptr ?r)) = Some 3"
    by (simp_all add: example_context_broker_def data_at_def)
  have c2: "InstanceTypeChecker_Is ?h NativeContext (instance_type ?ct)" by (simp add: example_defs)
  from accessor_resolution_by_mode[where b="?cb" and h="?h" and r="?r" and t="?ct" and n=0] c1 c2
  have cx: "NativeContextRef_sloppy_arguments_map 0 ?h ?cb ?r = Ok (\<lparr>data_ptr = 3\<rparr>, ?cb)"
    by simp
  have m1: "mode example_broker \<noteq> kDisabled" "is_smi (data_at example_broker (data_ptr ?r))"
    by (simp_all add: example_broker_def data_at_def)
  from accessor_resolution_by_mode[where b="example_broker" and h="?h" and r="?r" and N=HeapObject] m1
  have sm: "ObjectRef_Is ?h example_broker HeapObject ?r = Ok False \<and>
            ObjectRef_IsSmi example_broker ?r"
    by simp
  have len: "String_length ?h (object (data_at ?sb (data_ptr ?r))) = 3"
    by (simp add: data_at_def example_string_broker_def example_defs)
  from accessor_resolution_by_mode[where b="?sb" and h="?h" and r="?r"] len
  have sl: "StringRef_length ?h ?sb ?r = 3" by simp
  from l1 live s1 snap1 snap2 snap3 f1 fn c1 cx m1 sm sl show ?thesis by simp
qed

subsection \<open>The fast-literal analysis: nesting and the count budget\<close>

declare IsFastLiteralHelper.simps [simp del]

lemma IsFastLiteralHelper_0:
  "IsFastLiteralHelper H a 0 w = (False, w\<lparr>migrations := migrations w @ [a]\<rparr>)"
  by (simp add: IsFastLiteralHelper.simps Let_def)

lemma IsFastLiteralHelper_not_migrated:
  "\<not> TryMigrateInstance (JSObject_at H a) \<Longrightarrow>
   IsFastLiteralHelper H a d w = (False, w\<lparr>migrations := migrations w @ [a]\<rparr>)"
  by (simp add: IsFastLiteralHelper.simps Let_def)

lemma elements_loop_true:
  assumes "fst (elements_loop H vs d w)" "v \<in> set vs" "Object_IsJSObject H v"
  shows "\<exists>w'. fst (IsFastLiteralHelper H v d w')"
  using assms
proof (induction vs arbitrary: w)
  case Nil
  then show ?case by simp
next
  case (Cons x xs)
  from Cons.prems(1) have nz: "max_properties w \<noteq> 0" by (auto split: if_splits)
  show ?case
  proof (cases "Object_IsJSObject H x")
    case True
    obtain ok w2 where r: "IsFastLiteralHelper H x d (decrement w) = (ok, w2)" by fastforce
    with Cons.prems(1) nz True have ok: "ok" and rest: "fst (elements_loop H xs d w2)"
      by (auto simp: Let_def split: if_splits)
    show ?thesis
    proof (cases "v = x")
      case True
      with r ok show ?thesis by (metis fst_conv)
    next
      case False
      with Cons.prems(2) have "v \<in> set xs" by simp
      from Cons.IH[OF rest this Cons.prems(3)] show ?thesis .
    qed
  next
    case False
    with Cons.prems(1) nz have rest: "fst (elements_loop H xs d (decrement w))"
      by (simp add: Let_def)
    from False Cons.prems(2,3) have "v \<in> set xs" by auto
    from Cons.IH[OF rest this Cons.prems(3)] show ?thesis .
  qed
qed

lemma properties_loop_true:
  assumes "fst (properties_loop H ps d w)" "p \<in> set ps" "location p = kField"
    "\<not> IsUnboxedDoubleField p" "Object_IsJSObject H (RawFastPropertyAt p)"
  shows "\<exists>w'. fst (IsFastLiteralHelper H (RawFastPropertyAt p) d w')"
  using assms(1,2)
proof (induction ps arbitrary: w)
  case Nil
  then show ?case by simp
next
  case (Cons x xs)
  show ?case
  proof (cases "location x = kField")
    case False
    with Cons.prems(1) have rest: "fst (properties_loop H xs d w)" by simp
    from False Cons.prems(2) assms(3) have "p \<in> set xs" by auto
    from Cons.IH[OF rest this] show ?thesis .
  next
    case field: True
    from Cons.prems(1) field have nz: "max_properties w \<noteq> 0" by (auto split: if_splits)
    show ?thesis
    proof (cases "\<not> IsUnboxedDoubleField x \<and> Object_IsJSObject H (RawFastPropertyAt x)")
      case True
      obtain ok w2 where r: "IsFastLiteralHelper H (RawFastPropertyAt x) d (decrement w) = (ok, w2)"
        by fastforce
      with Cons.prems(1) nz True field have ok: "ok" and rest: "fst (properties_loop H xs d w2)"
        by (auto simp: Let_def split: if_splits)
      show ?thesis
      proof (cases "p = x")
        case True
        with r ok show ?thesis by (metis fst_conv)
      next
        case False
        with Cons.prems(2) have "p \<in> set xs" by simp
        from Cons.IH[OF rest this] show ?thesis .
      qed
    next
      case False
      with Cons.prems(1) nz field have rest: "fst (properties_loop H xs d (decrement w))"
        by (auto simp: Let_def split: if_splits)
      from False Cons.prems(2) assms(4,5) have "p \<in> set xs" by auto
      from Cons.IH[OF rest this] show ?thesis .
    qed
  qed
qed

lemma IsFastLiteralHelper_true_nested:
  assumes "fst (IsFastLiteralHelper H a (Suc d) w)" "c \<in> set (nested_objects H a)"
  shows "\<exists>w'. fst (IsFastLiteralHelper H c d w')"
proof -
  let ?obj = "JSObject_at H a"
  let ?w1 = "w\<lparr>migrations := migrations w @ [a]\<rparr>"
  from assms(2) have cj: "Object_IsJSObject H c"
    and c: "c \<in> set (walked_elements ?obj) \<or> c \<in> set (walked_fields ?obj)"
    by (auto simp: nested_objects_def)
  from c show ?thesis
  proof
    assume ce: "c \<in> set (walked_elements ?obj)"
    then have we: "0 < length (contents (elements ?obj))"
      "\<not> map_is_fixed_cow_array_map (elements ?obj)" "HasSmiOrObjectElements ?obj"
      and cin: "c \<in> set (contents (elements ?obj))"
      by (auto simp: walked_elements_def split: if_splits)
    from assms(1) we have "fst (elements_loop H (contents (elements ?obj)) d ?w1)"
      by (auto simp: IsFastLiteralHelper.simps Let_def split: if_splits prod.splits)
    from elements_loop_true[OF this cin cj] show ?thesis .
  next
    assume "c \<in> set (walked_fields ?obj)"
    then obtain p where p: "p \<in> set (own_descriptors ?obj)" "location p = kField"
      "\<not> IsUnboxedDoubleField p" "c = RawFastPropertyAt p"
      by (auto simp: walked_fields_def counted_fields_def)
    from assms(1) obtain w2 where "fst (properties_loop H (own_descriptors ?obj) d w2)"
      by (auto simp: IsFastLiteralHelper.simps Let_def split: if_splits prod.splits)
    from properties_loop_true[OF this p(1,2,3)] cj p(4) show ?thesis by simp
  qed
qed

lemma nested_chain_too_deep:
  assumes "nested_chain H (a # cs)" "d \<le> length cs"
  shows "\<not> fst (IsFastLiteralHelper H a d w)"
  using assms
proof (induction d arbitrary: a cs w)
  case 0
  show ?case by (simp add: IsFastLiteralHelper_0)
next
  case (Suc d)
  from Suc.prems(2) obtain c cs' where cs: "cs = c # cs'" by (cases cs) auto
  with Suc.prems have c: "c \<in> set (nested_objects H a)" and ch: "nested_chain H (c # cs')"
    and len: "d \<le> length cs'" by simp_all
  show ?case
  proof
    assume "fst (IsFastLiteralHelper H a (Suc d) w)"
    from IsFastLiteralHelper_true_nested[OF this c] obtain w' where
      "fst (IsFastLiteralHelper H c d w')" by blast
    with Suc.IH[OF ch len] show False by blast
  qed
qed

lemma total_count_nonneg: "0 \<le> total_count H d a"
proof (induction d arbitrary: a)
  case 0
  show ?case by simp
next
  case (Suc d)
  have "0 \<le> sum_list (map (total_count H d) (nested_objects H a))"
    by (rule sum_list_nonneg) (auto simp: Suc)
  then show ?case by simp
qed

lemma sum_total_count_nonneg: "0 \<le> sum_list (map (total_count H d) xs)"
  by (rule sum_list_nonneg) (auto simp: total_count_nonneg)

lemma elements_cost_simps [simp]:
  "elements_cost H d [] = 0"
  "elements_cost H d (v # vs) =
     1 + (if Object_IsJSObject H v then total_count H d v else 0) + elements_cost H d vs"
  by (simp_all add: elements_cost_def)

lemma elements_cost_nonneg: "0 \<le> elements_cost H d vs"
  using sum_total_count_nonneg[of H d] by (simp add: elements_cost_def)

lemma fields_cost_simps [simp]:
  "fields_cost H d [] = 0"
  "fields_cost H d (p # ps) =
     (if location p = kField then
        1 + (if \<not> IsUnboxedDoubleField p \<and> Object_IsJSObject H (RawFastPropertyAt p)
             then total_count H d (RawFastPropertyAt p) else 0)
      else 0) + fields_cost H d ps"
  by (simp_all add: fields_cost_def fields_values_def)

lemma fields_cost_nonneg: "0 \<le> fields_cost H d ps"
  using sum_total_count_nonneg[of H d] by (simp add: fields_cost_def)

lemma max_properties_decrement [simp]: "max_properties (decrement w) = max_properties w - 1"
  by (simp add: decrement_def)

lemma budgeted_False:
  "\<not> (ok \<and> cost \<le> max_properties w) \<Longrightarrow> budgeted (False, w') w ok cost"
  by (simp add: budgeted_def)

lemma elements_loop_budgeted:
  assumes IH: "\<And>v w. 0 \<le> max_properties w \<Longrightarrow>
                 budgeted (IsFastLiteralHelper H v d w) w (walk_ok H d v) (total_count H d v)"
    and "0 \<le> max_properties w"
  shows "budgeted (elements_loop H vs d w) w
           (\<forall>v \<in> set vs. Object_IsJSObject H v \<longrightarrow> walk_ok H d v) (elements_cost H d vs)"
  using assms(2)
proof (induction vs arbitrary: w)
  case Nil
  then show ?case by (simp add: budgeted_def)
next
  case (Cons x xs)
  note nn = elements_cost_nonneg[of H d xs] total_count_nonneg[of H d x]
  show ?case
  proof (cases "max_properties w = 0")
    case True
    then show ?thesis using nn by (simp add: budgeted_def)
  next
    case nz: False
    with Cons.prems have w1: "0 \<le> max_properties (decrement w)" by simp
    show ?thesis
    proof (cases "Object_IsJSObject H x")
      case False
      from Cons.IH[OF w1] False nz show ?thesis
        by (simp add: budgeted_def Let_def) (auto simp: algebra_simps)
    next
      case obj: True
      obtain ok w2 where r: "IsFastLiteralHelper H x d (decrement w) = (ok, w2)" by fastforce
      from IH[OF w1, of x] r have b: "budgeted (ok, w2) (decrement w) (walk_ok H d x) (total_count H d x)"
        by simp
      show ?thesis
      proof (cases ok)
        case False
        with b have "\<not> (walk_ok H d x \<and> total_count H d x \<le> max_properties w - 1)"
          by (simp add: budgeted_def)
        then have "\<not> ((\<forall>v \<in> set (x # xs). Object_IsJSObject H v \<longrightarrow> walk_ok H d v) \<and>
                   elements_cost H d (x # xs) \<le> max_properties w)"
          using nn obj by auto
        then show ?thesis using False r nz obj by (simp add: budgeted_def Let_def)
      next
        case True
        with b have okx: "walk_ok H d x" and le: "total_count H d x \<le> max_properties w - 1"
          and m2: "max_properties w2 = max_properties w - 1 - total_count H d x"
          by (simp_all add: budgeted_def)
        from le m2 have "0 \<le> max_properties w2" by simp
        from Cons.IH[OF this] True r nz obj okx m2 show ?thesis
          by (simp add: budgeted_def Let_def) (auto simp: algebra_simps)
      qed
    qed
  qed
qed

lemma properties_loop_budgeted:
  assumes IH: "\<And>v w. 0 \<le> max_properties w \<Longrightarrow>
                 budgeted (IsFastLiteralHelper H v d w) w (walk_ok H d v) (total_count H d v)"
    and "0 \<le> max_properties w"
  shows "budgeted (properties_loop H ps d w) w
           (\<forall>v \<in> set (fields_values ps). Object_IsJSObject H v \<longrightarrow> walk_ok H d v)
           (fields_cost H d ps)"
  using assms(2)
proof (induction ps arbitrary: w)
  case Nil
  then show ?case by (simp add: budgeted_def fields_values_def)
next
  case (Cons x xs)
  note nn = fields_cost_nonneg[of H d xs] total_count_nonneg[of H d "RawFastPropertyAt x"]
  show ?case
  proof (cases "location x = kField")
    case False
    with Cons.IH[OF Cons.prems] show ?thesis by (simp add: budgeted_def fields_values_def)
  next
    case field: True
    show ?thesis
    proof (cases "max_properties w = 0")
      case True
      then show ?thesis using nn field by (simp add: budgeted_def)
    next
      case nz: False
      with Cons.prems have w1: "0 \<le> max_properties (decrement w)" by simp
      show ?thesis
      proof (cases "\<not> IsUnboxedDoubleField x \<and> Object_IsJSObject H (RawFastPropertyAt x)")
        case False
        from Cons.IH[OF w1] False nz field show ?thesis
          by (simp add: budgeted_def Let_def fields_values_def) (auto simp: algebra_simps)
      next
        case obj: True
        let ?v = "RawFastPropertyAt x"
        obtain ok w2 where r: "IsFastLiteralHelper H ?v d (decrement w) = (ok, w2)" by fastforce
        from IH[OF w1, of ?v] r
        have b: "budgeted (ok, w2) (decrement w) (walk_ok H d ?v) (total_count H d ?v)" by simp
        show ?thesis
        proof (cases ok)
          case False
          with b have "\<not> (walk_ok H d ?v \<and> total_count H d ?v \<le> max_properties w - 1)"
            by (simp add: budgeted_def)
          then have "\<not> ((\<forall>v \<in> set (fields_values (x # xs)). Object_IsJSObject H v \<longrightarrow> walk_ok H d v) \<and>
                     fields_cost H d (x # xs) \<le> max_properties w)"
            using nn obj field by (auto simp: fields_values_def)
          then show ?thesis using False r nz obj field by (simp add: budgeted_def Let_def)
        next
          case True
          with b have okx: "walk_ok H d ?v" and le: "total_count H d ?v \<le> max_properties w - 1"
            and m2: "max_properties w2 = max_properties w - 1 - total_count H d ?v"
            by (simp_all add: budgeted_def)
          from le m2 have "0 \<le> max_properties w2" by simp
          from Cons.IH[OF this] True r nz obj field okx m2 show ?thesis
            by (simp add: budgeted_def Let_def fields_values_def) (auto simp: algebra_simps)
        qed
      qed
    qed
  qed
qed

lemma budgeted_seq:
  assumes E: "budgeted E w ok1 c1" and c2: "0 \<le> c2"
    and P: "\<And>w2. 0 \<le> max_properties w2 \<Longrightarrow> budgeted (P w2) w2 ok2 c2"
  shows "budgeted (case E of (ok, w2) \<Rightarrow> if \<not> ok then (False, w2) else P w2) w
           (ok1 \<and> ok2) (c1 + c2)"
proof (cases E)
  case (Pair ok w2)
  show ?thesis
  proof (cases ok)
    case False
    with E Pair have "\<not> (ok1 \<and> c1 \<le> max_properties w)" by (simp add: budgeted_def)
    then have "\<not> ((ok1 \<and> ok2) \<and> c1 + c2 \<le> max_properties w)" using c2 by auto
    then show ?thesis using Pair False by (simp add: budgeted_def)
  next
    case True
    with E Pair have o1: ok1 and le: "c1 \<le> max_properties w"
      and m2: "max_properties w2 = max_properties w - c1"
      by (simp_all add: budgeted_def)
    from le m2 have "0 \<le> max_properties w2" by simp
    from P[OF this] o1 m2 Pair True show ?thesis
      by (simp add: budgeted_def) (auto simp: algebra_simps)
  qed
qed

lemma walked_fields_eq: "walked_fields obj = fields_values (own_descriptors obj)"
  by (simp add: walked_fields_def fields_values_def counted_fields_def)

lemma total_count_Suc:
  "total_count H (Suc d) a =
     elements_cost H d (walked_elements (JSObject_at H a)) +
     fields_cost H d (own_descriptors (JSObject_at H a))"
  by (simp add: elements_cost_def fields_cost_def nested_objects_def walked_fields_eq
        counted_fields_def)

lemma walk_ok_Suc:
  "walk_ok H (Suc d) a \<longleftrightarrow>
     TryMigrateInstance (JSObject_at H a) \<and>
     (elements_ok H (JSObject_at H a) \<and>
      (\<forall>v \<in> set (walked_elements (JSObject_at H a)). Object_IsJSObject H v \<longrightarrow> walk_ok H d v)) \<and>
     ((HasFastProperties (JSObject_at H a) \<and> property_array_length (JSObject_at H a) = 0) \<and>
      (\<forall>v \<in> set (fields_values (own_descriptors (JSObject_at H a))).
          Object_IsJSObject H v \<longrightarrow> walk_ok H d v))"
  by (auto simp: nested_objects_def walked_fields_eq)

lemma IsFastLiteralHelper_budgeted:
  "0 \<le> max_properties w \<Longrightarrow>
   budgeted (IsFastLiteralHelper H a d w) w (walk_ok H d a) (total_count H d a)"
proof (induction d arbitrary: a w)
  case 0
  then show ?case by (simp add: IsFastLiteralHelper_0 budgeted_def)
next
  case (Suc d)
  let ?obj = "JSObject_at H a"
  let ?w1 = "w\<lparr>migrations := migrations w @ [a]\<rparr>"
  let ?E = "if 0 < length (contents (elements ?obj)) \<and> \<not> map_is_fixed_cow_array_map (elements ?obj)
            then
              if HasSmiOrObjectElements ?obj then elements_loop H (contents (elements ?obj)) d ?w1
              else if HasDoubleElements ?obj then
                (if kMaxRegularHeapObjectSize H < Size (elements ?obj)
                 then (False, ?w1) else (True, ?w1))
              else (False, ?w1)
            else (True, ?w1)"
  let ?P = "\<lambda>w2. if \<not> (HasFastProperties ?obj \<and> property_array_length ?obj = 0) then (False, w2)
                 else properties_loop H (own_descriptors ?obj) d w2"
  let ?okE = "elements_ok H ?obj \<and>
      (\<forall>v \<in> set (walked_elements ?obj). Object_IsJSObject H v \<longrightarrow> walk_ok H d v)"
  let ?okP = "(HasFastProperties ?obj \<and> property_array_length ?obj = 0) \<and>
      (\<forall>v \<in> set (fields_values (own_descriptors ?obj)). Object_IsJSObject H v \<longrightarrow> walk_ok H d v)"
  have w1: "0 \<le> max_properties ?w1" using Suc.prems by simp
  have loop: "budgeted (elements_loop H vs d ?w1) ?w1
           (\<forall>v \<in> set vs. Object_IsJSObject H v \<longrightarrow> walk_ok H d v) (elements_cost H d vs)" for vs
    by (rule elements_loop_budgeted[OF Suc.IH w1])
  have E: "budgeted ?E ?w1 ?okE (elements_cost H d (walked_elements ?obj))"
  proof (cases "0 < length (contents (elements ?obj)) \<and> \<not> map_is_fixed_cow_array_map (elements ?obj)")
    case False
    then show ?thesis using w1 by (auto simp: budgeted_def walked_elements_def elements_ok_def)
  next
    case nonempty: True
    show ?thesis
    proof (cases "HasSmiOrObjectElements ?obj")
      case True
      with nonempty loop[of "contents (elements ?obj)"] show ?thesis
        by (simp add: walked_elements_def elements_ok_def)
    next
      case False
      with nonempty w1 show ?thesis
        by (auto simp: budgeted_def walked_elements_def elements_ok_def)
    qed
  qed
  have P: "budgeted (?P w2) w2 ?okP (fields_cost H d (own_descriptors ?obj))"
    if "0 \<le> max_properties w2" for w2
  proof (cases "HasFastProperties ?obj \<and> property_array_length ?obj = 0")
    case True
    with properties_loop_budgeted[OF Suc.IH that, of "own_descriptors ?obj"] show ?thesis by simp
  next
    case False
    then have eq: "?P w2 = (False, w2)" by auto
    have n: "\<not> (?okP \<and> fields_cost H d (own_descriptors ?obj) \<le> max_properties w2)"
      using False by blast
    show ?thesis unfolding eq by (rule budgeted_False[OF n])
  qed
  have seq: "budgeted (case ?E of (ok, w2) \<Rightarrow> if \<not> ok then (False, w2) else ?P w2) ?w1
           (?okE \<and> ?okP)
           (elements_cost H d (walked_elements ?obj) + fields_cost H d (own_descriptors ?obj))"
    by (rule budgeted_seq[OF E fields_cost_nonneg P])
  show ?case
  proof (cases "TryMigrateInstance ?obj")
    case False
    then show ?thesis
      by (simp add: IsFastLiteralHelper_not_migrated budgeted_def)
  next
    case True
    have "IsFastLiteralHelper H a (Suc d) w =
            (case ?E of (ok, w2) \<Rightarrow> if \<not> ok then (False, w2) else ?P w2)"
      using True by (simp add: IsFastLiteralHelper.simps Let_def)
    with seq True show ?thesis
      by (simp add: budgeted_def walk_ok_Suc total_count_Suc del: walk_ok.simps total_count.simps)
  qed
qed

subsection \<open>The claims about the fast-literal analysis\<close>

lemmas literal_defs = example_literal_heap_def example_object_def example_field_def
  example_site_broker_def AllocationSiteRef_IsFastLiteral_def kMaxFastLiteralDepth_def
  kMaxFastLiteralProperties_def ObjectRef_object_def data_at_def IsFastLiteralHelper.simps
  decrement_def Let_def

lemma flat_object_count:
  assumes "contents (elements (JSObject_at H a)) = []"
    and "\<forall>p \<in> set (own_descriptors (JSObject_at H a)).
           location p = kField \<and> \<not> Object_IsJSObject H (RawFastPropertyAt p)"
  shows "nested_objects H a = []"
    and "total_count H (Suc d) a = int (length (own_descriptors (JSObject_at H a)))"
proof -
  have f: "filter (\<lambda>p. location p = kField) (own_descriptors (JSObject_at H a)) =
           own_descriptors (JSObject_at H a)"
    using assms(2) by (simp add: filter_id_conv)
  have "filter (Object_IsJSObject H) (walked_fields (JSObject_at H a)) = []"
    using assms(2) by (auto simp: walked_fields_def counted_fields_def filter_empty_conv)
  then show n: "nested_objects H a = []"
    using assms(1) by (simp add: nested_objects_def walked_elements_def)
  show "total_count H (Suc d) a = int (length (own_descriptors (JSObject_at H a)))"
    using assms(1) n f by (simp add: walked_elements_def counted_fields_def)
qed

lemma flat_object_walk_ok:
  assumes "TryMigrateInstance (JSObject_at H a)" "contents (elements (JSObject_at H a)) = []"
    and "HasFastProperties (JSObject_at H a)" "property_array_length (JSObject_at H a) = 0"
    and "\<forall>p \<in> set (own_descriptors (JSObject_at H a)).
           location p = kField \<and> \<not> Object_IsJSObject H (RawFastPropertyAt p)"
  shows "walk_ok H (Suc d) a"
  using assms flat_object_count(1)[OF assms(2) assms(5)] by (simp add: elements_ok_def)

lemma IsFastLiteralHelper_cow:
  assumes "map_is_fixed_cow_array_map (elements (JSObject_at H a))"
  shows "IsFastLiteralHelper H a (Suc d) w =
           (let w1 = w\<lparr>migrations := migrations w @ [a]\<rparr>; obj = JSObject_at H a
            in if \<not> TryMigrateInstance obj then (False, w1)
               else if \<not> (HasFastProperties obj \<and> property_array_length obj = 0) then (False, w1)
               else properties_loop H (own_descriptors obj) d w1)"
  using assms by (simp add: IsFastLiteralHelper.simps Let_def)

text \<open>Claim C6. The analysis answers ineligible whenever the boilerplate graph is nested deeper
  than the depth budget, which is 3: when a chain of objects, each nested in the one before
  it, starts at the object and has more objects than the budget left, the helper fails; so an
  allocation site whose boilerplate starts a chain of 4 objects is not a fast literal. With no
  depth left the helper fails after the migration of the object was attempted (the object is
  in the migration log) and before any element or property is counted (the counter is
  untouched), and a failed migration is reported the same way at every depth.\<close>

theorem fast_literal_depth_bound:
  "IsFastLiteralHelper H a 0 w = (False, w\<lparr>migrations := migrations w @ [a]\<rparr>) \<and>
   (\<not> TryMigrateInstance (JSObject_at H a) \<longrightarrow>
      IsFastLiteralHelper H a d w = (False, w\<lparr>migrations := migrations w @ [a]\<rparr>)) \<and>
   (nested_chain H (a # cs) \<and> d \<le> length cs \<longrightarrow> \<not> fst (IsFastLiteralHelper H a d w)) \<and>
   kMaxFastLiteralDepth = 3 \<and>
   (nested_chain H (AllocationSite_boilerplate H (ObjectRef_object b r) # cs') \<and>
    3 \<le> length cs' \<longrightarrow> \<not> AllocationSiteRef_IsFastLiteral H b r)"
proof -
  have c1: "IsFastLiteralHelper H a 0 w = (False, w\<lparr>migrations := migrations w @ [a]\<rparr>)"
    by (rule IsFastLiteralHelper_0)
  have c2: "\<not> TryMigrateInstance (JSObject_at H a) \<longrightarrow>
      IsFastLiteralHelper H a d w = (False, w\<lparr>migrations := migrations w @ [a]\<rparr>)"
    by (simp add: IsFastLiteralHelper_not_migrated)
  have c3: "nested_chain H (a # cs) \<and> d \<le> length cs \<longrightarrow> \<not> fst (IsFastLiteralHelper H a d w)"
    using nested_chain_too_deep by blast
  have c4: "kMaxFastLiteralDepth = 3" by (simp add: kMaxFastLiteralDepth_def)
  have c5: "nested_chain H (AllocationSite_boilerplate H (ObjectRef_object b r) # cs') \<and>
    3 \<le> length cs' \<longrightarrow> \<not> AllocationSiteRef_IsFastLiteral H b r"
    unfolding AllocationSiteRef_IsFastLiteral_def kMaxFastLiteralDepth_def
    using nested_chain_too_deep by blast
  from c1 c2 c3 c4 c5 show ?thesis by (intro conjI)
qed

theorem fast_literal_depth_bound_witness:
  "nested_chain example_literal_heap [20, 21, 22, 23] \<and>
   \<not> AllocationSiteRef_IsFastLiteral example_literal_heap example_site_broker \<lparr>data_ptr = 0\<rparr> \<and>
   nested_chain example_literal_heap [21, 22, 23] \<and>
   AllocationSiteRef_IsFastLiteral example_literal_heap example_site_broker \<lparr>data_ptr = 1\<rparr> \<and>
   \<not> TryMigrateInstance (JSObject_at example_literal_heap 33) \<and>
   IsFastLiteralHelper example_literal_heap 33 3 \<lparr>max_properties = 4, migrations = []\<rparr> =
     (False, \<lparr>max_properties = 4, migrations = [33]\<rparr>) \<and>
   IsFastLiteralHelper example_literal_heap 23 0 \<lparr>max_properties = 4, migrations = []\<rparr> =
     (False, \<lparr>max_properties = 4, migrations = [23]\<rparr>) \<and>
   \<not> fst (IsFastLiteralHelper example_literal_heap 20 3 \<lparr>max_properties = 4, migrations = []\<rparr>)"
proof -
  have ch: "nested_chain example_literal_heap [20, 21, 22, 23]"
    by (simp add: example_literal_heap_def example_object_def example_field_def
        nested_objects_def walked_elements_def walked_fields_def counted_fields_def)
  have ch': "nested_chain example_literal_heap [21, 22, 23]"
    by (simp add: example_literal_heap_def example_object_def example_field_def
        nested_objects_def walked_elements_def walked_fields_def counted_fields_def)
  have bp: "AllocationSite_boilerplate example_literal_heap
              (ObjectRef_object example_site_broker \<lparr>data_ptr = 0\<rparr>) = 20"
    by (simp add: example_literal_heap_def example_site_broker_def ObjectRef_object_def
        data_at_def)
  have nm: "\<not> TryMigrateInstance (JSObject_at example_literal_heap 33)"
    by (simp add: example_literal_heap_def example_object_def)
  have ok: "AllocationSiteRef_IsFastLiteral example_literal_heap example_site_broker
              \<lparr>data_ptr = 1\<rparr>"
    by (simp add: literal_defs)
  note t = fast_literal_depth_bound[where H = example_literal_heap and a = 33 and d = 3
      and cs = "[]" and cs' = "[21, 22, 23]" and b = example_site_broker
      and r = "\<lparr>data_ptr = 0\<rparr>" and w = "\<lparr>max_properties = 4, migrations = []\<rparr>"]
  note t' = fast_literal_depth_bound[where H = example_literal_heap and a = 23 and d = 0
      and cs = "[]" and cs' = "[]" and b = example_site_broker
      and r = "\<lparr>data_ptr = 0\<rparr>" and w = "\<lparr>max_properties = 4, migrations = []\<rparr>"]
  from t have "\<not> TryMigrateInstance (JSObject_at example_literal_heap 33) \<longrightarrow>
      IsFastLiteralHelper example_literal_heap 33 3 \<lparr>max_properties = 4, migrations = []\<rparr> =
      (False, \<lparr>max_properties = 4, migrations = []\<rparr>\<lparr>migrations :=
         migrations \<lparr>max_properties = 4, migrations = []\<rparr> @ [33]\<rparr>)"
    by blast
  with nm have m: "IsFastLiteralHelper example_literal_heap 33 3
      \<lparr>max_properties = 4, migrations = []\<rparr> = (False, \<lparr>max_properties = 4, migrations = [33]\<rparr>)"
    by simp
  from t have "nested_chain example_literal_heap
      (AllocationSite_boilerplate example_literal_heap
         (ObjectRef_object example_site_broker \<lparr>data_ptr = 0\<rparr>) # [21, 22, 23]) \<and>
      3 \<le> length [21, 22, 23 :: nat] \<longrightarrow>
      \<not> AllocationSiteRef_IsFastLiteral example_literal_heap example_site_broker \<lparr>data_ptr = 0\<rparr>"
    by blast
  moreover have "nested_chain example_literal_heap
      (AllocationSite_boilerplate example_literal_heap
         (ObjectRef_object example_site_broker \<lparr>data_ptr = 0\<rparr>) # [21, 22, 23])"
    unfolding bp by (rule ch)
  ultimately have deep:
    "\<not> AllocationSiteRef_IsFastLiteral example_literal_heap example_site_broker \<lparr>data_ptr = 0\<rparr>"
    by simp
  from t' have "IsFastLiteralHelper example_literal_heap 23 0
      \<lparr>max_properties = 4, migrations = []\<rparr> =
      (False, \<lparr>max_properties = 4, migrations = []\<rparr>\<lparr>migrations :=
         migrations \<lparr>max_properties = 4, migrations = []\<rparr> @ [23]\<rparr>)"
    by blast
  then have z: "IsFastLiteralHelper example_literal_heap 23 0
      \<lparr>max_properties = 4, migrations = []\<rparr> = (False, \<lparr>max_properties = 4, migrations = [23]\<rparr>)"
    by simp
  note t'' = fast_literal_depth_bound[where H = example_literal_heap and a = 20 and d = 3
      and cs = "[21, 22, 23]" and cs' = "[]" and b = example_site_broker
      and r = "\<lparr>data_ptr = 0\<rparr>" and w = "\<lparr>max_properties = 4, migrations = []\<rparr>"]
  from t'' have "nested_chain example_literal_heap (20 # [21, 22, 23]) \<and>
      3 \<le> length [21, 22, 23 :: nat] \<longrightarrow>
      \<not> fst (IsFastLiteralHelper example_literal_heap 20 3 \<lparr>max_properties = 4, migrations = []\<rparr>)"
    by blast
  with ch have h: "\<not> fst (IsFastLiteralHelper example_literal_heap 20 3
      \<lparr>max_properties = 4, migrations = []\<rparr>)"
    by simp
  from ch deep ch' ok nm m z h show ?thesis by (intro conjI)
qed

text \<open>Claim C7. Started with a counter that is not negative, the helper succeeds exactly when
  the graph passes the other checks and the number of entries it counts (walked elements and
  in-object fields, over the whole recursion) is at most the counter; it then leaves the
  counter lowered by exactly that number, one for each counted entry. So a graph that counts
  exactly the budget is eligible and one that counts one more is not. For an allocation site
  the budget is the maximum number of in-object properties; in particular a boilerplate
  without elements whose properties are all in-object fields holding no objects is a fast
  literal exactly when the number of its properties is at most that maximum.\<close>

theorem fast_literal_count_bound:
  assumes "0 \<le> max_properties w"
  shows "(fst (IsFastLiteralHelper H a d w) \<longleftrightarrow>
            walk_ok H d a \<and> total_count H d a \<le> max_properties w) \<and>
         (fst (IsFastLiteralHelper H a d w) \<longrightarrow>
            max_properties (snd (IsFastLiteralHelper H a d w)) =
              max_properties w - total_count H d a) \<and>
         (walk_ok H d a \<and> total_count H d a = max_properties w \<longrightarrow>
            fst (IsFastLiteralHelper H a d w)) \<and>
         (total_count H d a = max_properties w + 1 \<longrightarrow> \<not> fst (IsFastLiteralHelper H a d w)) \<and>
         (max_properties w = kMaxInObjectProperties H \<and>
          a = AllocationSite_boilerplate H (ObjectRef_object b r) \<longrightarrow>
            (AllocationSiteRef_IsFastLiteral H b r \<longleftrightarrow>
               walk_ok H kMaxFastLiteralDepth a \<and>
               total_count H kMaxFastLiteralDepth a \<le> kMaxInObjectProperties H)) \<and>
         (max_properties w = kMaxInObjectProperties H \<and>
          a = AllocationSite_boilerplate H (ObjectRef_object b r) \<and>
          TryMigrateInstance (JSObject_at H a) \<and> contents (elements (JSObject_at H a)) = [] \<and>
          HasFastProperties (JSObject_at H a) \<and> property_array_length (JSObject_at H a) = 0 \<and>
          (\<forall>p \<in> set (own_descriptors (JSObject_at H a)).
             location p = kField \<and> \<not> Object_IsJSObject H (RawFastPropertyAt p)) \<longrightarrow>
            (AllocationSiteRef_IsFastLiteral H b r \<longleftrightarrow>
               int (length (own_descriptors (JSObject_at H a))) \<le> kMaxInObjectProperties H))"
proof -
  let ?r = "IsFastLiteralHelper H a d w"
  have b: "budgeted ?r w (walk_ok H d a) (total_count H d a)"
    by (rule IsFastLiteralHelper_budgeted[OF assms])
  have c1: "fst ?r \<longleftrightarrow> walk_ok H d a \<and> total_count H d a \<le> max_properties w"
    using b by (simp add: budgeted_def)
  have c2: "fst ?r \<longrightarrow> max_properties (snd ?r) = max_properties w - total_count H d a"
    using b by (simp add: budgeted_def)
  have c3: "walk_ok H d a \<and> total_count H d a = max_properties w \<longrightarrow> fst ?r"
    using c1 by simp
  have c4: "total_count H d a = max_properties w + 1 \<longrightarrow> \<not> fst ?r"
    using c1 by simp
  have site: "AllocationSiteRef_IsFastLiteral H b r \<longleftrightarrow>
               walk_ok H kMaxFastLiteralDepth a \<and>
               total_count H kMaxFastLiteralDepth a \<le> kMaxInObjectProperties H"
    if m: "max_properties w = kMaxInObjectProperties H"
      and a: "a = AllocationSite_boilerplate H (ObjectRef_object b r)"
  proof -
    let ?w0 = "\<lparr>max_properties = kMaxFastLiteralProperties H, migrations = []\<rparr>"
    have "0 \<le> max_properties ?w0" using assms m by (simp add: kMaxFastLiteralProperties_def)
    from IsFastLiteralHelper_budgeted[OF this, of H a kMaxFastLiteralDepth]
    show ?thesis
      unfolding AllocationSiteRef_IsFastLiteral_def a
      by (simp add: budgeted_def kMaxFastLiteralProperties_def)
  qed
  then have c5: "max_properties w = kMaxInObjectProperties H \<and>
          a = AllocationSite_boilerplate H (ObjectRef_object b r) \<longrightarrow>
            (AllocationSiteRef_IsFastLiteral H b r \<longleftrightarrow>
               walk_ok H kMaxFastLiteralDepth a \<and>
               total_count H kMaxFastLiteralDepth a \<le> kMaxInObjectProperties H)"
    by blast
  have c6: "max_properties w = kMaxInObjectProperties H \<and>
          a = AllocationSite_boilerplate H (ObjectRef_object b r) \<and>
          TryMigrateInstance (JSObject_at H a) \<and> contents (elements (JSObject_at H a)) = [] \<and>
          HasFastProperties (JSObject_at H a) \<and> property_array_length (JSObject_at H a) = 0 \<and>
          (\<forall>p \<in> set (own_descriptors (JSObject_at H a)).
             location p = kField \<and> \<not> Object_IsJSObject H (RawFastPropertyAt p)) \<longrightarrow>
            (AllocationSiteRef_IsFastLiteral H b r \<longleftrightarrow>
               int (length (own_descriptors (JSObject_at H a))) \<le> kMaxInObjectProperties H)"
  proof (intro impI, elim conjE)
    assume m: "max_properties w = kMaxInObjectProperties H"
      and a: "a = AllocationSite_boilerplate H (ObjectRef_object b r)"
      and mg: "TryMigrateInstance (JSObject_at H a)"
      and el: "contents (elements (JSObject_at H a)) = []"
      and fp: "HasFastProperties (JSObject_at H a)"
      and pa: "property_array_length (JSObject_at H a) = 0"
      and ds: "\<forall>p \<in> set (own_descriptors (JSObject_at H a)).
             location p = kField \<and> \<not> Object_IsJSObject H (RawFastPropertyAt p)"
    have k: "kMaxFastLiteralDepth = Suc 2" by (simp add: kMaxFastLiteralDepth_def)
    have w: "walk_ok H kMaxFastLiteralDepth a"
      unfolding k by (rule flat_object_walk_ok[OF mg el fp pa ds])
    have t: "total_count H kMaxFastLiteralDepth a = int (length (own_descriptors (JSObject_at H a)))"
      unfolding k by (rule flat_object_count(2)[OF el ds])
    from site[OF m a] w t
    show "AllocationSiteRef_IsFastLiteral H b r \<longleftrightarrow>
               int (length (own_descriptors (JSObject_at H a))) \<le> kMaxInObjectProperties H"
      by simp
  qed
  from c1 c2 c3 c4 c5 c6 show ?thesis by (intro conjI)
qed

theorem fast_literal_count_bound_witness:
  "length (own_descriptors (JSObject_at example_literal_heap 30)) = 4 \<and>
   length (own_descriptors (JSObject_at example_literal_heap 31)) = 5 \<and>
   kMaxInObjectProperties example_literal_heap = 4 \<and>
   AllocationSiteRef_IsFastLiteral example_literal_heap example_site_broker \<lparr>data_ptr = 2\<rparr> \<and>
   \<not> AllocationSiteRef_IsFastLiteral example_literal_heap example_site_broker \<lparr>data_ptr = 3\<rparr> \<and>
   max_properties (snd (IsFastLiteralHelper example_literal_heap 30 3
      \<lparr>max_properties = 4, migrations = []\<rparr>)) = 0 \<and>
   total_count example_literal_heap 3 21 = 2 \<and>
   max_properties (snd (IsFastLiteralHelper example_literal_heap 21 3
      \<lparr>max_properties = 4, migrations = []\<rparr>)) = 2 \<and>
   total_count example_literal_heap 3 30 = 4 \<and>
   fst (IsFastLiteralHelper example_literal_heap 30 3 \<lparr>max_properties = 4, migrations = []\<rparr>) \<and>
   total_count example_literal_heap 3 31 = 5 \<and>
   \<not> fst (IsFastLiteralHelper example_literal_heap 31 3 \<lparr>max_properties = 4, migrations = []\<rparr>)"
proof -
  let ?H = example_literal_heap
  let ?w = "\<lparr>max_properties = 4, migrations = []\<rparr> :: LiteralWalk"
  let ?flat = "\<lambda>a r. max_properties ?w = kMaxInObjectProperties ?H \<and>
          a = AllocationSite_boilerplate ?H (ObjectRef_object example_site_broker r) \<and>
          TryMigrateInstance (JSObject_at ?H a) \<and> contents (elements (JSObject_at ?H a)) = [] \<and>
          HasFastProperties (JSObject_at ?H a) \<and> property_array_length (JSObject_at ?H a) = 0 \<and>
          (\<forall>p \<in> set (own_descriptors (JSObject_at ?H a)).
             location p = kField \<and> \<not> Object_IsJSObject ?H (RawFastPropertyAt p))"
  let ?fits = "\<lambda>a r. AllocationSiteRef_IsFastLiteral ?H example_site_broker r \<longleftrightarrow>
          int (length (own_descriptors (JSObject_at ?H a))) \<le> kMaxInObjectProperties ?H"
  have l30: "length (own_descriptors (JSObject_at ?H 30)) = 4"
    by (simp add: example_literal_heap_def example_object_def)
  have l31: "length (own_descriptors (JSObject_at ?H 31)) = 5"
    by (simp add: example_literal_heap_def example_object_def)
  have k: "kMaxInObjectProperties ?H = 4" by (simp add: example_literal_heap_def)
  have w0: "0 \<le> max_properties ?w" by simp
  have flat30: "?flat 30 \<lparr>data_ptr = 2\<rparr>"
    by (simp add: example_literal_heap_def example_object_def example_field_def
        example_site_broker_def ObjectRef_object_def data_at_def)
  have flat31: "?flat 31 \<lparr>data_ptr = 3\<rparr>"
    by (simp add: example_literal_heap_def example_object_def example_field_def
        example_site_broker_def ObjectRef_object_def data_at_def)
  note t30 = fast_literal_count_bound[OF w0, where H = ?H and a = 30 and d = 3
      and b = example_site_broker and r = "\<lparr>data_ptr = 2\<rparr>"]
  note t31 = fast_literal_count_bound[OF w0, where H = ?H and a = 31 and d = 3
      and b = example_site_broker and r = "\<lparr>data_ptr = 3\<rparr>"]
  note t21 = fast_literal_count_bound[OF w0, where H = ?H and a = 21 and d = 3
      and b = example_site_broker and r = "\<lparr>data_ptr = 1\<rparr>"]
  from t30 have "?flat 30 \<lparr>data_ptr = 2\<rparr> \<longrightarrow> ?fits 30 \<lparr>data_ptr = 2\<rparr>" by blast
  with flat30 have "?fits 30 \<lparr>data_ptr = 2\<rparr>" by blast
  with l30 k have e30:
    "AllocationSiteRef_IsFastLiteral ?H example_site_broker \<lparr>data_ptr = 2\<rparr>" by simp
  from t31 have "?flat 31 \<lparr>data_ptr = 3\<rparr> \<longrightarrow> ?fits 31 \<lparr>data_ptr = 3\<rparr>" by blast
  with flat31 have "?fits 31 \<lparr>data_ptr = 3\<rparr>" by blast
  with l31 k have e31:
    "\<not> AllocationSiteRef_IsFastLiteral ?H example_site_broker \<lparr>data_ptr = 3\<rparr>" by simp
  have tc30: "total_count ?H 3 30 = 4"
    by (simp add: eval_nat_numeral example_literal_heap_def example_object_def example_field_def
        nested_objects_def walked_elements_def walked_fields_def counted_fields_def)
  have wk30: "walk_ok ?H 3 30"
    by (simp add: eval_nat_numeral example_literal_heap_def example_object_def example_field_def
        nested_objects_def walked_elements_def walked_fields_def counted_fields_def
        elements_ok_def)
  from t30 have "fst (IsFastLiteralHelper ?H 30 3 ?w) \<longleftrightarrow>
      walk_ok ?H 3 30 \<and> total_count ?H 3 30 \<le> max_properties ?w"
    and d30: "fst (IsFastLiteralHelper ?H 30 3 ?w) \<longrightarrow>
      max_properties (snd (IsFastLiteralHelper ?H 30 3 ?w)) =
        max_properties ?w - total_count ?H 3 30"
    by blast+
  with tc30 wk30 have c30: "max_properties (snd (IsFastLiteralHelper ?H 30 3 ?w)) = 0"
    by simp
  have tc21: "total_count ?H 3 21 = 2"
    by (simp add: eval_nat_numeral example_literal_heap_def example_object_def example_field_def
        nested_objects_def walked_elements_def walked_fields_def counted_fields_def)
  have wk21: "walk_ok ?H 3 21"
    by (simp add: eval_nat_numeral example_literal_heap_def example_object_def example_field_def
        nested_objects_def walked_elements_def walked_fields_def counted_fields_def
        elements_ok_def)
  from t21 have "fst (IsFastLiteralHelper ?H 21 3 ?w) \<longleftrightarrow>
      walk_ok ?H 3 21 \<and> total_count ?H 3 21 \<le> max_properties ?w"
    and "fst (IsFastLiteralHelper ?H 21 3 ?w) \<longrightarrow>
      max_properties (snd (IsFastLiteralHelper ?H 21 3 ?w)) =
        max_properties ?w - total_count ?H 3 21"
    by blast+
  with tc21 wk21 have c21: "max_properties (snd (IsFastLiteralHelper ?H 21 3 ?w)) = 2"
    by simp
  have tc31: "total_count ?H 3 31 = 5"
    by (simp add: eval_nat_numeral example_literal_heap_def example_object_def example_field_def
        nested_objects_def walked_elements_def walked_fields_def counted_fields_def)
  from t30 have "walk_ok ?H 3 30 \<and> total_count ?H 3 30 = max_properties ?w \<longrightarrow>
      fst (IsFastLiteralHelper ?H 30 3 ?w)"
    by blast
  with wk30 tc30 have f30: "fst (IsFastLiteralHelper ?H 30 3 ?w)" by simp
  from t31 have "total_count ?H 3 31 = max_properties ?w + 1 \<longrightarrow>
      \<not> fst (IsFastLiteralHelper ?H 31 3 ?w)"
    by blast
  with tc31 have f31: "\<not> fst (IsFastLiteralHelper ?H 31 3 ?w)" by simp
  from l30 l31 k e30 e31 c30 tc21 c21 tc30 f30 tc31 f31 show ?thesis by (intro conjI)
qed

text \<open>Claim C8. When the element storage of an object uses the copy-on-write map, the helper
  walks no element and counts none: it goes from the migration check and the depth check
  straight to the properties, with the counter untouched, and its result is given by the
  migration, the property layout and the in-object fields alone, whatever the number of
  elements, their kind and the size of their storage. So an object with such storage and no
  in-object fields that passes the migration and layout checks is eligible under any
  counter, and an allocation site with such a boilerplate is a fast literal.\<close>

theorem fast_literal_cow_elements:
  assumes "map_is_fixed_cow_array_map (elements (JSObject_at H a))"
  shows "walked_elements (JSObject_at H a) = [] \<and>
         elements_ok H (JSObject_at H a) \<and>
         IsFastLiteralHelper H a (Suc d) w =
           (let w1 = w\<lparr>migrations := migrations w @ [a]\<rparr>; obj = JSObject_at H a
            in if \<not> TryMigrateInstance obj then (False, w1)
               else if \<not> (HasFastProperties obj \<and> property_array_length obj = 0) then (False, w1)
               else properties_loop H (own_descriptors obj) d w1) \<and>
         total_count H (Suc d) a =
           int (length (counted_fields (JSObject_at H a))) +
           sum_list (map (total_count H d)
             (filter (Object_IsJSObject H) (walked_fields (JSObject_at H a)))) \<and>
         (TryMigrateInstance (JSObject_at H a) \<and> HasFastProperties (JSObject_at H a) \<and>
          property_array_length (JSObject_at H a) = 0 \<and> own_descriptors (JSObject_at H a) = [] \<longrightarrow>
            IsFastLiteralHelper H a (Suc d) w = (True, w\<lparr>migrations := migrations w @ [a]\<rparr>)) \<and>
         (a = AllocationSite_boilerplate H (ObjectRef_object b r) \<and>
          TryMigrateInstance (JSObject_at H a) \<and> HasFastProperties (JSObject_at H a) \<and>
          property_array_length (JSObject_at H a) = 0 \<and> own_descriptors (JSObject_at H a) = [] \<longrightarrow>
            AllocationSiteRef_IsFastLiteral H b r)"
proof -
  have c1: "walked_elements (JSObject_at H a) = []"
    using assms by (simp add: walked_elements_def)
  have c2: "elements_ok H (JSObject_at H a)"
    using assms by (simp add: elements_ok_def)
  note c3 = IsFastLiteralHelper_cow[OF assms, of d w]
  have c4: "total_count H (Suc d) a =
           int (length (counted_fields (JSObject_at H a))) +
           sum_list (map (total_count H d)
             (filter (Object_IsJSObject H) (walked_fields (JSObject_at H a))))"
    using c1 by (simp add: nested_objects_def)
  have c5: "TryMigrateInstance (JSObject_at H a) \<and> HasFastProperties (JSObject_at H a) \<and>
          property_array_length (JSObject_at H a) = 0 \<and> own_descriptors (JSObject_at H a) = [] \<longrightarrow>
            IsFastLiteralHelper H a (Suc d) w = (True, w\<lparr>migrations := migrations w @ [a]\<rparr>)"
    by (simp add: IsFastLiteralHelper_cow[OF assms] Let_def)
  have c6: "a = AllocationSite_boilerplate H (ObjectRef_object b r) \<and>
          TryMigrateInstance (JSObject_at H a) \<and> HasFastProperties (JSObject_at H a) \<and>
          property_array_length (JSObject_at H a) = 0 \<and> own_descriptors (JSObject_at H a) = [] \<longrightarrow>
            AllocationSiteRef_IsFastLiteral H b r"
  proof (intro impI, elim conjE)
    assume a: "a = AllocationSite_boilerplate H (ObjectRef_object b r)"
      and p: "TryMigrateInstance (JSObject_at H a)" "HasFastProperties (JSObject_at H a)"
        "property_array_length (JSObject_at H a) = 0" "own_descriptors (JSObject_at H a) = []"
    have k: "kMaxFastLiteralDepth = Suc 2" by (simp add: kMaxFastLiteralDepth_def)
    let ?w0 = "\<lparr>max_properties = kMaxFastLiteralProperties H, migrations = []\<rparr>"
    have e: "IsFastLiteralHelper H a (Suc 2) ?w0 =
               (True, ?w0\<lparr>migrations := migrations ?w0 @ [a]\<rparr>)"
      using p IsFastLiteralHelper_cow[OF assms, of 2 ?w0] by (simp add: Let_def)
    have "fst (IsFastLiteralHelper H a kMaxFastLiteralDepth ?w0)"
      unfolding k e by simp
    then show "AllocationSiteRef_IsFastLiteral H b r"
      unfolding AllocationSiteRef_IsFastLiteral_def a .
  qed
  from c1 c2 c3 c4 c5 c6 show ?thesis by (intro conjI)
qed

theorem fast_literal_cow_elements_witness:
  "map_is_fixed_cow_array_map (elements (JSObject_at example_literal_heap 40)) \<and>
   length (contents (elements (JSObject_at example_literal_heap 40))) = 10 \<and>
   kMaxInObjectProperties example_literal_heap = 4 \<and>
   IsFastLiteralHelper example_literal_heap 40 3 \<lparr>max_properties = 4, migrations = []\<rparr> =
     (True, \<lparr>max_properties = 4, migrations = [40]\<rparr>) \<and>
   AllocationSiteRef_IsFastLiteral example_literal_heap example_site_broker \<lparr>data_ptr = 4\<rparr> \<and>
   contents (elements (JSObject_at example_literal_heap 41)) =
     contents (elements (JSObject_at example_literal_heap 40)) \<and>
   \<not> AllocationSiteRef_IsFastLiteral example_literal_heap example_site_broker \<lparr>data_ptr = 5\<rparr>"
proof -
  let ?H = example_literal_heap
  let ?w = "\<lparr>max_properties = 4, migrations = []\<rparr> :: LiteralWalk"
  have cow: "map_is_fixed_cow_array_map (elements (JSObject_at ?H 40))"
    by (simp add: example_literal_heap_def example_object_def)
  have len: "length (contents (elements (JSObject_at ?H 40))) = 10"
    by (simp add: example_literal_heap_def example_object_def)
  have k: "kMaxInObjectProperties ?H = 4" by (simp add: example_literal_heap_def)
  have p: "40 = AllocationSite_boilerplate ?H (ObjectRef_object example_site_broker \<lparr>data_ptr = 4\<rparr>) \<and>
          TryMigrateInstance (JSObject_at ?H 40) \<and> HasFastProperties (JSObject_at ?H 40) \<and>
          property_array_length (JSObject_at ?H 40) = 0 \<and> own_descriptors (JSObject_at ?H 40) = []"
    by (simp add: example_literal_heap_def example_object_def example_site_broker_def
        ObjectRef_object_def data_at_def)
  note t = fast_literal_cow_elements[OF cow, where d = 2 and w = ?w
      and b = example_site_broker and r = "\<lparr>data_ptr = 4\<rparr>"]
  from t have "TryMigrateInstance (JSObject_at ?H 40) \<and> HasFastProperties (JSObject_at ?H 40) \<and>
      property_array_length (JSObject_at ?H 40) = 0 \<and> own_descriptors (JSObject_at ?H 40) = [] \<longrightarrow>
      IsFastLiteralHelper ?H 40 (Suc 2) ?w = (True, ?w\<lparr>migrations := migrations ?w @ [40]\<rparr>)"
    by blast
  with p have "IsFastLiteralHelper ?H 40 (Suc 2) ?w =
      (True, ?w\<lparr>migrations := migrations ?w @ [40]\<rparr>)"
    by blast
  then have r: "IsFastLiteralHelper ?H 40 3 ?w = (True, \<lparr>max_properties = 4, migrations = [40]\<rparr>)"
    by simp
  from t have "40 = AllocationSite_boilerplate ?H (ObjectRef_object example_site_broker \<lparr>data_ptr = 4\<rparr>) \<and>
      TryMigrateInstance (JSObject_at ?H 40) \<and> HasFastProperties (JSObject_at ?H 40) \<and>
      property_array_length (JSObject_at ?H 40) = 0 \<and> own_descriptors (JSObject_at ?H 40) = [] \<longrightarrow>
      AllocationSiteRef_IsFastLiteral ?H example_site_broker \<lparr>data_ptr = 4\<rparr>"
    by blast
  with p have s: "AllocationSiteRef_IsFastLiteral ?H example_site_broker \<lparr>data_ptr = 4\<rparr>"
    by blast
  have same: "contents (elements (JSObject_at ?H 41)) = contents (elements (JSObject_at ?H 40))"
    by (simp add: example_literal_heap_def example_object_def)
  have n: "\<not> AllocationSiteRef_IsFastLiteral ?H example_site_broker \<lparr>data_ptr = 5\<rparr>"
    by (simp add: literal_defs eval_nat_numeral)
  from cow len k r s same n show ?thesis by (intro conjI)
qed

end
